theory Spec2Isabelle
  imports Complex_Main "HOL-Library.Word" "HOL-Library.Log_Nat"
begin

section \<open>ESP32 sensor monitor: calibration, persistence, telemetry and display arbiter\<close>

text \<open>
  A shallow embedding of the sketch with persistent calibration, LCD and IR alert
  (\<^verbatim>\<open>saveOffsetsToPrefs\<close>, \<^verbatim>\<open>loadOffsetsFromPrefs\<close>, \<^verbatim>\<open>doAveragingCalibration\<close>,
  \<^verbatim>\<open>readSensors\<close>, \<^verbatim>\<open>handleData\<close>, \<^verbatim>\<open>handleCalibrate\<close>, \<^verbatim>\<open>showIrAlert\<close>,
  \<^verbatim>\<open>restoreNormalDisplay\<close>, \<^verbatim>\<open>updateLCD\<close>, the end of \<^verbatim>\<open>setup\<close> and \<^verbatim>\<open>loop\<close>).
  The globals of the sketch and the collaborators it talks to (sensor drivers, key/value
  store, display, serial line, HTTP server, clock) are the fields of one state record,
  and every function of the sketch takes the state and returns the updated one.
\<close>

subsection \<open>Numbers\<close>

text \<open>
  Binary floating point. A finite value is the real number it denotes; \<open>round_real p emin\<close>
  rounds a real to the nearest number with \<open>p\<close> significant bits and least exponent
  \<open>emin\<close>, ties to the even significand, subnormal numbers included:
  \<open>binade x\<close> is the exponent \<open>e\<close> with \<open>2\<^sup>e \<le> |x| < 2\<^sup>e\<^sup>+\<^sup>1\<close> (read off the bit length of the
  integer part of \<open>|x|\<close>, or of \<open>1 / |x|\<close> rounded up), the unit in the last place is
  \<open>2\<close> to the power \<open>max e emin - (p - 1)\<close>, and \<open>rne\<close> rounds the quotient to an integer.
\<close>

definition pow2 :: "int \<Rightarrow> real" where
  "pow2 k = (if 0 \<le> k then 2 ^ nat k else 1 / 2 ^ nat (- k))"

definition rne :: "real \<Rightarrow> int" where
  "rne x =
     (let f = \<lfloor>x\<rfloor>; d = x - of_int f
      in if d < 1 / 2 then f
         else if 1 / 2 < d then f + 1
         else if even f then f else f + 1)"

definition binade :: "real \<Rightarrow> int" where
  "binade x =
     (if 1 \<le> \<bar>x\<bar> then bitlen \<lfloor>\<bar>x\<bar>\<rfloor> - 1 else - bitlen (\<lceil>1 / \<bar>x\<bar>\<rceil> - 1))"

definition round_real :: "nat \<Rightarrow> int \<Rightarrow> real \<Rightarrow> real" where
  "round_real p emin x =
     (if x = 0 then 0
      else (let u = pow2 (max (binade x) emin - (int p - 1))
            in of_int (rne (x / u)) * u))"

text \<open>
  A \<^verbatim>\<open>float\<close> or \<^verbatim>\<open>double\<close> value is a finite number, an infinity or NaN. The sign
  of zero is not part of the model. The operations below on \<open>fp\<close> are the exact ones of
  IEEE 754 on these values (NaN propagates, every comparison with NaN is false, a
  non-zero number divided by zero is an infinity, \<open>0 / 0\<close> and \<open>\<infinity> - \<infinity>\<close> are NaN); a
  \<^verbatim>\<open>float\<close> or \<^verbatim>\<open>double\<close> operation of the sketch is the exact operation followed by
  the rounding to its format, where a result beyond the largest finite number becomes
  an infinity.
\<close>

datatype fp = Fin real | PInf | NInf | NaN

fun xneg :: "fp \<Rightarrow> fp" where
  "xneg (Fin a) = Fin (- a)"
| "xneg PInf = NInf"
| "xneg NInf = PInf"
| "xneg NaN = NaN"

fun xabs :: "fp \<Rightarrow> fp" where
  "xabs (Fin a) = Fin \<bar>a\<bar>"
| "xabs PInf = PInf"
| "xabs NInf = PInf"
| "xabs NaN = NaN"

fun xadd :: "fp \<Rightarrow> fp \<Rightarrow> fp" where
  "xadd (Fin a) (Fin b) = Fin (a + b)"
| "xadd NaN _ = NaN"
| "xadd _ NaN = NaN"
| "xadd PInf NInf = NaN"
| "xadd NInf PInf = NaN"
| "xadd PInf _ = PInf"
| "xadd _ PInf = PInf"
| "xadd NInf _ = NInf"
| "xadd _ NInf = NInf"

definition xsub :: "fp \<Rightarrow> fp \<Rightarrow> fp" where
  "xsub a b = xadd a (xneg b)"

fun xmul :: "fp \<Rightarrow> fp \<Rightarrow> fp" where
  "xmul (Fin a) (Fin b) = Fin (a * b)"
| "xmul NaN _ = NaN"
| "xmul _ NaN = NaN"
| "xmul (Fin a) PInf = (if a = 0 then NaN else if 0 < a then PInf else NInf)"
| "xmul (Fin a) NInf = (if a = 0 then NaN else if 0 < a then NInf else PInf)"
| "xmul PInf (Fin b) = (if b = 0 then NaN else if 0 < b then PInf else NInf)"
| "xmul NInf (Fin b) = (if b = 0 then NaN else if 0 < b then NInf else PInf)"
| "xmul PInf PInf = PInf"
| "xmul NInf NInf = PInf"
| "xmul PInf NInf = NInf"
| "xmul NInf PInf = NInf"

fun xdiv :: "fp \<Rightarrow> fp \<Rightarrow> fp" where
  "xdiv (Fin a) (Fin b) =
     (if b = 0 then (if a = 0 then NaN else if 0 < a then PInf else NInf) else Fin (a / b))"
| "xdiv NaN _ = NaN"
| "xdiv _ NaN = NaN"
| "xdiv (Fin a) _ = Fin 0"
| "xdiv PInf (Fin b) = (if 0 \<le> b then PInf else NInf)"
| "xdiv NInf (Fin b) = (if 0 \<le> b then NInf else PInf)"
| "xdiv PInf PInf = NaN"
| "xdiv PInf NInf = NaN"
| "xdiv NInf PInf = NaN"
| "xdiv NInf NInf = NaN"

fun xsqrt :: "fp \<Rightarrow> fp" where
  "xsqrt (Fin a) = (if a < 0 then NaN else Fin (sqrt a))"
| "xsqrt PInf = PInf"
| "xsqrt _ = NaN"

fun flt :: "fp \<Rightarrow> fp \<Rightarrow> bool" where
  "flt (Fin a) (Fin b) = (a < b)"
| "flt NaN _ = False"
| "flt _ NaN = False"
| "flt NInf NInf = False"
| "flt NInf _ = True"
| "flt PInf _ = False"
| "flt _ PInf = True"
| "flt _ NInf = False"

fun round_fp :: "nat \<Rightarrow> int \<Rightarrow> int \<Rightarrow> fp \<Rightarrow> fp" where
  "round_fp p emin emax (Fin x) =
     (let r = round_real p emin x
      in if pow2 (emax + 1) \<le> \<bar>r\<bar> then (if 0 < r then PInf else NInf) else Fin r)"
| "round_fp p emin emax v = v"

text \<open>
  \<^verbatim>\<open>float\<close> is binary32 and \<^verbatim>\<open>double\<close> is binary64. \<open>to_float\<close> is also the
  narrowing conversion \<^verbatim>\<open>(float)\<close> of a \<^verbatim>\<open>double\<close>; the widening of a \<^verbatim>\<open>float\<close> or of
  an \<^verbatim>\<open>unsigned int\<close> to \<^verbatim>\<open>double\<close> is exact and leaves the value as it is.
\<close>

definition to_float :: "fp \<Rightarrow> fp" where
  "to_float = round_fp 24 (- 126) 127"

definition to_double :: "fp \<Rightarrow> fp" where
  "to_double = round_fp 53 (- 1022) 1023"

definition fadd :: "fp \<Rightarrow> fp \<Rightarrow> fp" where
  "fadd a b = to_float (xadd a b)"

definition fsub :: "fp \<Rightarrow> fp \<Rightarrow> fp" where
  "fsub a b = to_float (xsub a b)"

definition fmul :: "fp \<Rightarrow> fp \<Rightarrow> fp" where
  "fmul a b = to_float (xmul a b)"

definition fdiv :: "fp \<Rightarrow> fp \<Rightarrow> fp" where
  "fdiv a b = to_float (xdiv a b)"

definition fsqrt :: "fp \<Rightarrow> fp" where
  "fsqrt a = to_float (xsqrt a)"

definition dadd :: "fp \<Rightarrow> fp \<Rightarrow> fp" where
  "dadd a b = to_double (xadd a b)"

definition ddiv :: "fp \<Rightarrow> fp \<Rightarrow> fp" where
  "ddiv a b = to_double (xdiv a b)"

text \<open>The macro \<^verbatim>\<open>PI\<close>: the \<^verbatim>\<open>double\<close> nearest to \<open>3.1415926535897932384626433832795\<close>.\<close>

definition PI :: fp where
  "PI = Fin (884279719003555 / 281474976710656)"

text \<open>
  The angle of the point \<open>(x, y)\<close>, in \<open>(-pi, pi]\<close>: what \<^verbatim>\<open>atan2(y, x)\<close> approximates.
  The C library's function itself is a collaborator (\<open>libm_atan2f\<close> below); \<open>atan2f_rn\<close>,
  the correctly rounded one on finite arguments, stands for it on the example boards,
  where the arguments are finite.
\<close>

definition atan2 :: "real \<Rightarrow> real \<Rightarrow> real" where
  "atan2 y x =
     (if 0 < x then arctan (y / x)
      else if x < 0 then (if 0 \<le> y then arctan (y / x) + pi else arctan (y / x) - pi)
      else if 0 < y then pi / 2
      else if y < 0 then - (pi / 2)
      else 0)"

fun atan2f_rn :: "fp \<Rightarrow> fp \<Rightarrow> fp" where
  "atan2f_rn (Fin y) (Fin x) = to_float (Fin (atan2 y x))"
| "atan2f_rn _ _ = NaN"

text \<open>\<^verbatim>\<open>unsigned long\<close> is 32 bits wide on the ESP32: \<^verbatim>\<open>millis()\<close> wraps around.\<close>

type_synonym ulong = "32 word"

subsection \<open>Data\<close>

text \<open>\<^verbatim>\<open>struct SensorReading\<close>.\<close>

record SensorReading =
  esp_ms :: ulong
  temperature :: fp
  pressure :: fp
  altitude :: fp
  angleX :: fp
  angleY :: fp
  angleZ :: fp
  accX :: fp
  accY :: fp
  accZ :: fp

text \<open>
  What the MPU6050 driver holds after one \<^verbatim>\<open>mpu.update()\<close>: the values its getters
  return. The driver computes them from 16-bit register values, so they are finite: each
  is given as the real number it denotes. That it is a \<^verbatim>\<open>float\<close> (\<open>is_float\<close> below) is
  said where a property depends on it.
\<close>

record mpu_frame =
  getAccX :: real
  getAccY :: real
  getAccZ :: real
  getGyroX :: real
  getGyroY :: real
  getGyroZ :: real
  getAngleZ :: real

text \<open>Values and accesses of the key/value store, each access under a namespace and a key.\<close>

datatype nvs_value = NvsFloat fp | NvsBool bool

datatype nvs_access = NvsPut string string nvs_value | NvsGet string string

text \<open>
  What the display receives. \<open>PrintLine1 t a\<close> is the text of
  \<^verbatim>\<open>snprintf(line1, 17, "T:%4.1fC A:%5.1fm", t, a)\<close> padded with blanks to 16 columns,
  \<open>PrintLine2 x y\<close> that of \<^verbatim>\<open>snprintf(line2, 17, "X:%5.1f Y:%5.1f", x, y)\<close>.
\<close>

datatype lcd_op =
    SetCursor nat nat
  | PrintText string
  | PrintLine1 fp fp
  | PrintLine2 fp fp

text \<open>
  The JSON bodies are kept as their fields: a number with the digits it is printed with
  (\<^verbatim>\<open>String(x, digits)\<close>), an unsigned integer, or a boolean.
\<close>

datatype json_value = JFloat fp nat | JULong ulong | JBool bool

datatype body = HtmlPage | JsonObject "(string \<times> json_value) list"

datatype response =
    RequestAuthentication
  | Send nat string body
  | NotFound

text \<open>
  A request as the handlers see it: its path, whether it carries an
  \<^verbatim>\<open>Authorization\<close> header, and whether \<^verbatim>\<open>server.authenticate(WWW_USER, WWW_PASS)\<close>
  accepts it.
\<close>

record http_request =
  path :: string
  hasAuthorization :: bool
  authenticates :: bool

datatype level = LOW | HIGH

text \<open>
  The state: the globals of the sketch first, then the collaborators.
  \<^item> \<open>mpu_feed\<close> is what the sensor delivers: \<open>mpu_feed s k\<close> is the frame the driver holds
    after the \<open>k\<close>-th \<^verbatim>\<open>mpu.update()\<close> (counted from 0), \<open>mpu_updates\<close> counts the updates
    made so far and \<open>mpu_cur\<close> is the frame the getters read.
  \<^item> \<open>bmp_temperature\<close>, \<open>bmp_pressure\<close>, \<open>bmp_altitude\<close> are what \<^verbatim>\<open>bmp.readTemperature()\<close>,
    \<^verbatim>\<open>bmp.readPressure()\<close> and \<^verbatim>\<open>bmp.readAltitude(SEALEVELPRESSURE_HPA)\<close> return.
  \<^item> \<open>clock\<close> is \<^verbatim>\<open>millis()\<close>; only \<^verbatim>\<open>delay\<close> advances it.
  \<^item> \<open>libm_atan2f\<close> is the C library's \<^verbatim>\<open>atan2\<close> on \<^verbatim>\<open>float\<close> arguments (the overload
    \<^verbatim>\<open>float atan2(float, float)\<close> that a call with two \<^verbatim>\<open>float\<close>s selects). It is not
    correctly rounded in general, so its values are taken as they come.
  \<^item> \<open>prefs_open\<close>, \<open>nvs\<close>, \<open>nvs_log\<close>: the \<^verbatim>\<open>Preferences\<close> object, the stored pairs and
    the accesses made, oldest first.
  \<^item> \<open>lcd\<close>, \<open>serial\<close>, \<open>http_out\<close>: what was sent to the display, the serial line and
    the HTTP client, oldest first.
\<close>

record state =
  accOffX :: fp
  accOffY :: fp
  accOffZ :: fp
  gyrOffX :: fp
  gyrOffY :: fp
  gyrOffZ :: fp
  offsetsLoaded :: bool
  bmp_ok :: bool
  lcd_last :: ulong
  lastIrActive :: bool
  irActive :: bool
  mpu_feed :: "nat \<Rightarrow> mpu_frame"
  mpu_updates :: nat
  mpu_cur :: mpu_frame
  bmp_temperature :: fp
  bmp_pressure :: fp
  bmp_altitude :: fp
  clock :: ulong
  libm_atan2f :: "fp \<Rightarrow> fp \<Rightarrow> fp"
  prefs_open :: "(string \<times> bool) option"
  nvs :: "string \<times> string \<rightharpoonup> nvs_value"
  nvs_log :: "nvs_access list"
  lcd :: "lcd_op list"
  serial :: "string list"
  http_out :: "response list"

subsection \<open>Collaborators\<close>

definition millis :: "state \<Rightarrow> ulong" where
  "millis s = clock s"

definition delay :: "ulong \<Rightarrow> state \<Rightarrow> state" where
  "delay ms s = s\<lparr>clock := clock s + ms\<rparr>"

definition mpu_update :: "state \<Rightarrow> state" where
  "mpu_update s = s\<lparr>mpu_cur := mpu_feed s (mpu_updates s), mpu_updates := Suc (mpu_updates s)\<rparr>"

definition Serial_println :: "string \<Rightarrow> state \<Rightarrow> state" where
  "Serial_println msg s = s\<lparr>serial := serial s @ [msg]\<rparr>"

definition server_send :: "response \<Rightarrow> state \<Rightarrow> state" where
  "server_send r s = s\<lparr>http_out := http_out s @ [r]\<rparr>"

definition lcd_write :: "lcd_op list \<Rightarrow> state \<Rightarrow> state" where
  "lcd_write ops s = s\<lparr>lcd := lcd s @ ops\<rparr>"

text \<open>
  Modelled from the spec: the \<^verbatim>\<open>Preferences\<close> library (the durable key/value store) is
  not part of the sources. The spec gives it \<open>get(key, default) -> value\<close> and
  \<open>put(key, value)\<close> and treats it as reliable and not atomic across keys. A store is
  opened on a namespace, read-only or not; a put on a writable open store binds the key
  at once; a get returns the stored value of the asked type, or the default when the key
  is absent, holds a value of another type, or the store is not open.
\<close>

definition prefs_begin :: "string \<Rightarrow> bool \<Rightarrow> state \<Rightarrow> state" where
  "prefs_begin ns readOnly s = s\<lparr>prefs_open := Some (ns, readOnly)\<rparr>"

definition prefs_end :: "state \<Rightarrow> state" where
  "prefs_end s = s\<lparr>prefs_open := None\<rparr>"

definition prefs_put :: "string \<Rightarrow> nvs_value \<Rightarrow> state \<Rightarrow> state" where
  "prefs_put key v s =
     (case prefs_open s of
        Some (ns, False) \<Rightarrow>
          s\<lparr>nvs := (nvs s)((ns, key) \<mapsto> v), nvs_log := nvs_log s @ [NvsPut ns key v]\<rparr>
      | _ \<Rightarrow> s)"

definition prefs_putFloat :: "string \<Rightarrow> fp \<Rightarrow> state \<Rightarrow> state" where
  "prefs_putFloat key x s = prefs_put key (NvsFloat x) s"

definition prefs_putBool :: "string \<Rightarrow> bool \<Rightarrow> state \<Rightarrow> state" where
  "prefs_putBool key b s = prefs_put key (NvsBool b) s"

definition prefs_get :: "string \<Rightarrow> state \<Rightarrow> nvs_value option \<times> state" where
  "prefs_get key s =
     (case prefs_open s of
        Some (ns, _) \<Rightarrow> (nvs s (ns, key), s\<lparr>nvs_log := nvs_log s @ [NvsGet ns key]\<rparr>)
      | None \<Rightarrow> (None, s))"

definition prefs_getFloat :: "string \<Rightarrow> fp \<Rightarrow> state \<Rightarrow> fp \<times> state" where
  "prefs_getFloat key dflt s =
     (case prefs_get key s of
        (Some (NvsFloat x), s') \<Rightarrow> (x, s')
      | (_, s') \<Rightarrow> (dflt, s'))"

definition prefs_getBool :: "string \<Rightarrow> bool \<Rightarrow> state \<Rightarrow> bool \<times> state" where
  "prefs_getBool key dflt s =
     (case prefs_get key s of
        (Some (NvsBool b), s') \<Rightarrow> (b, s')
      | (_, s') \<Rightarrow> (dflt, s'))"

subsection \<open>Saving and loading the offsets\<close>

definition saveOffsetsToPrefs :: "state \<Rightarrow> state" where
  "saveOffsetsToPrefs s =
     (let s = prefs_begin ''mpu'' False s;
          s = prefs_putFloat ''ax'' (accOffX s) s;
          s = prefs_putFloat ''ay'' (accOffY s) s;
          s = prefs_putFloat ''az'' (accOffZ s) s;
          s = prefs_putFloat ''gx'' (gyrOffX s) s;
          s = prefs_putFloat ''gy'' (gyrOffY s) s;
          s = prefs_putFloat ''gz'' (gyrOffZ s) s;
          s = prefs_putBool ''ok'' True s
      in prefs_end s)"

definition loadOffsetsFromPrefs :: "state \<Rightarrow> state" where
  "loadOffsetsFromPrefs s =
     (let s = prefs_begin ''mpu'' True s;
          (ok, s) = prefs_getBool ''ok'' False s;
          s = (if ok then
                 (let (v, s) = prefs_getFloat ''ax'' (accOffX s) s; s = s\<lparr>accOffX := v\<rparr>;
                      (v, s) = prefs_getFloat ''ay'' (accOffY s) s; s = s\<lparr>accOffY := v\<rparr>;
                      (v, s) = prefs_getFloat ''az'' (accOffZ s) s; s = s\<lparr>accOffZ := v\<rparr>;
                      (v, s) = prefs_getFloat ''gx'' (gyrOffX s) s; s = s\<lparr>gyrOffX := v\<rparr>;
                      (v, s) = prefs_getFloat ''gy'' (gyrOffY s) s; s = s\<lparr>gyrOffY := v\<rparr>;
                      (v, s) = prefs_getFloat ''gz'' (gyrOffZ s) s; s = s\<lparr>gyrOffZ := v\<rparr>
                  in s\<lparr>offsetsLoaded := True\<rparr>)
               else s)
      in prefs_end s)"

subsection \<open>Calibration by averaging\<close>

text \<open>The six \<^verbatim>\<open>double\<close> accumulators of \<^verbatim>\<open>doAveragingCalibration\<close>.\<close>

record accum =
  sAx :: fp
  sAy :: fp
  sAz :: fp
  sGx :: fp
  sGy :: fp
  sGz :: fp

text \<open>The six reference parameters \<^verbatim>\<open>doAveragingCalibration\<close> writes its results to.\<close>

record calib_out =
  out_accOffX :: fp
  out_accOffY :: fp
  out_accOffZ :: fp
  out_gyrOffX :: fp
  out_gyrOffY :: fp
  out_gyrOffZ :: fp

text \<open>
  The \<^verbatim>\<open>for\<close> loop, by the number of iterations it still has to make: one update of
  the sensor, six additions in \<^verbatim>\<open>double\<close>, one delay.
\<close>

fun calibration_loop :: "nat \<Rightarrow> ulong \<Rightarrow> accum \<Rightarrow> state \<Rightarrow> accum \<times> state" where
  "calibration_loop 0 sampleDelayMs acc s = (acc, s)"
| "calibration_loop (Suc n) sampleDelayMs acc s =
     (let s = mpu_update s;
          ax = Fin (getAccX (mpu_cur s));
          ay = Fin (getAccY (mpu_cur s));
          az = Fin (getAccZ (mpu_cur s));
          gx = Fin (getGyroX (mpu_cur s));
          gy = Fin (getGyroY (mpu_cur s));
          gz = Fin (getGyroZ (mpu_cur s));
          acc = \<lparr>sAx = dadd (sAx acc) ax, sAy = dadd (sAy acc) ay, sAz = dadd (sAz acc) az,
                 sGx = dadd (sGx acc) gx, sGy = dadd (sGy acc) gy, sGz = dadd (sGz acc) gz\<rparr>;
          s = delay sampleDelayMs s
      in calibration_loop n sampleDelayMs acc s)"

text \<open>
  \<open>samples\<close> is an \<^verbatim>\<open>unsigned int\<close>, 32 bits wide; the loop runs \<open>unat samples\<close> times.
  Each mean is the sum divided in \<^verbatim>\<open>double\<close> by the count and narrowed to \<^verbatim>\<open>float\<close>;
  the subtractions are \<^verbatim>\<open>float\<close> subtractions; \<^verbatim>\<open>fabs\<close> and the comparison with
  \<^verbatim>\<open>0.5f\<close> are exact.
\<close>

definition doAveragingCalibration :: "32 word \<Rightarrow> ulong \<Rightarrow> state \<Rightarrow> bool \<times> calib_out \<times> state" where
  "doAveragingCalibration samples sampleDelayMs s =
     (let s = delay 200 s;
          (acc, s) = calibration_loop (unat samples) sampleDelayMs
                       \<lparr>sAx = Fin 0, sAy = Fin 0, sAz = Fin 0,
                        sGx = Fin 0, sGy = Fin 0, sGz = Fin 0\<rparr> s;
          n = Fin (real (unat samples));
          meanAx = to_float (ddiv (sAx acc) n);
          meanAy = to_float (ddiv (sAy acc) n);
          meanAz = to_float (ddiv (sAz acc) n);
          meanGx = to_float (ddiv (sGx acc) n);
          meanGy = to_float (ddiv (sGy acc) n);
          meanGz = to_float (ddiv (sGz acc) n);
          out = \<lparr>out_accOffX = fsub meanAx (Fin 0),
                 out_accOffY = fsub meanAy (Fin 0),
                 out_accOffZ = fsub meanAz (Fin 1),
                 out_gyrOffX = meanGx,
                 out_gyrOffY = meanGy,
                 out_gyrOffZ = meanGz\<rparr>
      in if flt (xabs meanAz) (Fin (1 / 2)) then (False, out, s) else (True, out, s))"

subsection \<open>Reading the sensors\<close>

text \<open>
  All of \<^verbatim>\<open>readSensors\<close> is in \<^verbatim>\<open>float\<close>, each operation rounded on its own, except
  the division by \<^verbatim>\<open>PI\<close>, which is a \<^verbatim>\<open>double\<close>: the product with \<^verbatim>\<open>180.0f\<close> is
  widened, divided in \<^verbatim>\<open>double\<close> and the quotient narrowed to \<^verbatim>\<open>float\<close> by the
  assignment.
\<close>

definition readSensors :: "state \<Rightarrow> SensorReading \<times> state" where
  "readSensors s =
     (let ms = millis s;
          (t, p, a) = (if bmp_ok s
                       then (bmp_temperature s, fdiv (bmp_pressure s) (Fin 100), bmp_altitude s)
                       else (Fin 0, Fin 0, Fin 0));
          s = mpu_update s;
          rawAx = Fin (getAccX (mpu_cur s));
          rawAy = Fin (getAccY (mpu_cur s));
          rawAz = Fin (getAccZ (mpu_cur s));
          corrAx = fsub rawAx (accOffX s);
          corrAy = fsub rawAy (accOffY s);
          corrAz = fsub rawAz (accOffZ s);
          aX = to_float (ddiv (fmul (libm_atan2f s corrAy corrAz) (Fin 180)) PI);
          aY = to_float (ddiv (fmul (libm_atan2f s (xneg corrAx)
                                       (fsqrt (fadd (fmul corrAy corrAy) (fmul corrAz corrAz))))
                                    (Fin 180)) PI);
          aZ = Fin (getAngleZ (mpu_cur s))
      in (\<lparr>esp_ms = ms, temperature = t, pressure = p, altitude = a,
           angleX = aX, angleY = aY, angleZ = aZ,
           accX = corrAx, accY = corrAy, accZ = corrAz\<rparr>, s))"

subsection \<open>HTTP handlers\<close>

definition USE_BASIC_AUTH :: bool where
  "USE_BASIC_AUTH = True"

definition checkAuth :: "http_request \<Rightarrow> bool" where
  "checkAuth rq =
     (if \<not> USE_BASIC_AUTH then True
      else if \<not> hasAuthorization rq then False
      else authenticates rq)"

definition handleRoot :: "http_request \<Rightarrow> state \<Rightarrow> state" where
  "handleRoot rq s =
     (if \<not> checkAuth rq then server_send RequestAuthentication s
      else server_send (Send 200 ''text/html'' HtmlPage) s)"

definition handleData :: "http_request \<Rightarrow> state \<Rightarrow> state" where
  "handleData rq s =
     (if \<not> checkAuth rq then server_send RequestAuthentication s
      else
        (let (r, s) = readSensors s;
             json = [(''ESP_ms'', JULong (esp_ms r)),
                     (''Temperature_C'', JFloat (temperature r) 2),
                     (''Pressure_hPa'', JFloat (pressure r) 2),
                     (''Altitude_m'', JFloat (altitude r) 2),
                     (''AngleX'', JFloat (angleX r) 2),
                     (''AngleY'', JFloat (angleY r) 2),
                     (''AngleZ'', JFloat (angleZ r) 2),
                     (''AccX_g'', JFloat (accX r) 3),
                     (''AccY_g'', JFloat (accY r) 3),
                     (''AccZ_g'', JFloat (accZ r) 3)]
         in server_send (Send 200 ''application/json'' (JsonObject json)) s))"

definition handleCalibrate :: "http_request \<Rightarrow> state \<Rightarrow> state" where
  "handleCalibrate rq s =
     (if \<not> checkAuth rq then server_send RequestAuthentication s
      else
        (let s = Serial_println ''Calibration: keep MPU perfectly still and flat.'' s;
             (ok, out, s) = doAveragingCalibration 800 3 s
         in if \<not> ok then
              (let s = Serial_println
                         ''Calibration failed (sensor not stable or orientation unexpected).'' s
               in server_send (Send 200 ''application/json'' (JsonObject [(''ok'', JBool False)])) s)
            else
              (let s = s\<lparr>accOffX := out_accOffX out\<rparr>;
                   s = s\<lparr>accOffY := out_accOffY out\<rparr>;
                   s = s\<lparr>accOffZ := out_accOffZ out\<rparr>;
                   s = s\<lparr>gyrOffX := out_gyrOffX out\<rparr>;
                   s = s\<lparr>gyrOffY := out_gyrOffY out\<rparr>;
                   s = s\<lparr>gyrOffZ := out_gyrOffZ out\<rparr>;
                   s = saveOffsetsToPrefs s;
                   json = [(''ok'', JBool True),
                           (''accOffX'', JFloat (accOffX s) 6),
                           (''accOffY'', JFloat (accOffY s) 6),
                           (''accOffZ'', JFloat (accOffZ s) 6),
                           (''gyrOffX'', JFloat (gyrOffX s) 4),
                           (''gyrOffY'', JFloat (gyrOffY s) 4),
                           (''gyrOffZ'', JFloat (gyrOffZ s) 4)]
               in server_send (Send 200 ''application/json'' (JsonObject json)) s)))"

text \<open>
  \<^verbatim>\<open>server.handleClient()\<close> with the routes \<^verbatim>\<open>setup\<close> registers: at most one pending
  request is served by the handler of its path.
\<close>

definition handleClient :: "http_request option \<Rightarrow> state \<Rightarrow> state" where
  "handleClient pending s =
     (case pending of
        None \<Rightarrow> s
      | Some rq \<Rightarrow>
          if path rq = ''/'' then handleRoot rq s
          else if path rq = ''/data'' then handleData rq s
          else if path rq = ''/calibrate'' then handleCalibrate rq s
          else server_send NotFound s)"

subsection \<open>Display and IR alert\<close>

definition showIrAlert :: "state \<Rightarrow> state" where
  "showIrAlert s =
     lcd_write [SetCursor 0 0, PrintText ''IR Triggered    '',
                SetCursor 0 1, PrintText ''Alert !!!       ''] s"

definition updateLCD :: "SensorReading \<Rightarrow> state \<Rightarrow> state" where
  "updateLCD r s =
     lcd_write [SetCursor 0 0, PrintLine1 (temperature r) (altitude r),
                SetCursor 0 1, PrintLine2 (angleX r) (angleY r)] s"

definition restoreNormalDisplay :: "state \<Rightarrow> state" where
  "restoreNormalDisplay s =
     (let (r, s) = readSensors s
      in lcd_write [SetCursor 0 0, PrintLine1 (temperature r) (altitude r),
                    SetCursor 0 1, PrintLine2 (angleX r) (angleY r)] s)"

definition LCD_UPDATE_MS :: ulong where
  "LCD_UPDATE_MS = 1000"

text \<open>
  The last statements of \<^verbatim>\<open>setup\<close>: \<open>lastIrActive\<close> is initialised from the level of
  the IR pin (\<open>LOW\<close> means detected) and the display is drawn for it.
\<close>

definition setup_display :: "level \<Rightarrow> state \<Rightarrow> state" where
  "setup_display pin s =
     (let s = s\<lparr>lastIrActive := (pin = LOW)\<rparr>
      in if lastIrActive s then showIrAlert s else restoreNormalDisplay s)"

text \<open>
  One pass of \<^verbatim>\<open>loop\<close>, given the level \<^verbatim>\<open>digitalRead(IR_PIN)\<close> returns in it and
  the request \<^verbatim>\<open>server.handleClient()\<close> finds pending, if any. The pass is the sequence
  of its blocks: the update of the sensor, the block that reads the IR pin and updates
  the display on transitions (\<open>ir_transition\<close>), the HTTP clients, the periodic refresh
  of the display when there is no alert (\<open>periodic_refresh\<close>), and the final delay.
\<close>

definition ir_transition :: "level \<Rightarrow> state \<Rightarrow> state" where
  "ir_transition pin s =
     (let s = s\<lparr>irActive := (pin = LOW)\<rparr>
      in if irActive s \<noteq> lastIrActive s then
           (let s = (if irActive s
                     then Serial_println ''IR Detected - LCD showing alert'' (showIrAlert s)
                     else Serial_println ''IR cleared - LCD restored'' (restoreNormalDisplay s))
            in s\<lparr>lastIrActive := irActive s\<rparr>)
         else s)"

definition periodic_refresh :: "state \<Rightarrow> state" where
  "periodic_refresh s =
     (if \<not> irActive s \<and> millis s - lcd_last s > LCD_UPDATE_MS then
        (let (r, s) = readSensors s;
             s = updateLCD r s
         in s\<lparr>lcd_last := millis s\<rparr>)
      else s)"

definition loop :: "level \<Rightarrow> http_request option \<Rightarrow> state \<Rightarrow> state" where
  "loop pin pending s =
     (let s = mpu_update s;
          s = ir_transition pin s;
          s = handleClient pending s;
          s = periodic_refresh s
      in delay 20 s)"

text \<open>
  The globals as their initialisers set them, whatever the collaborators hold. The six
  offsets are written as the decimal numbers of the initialisers.
\<close>

definition power_on :: "state \<Rightarrow> state" where
  "power_on s =
     s\<lparr>accOffX := Fin (130075 / 1000000),
       accOffY := Fin (- (1063 / 1000000)),
       accOffZ := Fin (- (53148 / 1000000)),
       gyrOffX := Fin (34171 / 10000),
       gyrOffY := Fin (36740 / 10000),
       gyrOffZ := Fin (36400 / 10000),
       offsetsLoaded := False,
       bmp_ok := False,
       lcd_last := 0,
       lastIrActive := False,
       irActive := False\<rparr>"

subsection \<open>Notions of the specification\<close>

text \<open>
  The sequence of raw samples of a calibration run: the frames the sensor delivers to
  the next \<open>n\<close> updates.
\<close>

definition calibration_window :: "nat \<Rightarrow> state \<Rightarrow> mpu_frame list" where
  "calibration_window n s = map (mpu_feed s) [mpu_updates s..<mpu_updates s + n]"

definition arithmetic_mean :: "real list \<Rightarrow> real" where
  "arithmetic_mean xs = sum_list xs / real (length xs)"

text \<open>
  The mean as the sketch computes it: the samples added one by one in \<^verbatim>\<open>double\<close>,
  starting from \<open>0.0\<close>; the sum divided in \<^verbatim>\<open>double\<close> by the number of samples; the
  quotient narrowed to \<^verbatim>\<open>float\<close>.
\<close>

definition double_sum :: "real list \<Rightarrow> fp" where
  "double_sum xs = foldl (\<lambda>a x. dadd a (Fin x)) (Fin 0) xs"

definition float_mean :: "real list \<Rightarrow> fp" where
  "float_mean xs = to_float (ddiv (double_sum xs) (Fin (real (length xs))))"

text \<open>A real number that is a finite \<^verbatim>\<open>float\<close>: rounding leaves it as it is.\<close>

definition is_float :: "real \<Rightarrow> bool" where
  "is_float x = (to_float (Fin x) = Fin x)"

text \<open>A value that is finite and at most \<open>tol\<close> away from the real number \<open>y\<close>.\<close>

definition close_to :: "fp \<Rightarrow> real \<Rightarrow> real \<Rightarrow> bool" where
  "close_to v y tol = (case v of Fin r \<Rightarrow> \<bar>r - y\<bar> \<le> tol | _ \<Rightarrow> False)"

text \<open>
  An angle in radians, in degrees: the sketch's \<^verbatim>\<open>* 180.0f / PI\<close> on a \<^verbatim>\<open>float\<close>,
  assigned to a \<^verbatim>\<open>float\<close>.
\<close>

definition to_degrees :: "fp \<Rightarrow> fp" where
  "to_degrees a = to_float (ddiv (fmul a (Fin 180)) PI)"

text \<open>The active bias model: the six offset globals.\<close>

definition active_offsets :: "state \<Rightarrow> fp \<times> fp \<times> fp \<times> fp \<times> fp \<times> fp" where
  "active_offsets s = (accOffX s, accOffY s, accOffZ s, gyrOffX s, gyrOffY s, gyrOffZ s)"

definition returned_offsets :: "calib_out \<Rightarrow> fp \<times> fp \<times> fp \<times> fp \<times> fp \<times> fp" where
  "returned_offsets out =
     (out_accOffX out, out_accOffY out, out_accOffZ out,
      out_gyrOffX out, out_gyrOffY out, out_gyrOffZ out)"

text \<open>What a step from \<open>s\<close> to \<open>s'\<close> sent to the display and to the serial line.\<close>

definition lcd_added :: "state \<Rightarrow> state \<Rightarrow> lcd_op list" where
  "lcd_added s s' = drop (length (lcd s)) (lcd s')"

definition serial_added :: "state \<Rightarrow> state \<Rightarrow> string list" where
  "serial_added s s' = drop (length (serial s)) (serial s')"

text \<open>The two renders of the display arbiter and the transitions it reports.\<close>

definition alert_render :: "lcd_op list" where
  "alert_render = [SetCursor 0 0, PrintText ''IR Triggered    '',
                   SetCursor 0 1, PrintText ''Alert !!!       '']"

definition telemetry_render :: "SensorReading \<Rightarrow> lcd_op list" where
  "telemetry_render r = [SetCursor 0 0, PrintLine1 (temperature r) (altitude r),
                         SetCursor 0 1, PrintLine2 (angleX r) (angleY r)]"

text \<open>
  What the periodic refresh sends to the display from the state \<open>t\<close> it runs in: the
  telemetry when there is no alert and more than \<open>LCD_UPDATE_MS\<close> have passed since the
  last refresh, nothing otherwise.
\<close>

definition refresh_render :: "state \<Rightarrow> lcd_op list" where
  "refresh_render t =
     (if \<not> irActive t \<and> millis t - lcd_last t > LCD_UPDATE_MS
      then telemetry_render (fst (readSensors t)) else [])"

definition is_transition_report :: "string \<Rightarrow> bool" where
  "is_transition_report msg =
     (msg = ''IR Detected - LCD showing alert'' \<or> msg = ''IR cleared - LCD restored'')"

definition transitions_reported :: "state \<Rightarrow> state \<Rightarrow> string list" where
  "transitions_reported s s' = filter is_transition_report (serial_added s s')"

text \<open>The pin level of an alert input: asserted is \<open>LOW\<close>.\<close>

definition alert_input :: "bool \<Rightarrow> level" where
  "alert_input asserted = (if asserted then LOW else HIGH)"

text \<open>
  The passes of \<^verbatim>\<open>loop\<close> over a sequence of ticks, each with its alert input and
  pending request: the state before the first pass, then the state after each pass.
\<close>

fun run_loop :: "(bool \<times> http_request option) list \<Rightarrow> state \<Rightarrow> state list" where
  "run_loop [] s = [s]"
| "run_loop ((asserted, pending) # ticks) s =
     s # run_loop ticks (loop (alert_input asserted) pending s)"

text \<open>
  What each tick of a trace reported as transition and sent to the display: one entry
  per pass, from the state before it and the state after it.
\<close>

definition tick_transitions :: "state list \<Rightarrow> string list list" where
  "tick_transitions tr = map (\<lambda>(s, s'). transitions_reported s s') (zip tr (tl tr))"

definition tick_renders :: "state list \<Rightarrow> lcd_op list list" where
  "tick_renders tr = map (\<lambda>(s, s'). lcd_added s s') (zip tr (tl tr))"

subsection \<open>Example boards\<close>

text \<open>A sensor lying flat and still, and one standing on its side.\<close>

definition flat_frame :: mpu_frame where
  "flat_frame = \<lparr>getAccX = 0, getAccY = 0, getAccZ = 1,
                  getGyroX = 0, getGyroY = 0, getGyroZ = 0, getAngleZ = 0\<rparr>"

definition side_frame :: mpu_frame where
  "side_frame = \<lparr>getAccX = 1, getAccY = 0, getAccZ = 0,
                  getGyroX = 0, getGyroY = 0, getGyroZ = 0, getAngleZ = 0\<rparr>"

text \<open>
  A board after start-up with the built-in offsets, the BMP280 present, the sensor flat
  and still, and nothing stored yet.
\<close>

definition bench_flat :: state where
  "bench_flat =
     \<lparr>accOffX = Fin (130075 / 1000000),
      accOffY = Fin (- (1063 / 1000000)),
      accOffZ = Fin (- (53148 / 1000000)),
      gyrOffX = Fin (34171 / 10000),
      gyrOffY = Fin (36740 / 10000),
      gyrOffZ = Fin (36400 / 10000),
      offsetsLoaded = False,
      bmp_ok = True,
      lcd_last = 0,
      lastIrActive = False,
      irActive = False,
      mpu_feed = (\<lambda>k. flat_frame),
      mpu_updates = 0,
      mpu_cur = flat_frame,
      bmp_temperature = Fin 25,
      bmp_pressure = Fin 101325,
      bmp_altitude = Fin 0,
      clock = 0,
      libm_atan2f = atan2f_rn,
      prefs_open = None,
      nvs = Map.empty,
      nvs_log = [],
      lcd = [],
      serial = [],
      http_out = []\<rparr>"

definition bench_on_side :: state where
  "bench_on_side = bench_flat\<lparr>mpu_feed := (\<lambda>k. side_frame)\<rparr>"

text \<open>The same board without a BMP280, and with a BMP280 whose three readings are zero.\<close>

definition bench_no_bmp :: state where
  "bench_no_bmp = bench_flat\<lparr>bmp_ok := False\<rparr>"

definition bench_bmp_zero :: state where
  "bench_bmp_zero =
     bench_flat\<lparr>bmp_temperature := Fin 0, bmp_pressure := Fin 0, bmp_altitude := Fin 0\<rparr>"

text \<open>
  Boards on which rounding shows. On \<open>bench_one_ulp\<close> the first sample has \<open>accZ = 1\<close>
  and the others \<open>accZ = 1 + 2\<^sup>-\<^sup>2\<^sup>3\<close>, the next \<^verbatim>\<open>float\<close>. On \<open>bench_near_half\<close> the first
  sample has \<open>accZ = 0.49999997f\<close>, the \<^verbatim>\<open>float\<close> before \<open>0.5\<close>, and the others \<open>0.5\<close>.
  On \<open>bench_rounded_bias\<close> the Z offset is \<open>-0.053148f\<close> and the sensor reads \<open>accZ = 1\<close>.
\<close>

definition bench_one_ulp :: state where
  "bench_one_ulp =
     bench_flat\<lparr>mpu_feed :=
       (\<lambda>k. if k = 0 then flat_frame else flat_frame\<lparr>getAccZ := 1 + 1 / 8388608\<rparr>)\<rparr>"

definition bench_near_half :: state where
  "bench_near_half =
     bench_flat\<lparr>mpu_feed :=
       (\<lambda>k. if k = 0 then flat_frame\<lparr>getAccZ := 16777215 / 33554432\<rparr>
            else flat_frame\<lparr>getAccZ := 1 / 2\<rparr>)\<rparr>"

definition bench_rounded_bias :: state where
  "bench_rounded_bias = bench_flat\<lparr>accOffZ := Fin (- (1783351 / 33554432))\<rparr>"

definition authorized_calibrate :: http_request where
  "authorized_calibrate = \<lparr>path = ''/calibrate'', hasAuthorization = True, authenticates = True\<rparr>"

definition authorized_data :: http_request where
  "authorized_data = \<lparr>path = ''/data'', hasAuthorization = True, authenticates = True\<rparr>"

text \<open>
  The board of the specification's scenario, bias \<open>(0.13, -0.001, -0.053)\<close> and a sensor
  that reads \<open>(0.13, -0.001, 0.947)\<close>, each number being the \<^verbatim>\<open>float\<close> nearest to it.
\<close>

definition scenario_frame :: mpu_frame where
  "scenario_frame = \<lparr>getAccX = 1090519 / 8388608, getAccY = - (8589935 / 8589934592),
                      getAccZ = 1986003 / 2097152,
                      getGyroX = 0, getGyroY = 0, getGyroZ = 0, getAngleZ = 30\<rparr>"

definition scenario_board :: state where
  "scenario_board =
     bench_flat\<lparr>accOffX := Fin (1090519 / 8388608), accOffY := Fin (- (8589935 / 8589934592)),
                accOffZ := Fin (- (14227079 / 268435456)), mpu_feed := (\<lambda>k. scenario_frame)\<rparr>"

section \<open>Properties\<close>

subsection \<open>Rounding\<close>

text \<open>
  Rounding leaves a representable number as it is, commutes with negation, is monotone
  and moves a number by at most half a unit in the last place.
\<close>

lemma pow2_powr: "pow2 k = 2 powr (of_int k)"
proof (cases "0 \<le> k")
  case True
  then have "2 powr (of_int k) = (2::real) powr (real (nat k))" by simp
  also have "\<dots> = 2 ^ nat k" by (simp add: powr_realpow)
  finally show ?thesis using True by (simp add: pow2_def)
next
  case False
  then have "2 powr (of_int k) = (2::real) powr (- real (nat (- k)))" by simp
  also have "\<dots> = 1 / 2 ^ nat (- k)" by (simp add: powr_minus powr_realpow divide_inverse)
  finally show ?thesis using False by (simp add: pow2_def)
qed

lemma pow2_pos [simp]: "0 < pow2 k"
  by (simp add: pow2_powr)

lemma pow2_nonzero [simp]: "pow2 k \<noteq> 0"
  using pow2_pos [of k] by linarith

lemma pow2_add: "pow2 (a + b) = pow2 a * pow2 b"
  by (simp add: pow2_powr powr_add)

lemma pow2_diff: "pow2 (a - b) = pow2 a / pow2 b"
  by (simp add: pow2_powr powr_diff)

lemma pow2_mono: "a \<le> b \<Longrightarrow> pow2 a \<le> pow2 b"
  by (simp add: pow2_powr)

lemma pow2_less_iff: "pow2 a < pow2 b \<longleftrightarrow> a < b"
  by (simp add: pow2_powr)

lemma pow2_nat: "0 \<le> k \<Longrightarrow> pow2 k = of_int (2 ^ nat k)"
  by (simp add: pow2_def)

lemma pow2_int: "pow2 (int n) = 2 ^ n"
  by (simp add: pow2_def)

lemma rne_of_int [simp]: "rne (of_int k) = k"
  by (simp add: rne_def)

lemma rne_bounds: "real_of_int (rne x) - 1 / 2 \<le> x \<and> x \<le> real_of_int (rne x) + 1 / 2"
proof -
  have f: "of_int \<lfloor>x\<rfloor> \<le> x" "x < of_int \<lfloor>x\<rfloor> + 1"
    by linarith+
  consider "x - of_int \<lfloor>x\<rfloor> < 1 / 2" | "1 / 2 < x - of_int \<lfloor>x\<rfloor>" | "x - of_int \<lfloor>x\<rfloor> = 1 / 2"
    by linarith
  then show ?thesis
  proof cases
    case 1
    then have r: "rne x = \<lfloor>x\<rfloor>" by (simp add: rne_def)
    show ?thesis unfolding r using 1 f by linarith
  next
    case 2
    then have r: "rne x = \<lfloor>x\<rfloor> + 1" by (simp add: rne_def)
    show ?thesis unfolding r using 2 f by simp linarith
  next
    case 3
    then have "rne x = \<lfloor>x\<rfloor> \<or> rne x = \<lfloor>x\<rfloor> + 1" by (simp add: rne_def Let_def)
    then show ?thesis
    proof
      assume r: "rne x = \<lfloor>x\<rfloor>"
      show ?thesis unfolding r using 3 f by linarith
    next
      assume r: "rne x = \<lfloor>x\<rfloor> + 1"
      show ?thesis unfolding r using 3 f by simp
    qed
  qed
qed

lemma rne_mono:
  assumes "x \<le> y"
  shows "rne x \<le> rne y"
proof (rule ccontr)
  assume "\<not> rne x \<le> rne y"
  then have lt: "rne y + 1 \<le> rne x" by simp
  then have lt': "real_of_int (rne y) + 1 \<le> real_of_int (rne x)"
    by linarith
  have bx: "real_of_int (rne x) - 1 / 2 \<le> x" and by': "y \<le> real_of_int (rne y) + 1 / 2"
    using rne_bounds [of x] rne_bounds [of y] by simp_all
  have "y = x" using bx by' lt' assms by linarith
  then have "rne x = rne y" by simp
  with lt show False by simp
qed

lemma rne_minus: "rne (- x) = - rne x"
proof (cases "x = of_int \<lfloor>x\<rfloor>")
  case True
  then obtain k :: int where k: "x = of_int k" by blast
  have "rne (- x) = rne (of_int (- k))" by (simp add: k)
  also have "\<dots> = - k" by (simp only: rne_of_int)
  finally show ?thesis by (simp add: k)
next
  case False
  then have fl: "\<lfloor>- x\<rfloor> = - \<lfloor>x\<rfloor> - 1"
    by (simp add: floor_minus ceiling_altdef)
  have f: "of_int \<lfloor>x\<rfloor> \<le> x" "x < of_int \<lfloor>x\<rfloor> + 1"
    by linarith+
  consider "x - of_int \<lfloor>x\<rfloor> < 1 / 2" | "1 / 2 < x - of_int \<lfloor>x\<rfloor>" | "x - of_int \<lfloor>x\<rfloor> = 1 / 2"
    by linarith
  then show ?thesis
  proof cases
    case 1
    then have "rne x = \<lfloor>x\<rfloor>" by (simp add: rne_def)
    moreover from 1 have "rne (- x) = \<lfloor>- x\<rfloor> + 1"
      by (simp add: rne_def fl)
    ultimately show ?thesis by (simp add: fl)
  next
    case 2
    then have "rne x = \<lfloor>x\<rfloor> + 1" by (simp add: rne_def)
    moreover from 2 have "rne (- x) = \<lfloor>- x\<rfloor>"
      by (simp add: rne_def fl)
    ultimately show ?thesis by (simp add: fl)
  next
    case 3
    then have a: "rne x = (if even \<lfloor>x\<rfloor> then \<lfloor>x\<rfloor> else \<lfloor>x\<rfloor> + 1)"
      by (simp add: rne_def Let_def)
    from 3 have "- x - of_int \<lfloor>- x\<rfloor> = 1 / 2"
      by (simp add: fl)
    then have b: "rne (- x) = (if even \<lfloor>- x\<rfloor> then \<lfloor>- x\<rfloor> else \<lfloor>- x\<rfloor> + 1)"
      by (simp add: rne_def Let_def)
    show ?thesis
      by (simp add: a b fl)
  qed
qed


lemma pow2_neg: "0 \<le> k \<Longrightarrow> pow2 (- k) = 1 / 2 ^ nat k"
  by (cases "k = 0") (simp_all add: pow2_def)

lemma bitlen_pos: "0 < n \<Longrightarrow> 1 \<le> bitlen n"
  using bitlen_eq_zero_iff [of n] bitlen_nonneg [of n] by linarith

lemma binade_bounds:
  assumes "x \<noteq> 0"
  shows "pow2 (binade x) \<le> \<bar>x\<bar>" and "\<bar>x\<bar> < pow2 (binade x + 1)"
proof -
  have "pow2 (binade x) \<le> \<bar>x\<bar> \<and> \<bar>x\<bar> < pow2 (binade x + 1)"
  proof (cases "1 \<le> \<bar>x\<bar>")
    case True
    define n where "n = \<lfloor>\<bar>x\<bar>\<rfloor>"
    define b where "b = bitlen n"
    have n: "0 < n" using True by (simp add: n_def)
    have b: "1 \<le> b" using bitlen_pos [OF n] by (simp add: b_def)
    have e: "binade x = b - 1" using True by (simp add: binade_def n_def b_def)
    have bb: "2 ^ nat (b - 1) \<le> n" "n < 2 ^ nat b"
      using bitlen_bounds [OF n] by (simp_all add: b_def)
    have "real_of_int (2 ^ nat (b - 1)) \<le> real_of_int n"
      using bb(1) by (simp only: of_int_le_iff)
    then have "2 ^ nat (b - 1) \<le> real_of_int n" by simp
    moreover have "real_of_int n \<le> \<bar>x\<bar>" by (simp add: n_def)
    ultimately have "2 ^ nat (b - 1) \<le> \<bar>x\<bar>" by linarith
    then have lo: "pow2 (b - 1) \<le> \<bar>x\<bar>"
      using b by (simp add: pow2_def)
    have "n + 1 \<le> 2 ^ nat b" using bb(2) by simp
    then have "real_of_int (n + 1) \<le> real_of_int (2 ^ nat b)"
      by (simp only: of_int_le_iff)
    then have "real_of_int n + 1 \<le> 2 ^ nat b" by simp
    moreover have "\<bar>x\<bar> < real_of_int n + 1" by (simp add: n_def)
    ultimately have "\<bar>x\<bar> < 2 ^ nat b" by linarith
    then have hi: "\<bar>x\<bar> < pow2 (b - 1 + 1)"
      using b by (simp add: pow2_def)
    show ?thesis using lo hi by (simp only: e) 
  next
    case False
    define y where "y = 1 / \<bar>x\<bar>"
    define m where "m = \<lceil>y\<rceil>"
    define c where "c = bitlen (m - 1)"
    have x: "0 < \<bar>x\<bar>" "\<bar>x\<bar> < 1" using assms False by simp_all
    have y: "1 < y" using x by (simp add: y_def)
    have m: "0 < m - 1" using y by (simp add: m_def)
    have c: "1 \<le> c" using bitlen_pos [OF m] by (simp add: c_def)
    have e: "binade x = - c" using False by (simp add: binade_def y_def m_def c_def)
    have cb: "2 ^ nat (c - 1) \<le> m - 1" "m - 1 < 2 ^ nat c"
      using bitlen_bounds [OF m] by (simp_all add: c_def)
    have "m \<le> 2 ^ nat c" using cb(2) by simp
    then have "real_of_int m \<le> real_of_int (2 ^ nat c)"
      by (simp only: of_int_le_iff)
    then have "real_of_int m \<le> 2 ^ nat c" by simp
    moreover have "y \<le> real_of_int m" by (simp add: m_def)
    ultimately have "y \<le> 2 ^ nat c" by linarith
    then have "1 \<le> 2 ^ nat c * \<bar>x\<bar>"
      using x(1) by (simp add: y_def pos_divide_le_eq)
    then have lo: "pow2 (- c) \<le> \<bar>x\<bar>"
      using c by (simp add: pow2_neg pos_divide_le_eq mult.commute)
    have "real_of_int (2 ^ nat (c - 1)) \<le> real_of_int (m - 1)"
      using cb(1) by (simp only: of_int_le_iff)
    then have "2 ^ nat (c - 1) \<le> real_of_int m - 1" by simp
    moreover have "real_of_int m - 1 < y" unfolding m_def by linarith
    ultimately have "2 ^ nat (c - 1) < y" by linarith
    then have "2 ^ nat (c - 1) * \<bar>x\<bar> < 1"
      using x(1) by (simp add: y_def pos_less_divide_eq)
    moreover have "pow2 (- c + 1) = 1 / 2 ^ nat (c - 1)"
      using pow2_neg [of "c - 1"] c by simp
    ultimately have hi: "\<bar>x\<bar> < pow2 (- c + 1)"
      by (simp add: pos_less_divide_eq mult.commute)
    show ?thesis using lo hi by (simp only: e)
  qed
  then show "pow2 (binade x) \<le> \<bar>x\<bar>" and "\<bar>x\<bar> < pow2 (binade x + 1)"
    by simp_all
qed

lemma binade_iff:
  assumes "x \<noteq> 0"
  shows "binade x = k \<longleftrightarrow> pow2 k \<le> \<bar>x\<bar> \<and> \<bar>x\<bar> < pow2 (k + 1)"
proof
  assume "binade x = k"
  then show "pow2 k \<le> \<bar>x\<bar> \<and> \<bar>x\<bar> < pow2 (k + 1)"
    using binade_bounds [OF assms] by auto
next
  assume k: "pow2 k \<le> \<bar>x\<bar> \<and> \<bar>x\<bar> < pow2 (k + 1)"
  have "pow2 k < pow2 (binade x + 1)"
    using k binade_bounds(2) [OF assms] by linarith
  moreover have "pow2 (binade x) < pow2 (k + 1)"
    using k binade_bounds(1) [OF assms] by linarith
  ultimately show "binade x = k"
    by (simp add: pow2_less_iff)
qed

lemma binade_minus [simp]: "binade (- x) = binade x"
  by (simp add: binade_def)

lemma binade_less:
  assumes "x \<noteq> 0" and "\<bar>x\<bar> < pow2 k"
  shows "binade x < k"
proof (rule ccontr)
  assume "\<not> binade x < k"
  then have "pow2 k \<le> pow2 (binade x)" by (simp add: pow2_mono)
  with binade_bounds(1) [OF assms(1)] assms(2) show False by simp
qed

lemma binade_mono:
  assumes "x \<noteq> 0" and "\<bar>x\<bar> \<le> \<bar>y\<bar>"
  shows "binade x \<le> binade y"
proof -
  have y: "y \<noteq> 0" using assms by auto
  have "pow2 (binade x) < pow2 (binade y + 1)"
    using binade_bounds(1) [OF assms(1)] binade_bounds(2) [OF y] assms(2) by linarith
  then show ?thesis by (simp add: pow2_less_iff)
qed

lemma round_real_0 [simp]: "round_real p emin 0 = 0"
  by (simp add: round_real_def)

lemma round_real_eval:
  assumes "x \<noteq> 0" and "pow2 k \<le> \<bar>x\<bar>" and "\<bar>x\<bar> < pow2 (k + 1)"
  shows "round_real p emin x =
           of_int (rne (x / pow2 (max k emin - (int p - 1)))) * pow2 (max k emin - (int p - 1))"
proof -
  have "binade x = k" using binade_iff [OF assms(1)] assms(2,3) by simp
  then show ?thesis using assms(1) by (simp add: round_real_def Let_def)
qed

lemma round_real_minus: "round_real p emin (- x) = - round_real p emin x"
  by (simp add: round_real_def Let_def rne_minus)

lemma round_real_exact:
  assumes "x = of_int m * pow2 j" and "\<bar>m\<bar> < 2 ^ p" and "emin - (int p - 1) \<le> j"
  shows "round_real p emin x = x"
proof (cases "x = 0")
  case True
  then show ?thesis by simp
next
  case False
  define ue where "ue = max (binade x) emin - (int p - 1)"
  have "\<bar>x\<bar> = of_int \<bar>m\<bar> * pow2 j"
    by (simp add: assms(1) abs_mult abs_of_pos)
  also have "\<dots> < 2 ^ p * pow2 j"
  proof -
    have "real_of_int \<bar>m\<bar> < real_of_int (2 ^ p)"
      using assms(2) by (simp only: of_int_less_iff)
    then show ?thesis by simp
  qed
  also have "\<dots> = pow2 (int p + j)"
    by (simp add: pow2_add pow2_int)
  finally have "binade x < int p + j"
    by (rule binade_less [OF False])
  then have le: "ue \<le> j"
    using assms(3) by (simp add: ue_def)
  then have "pow2 j = pow2 (j - ue) * pow2 ue"
    by (simp flip: pow2_add)
  also have "pow2 (j - ue) = of_int (2 ^ nat (j - ue))"
    using le by (simp add: pow2_def)
  finally have "x / pow2 ue = of_int (m * 2 ^ nat (j - ue))"
    by (simp add: assms(1))
  then have "of_int (rne (x / pow2 ue)) * pow2 ue = x"
    by (simp only: rne_of_int) (simp add: field_simps)
  then show ?thesis
    using False by (simp add: round_real_def Let_def ue_def)
qed


lemma rne_nonneg: "0 \<le> x \<Longrightarrow> 0 \<le> rne x"
  using rne_mono [of 0 x] rne_of_int [of 0] by simp

lemma pow2_nonneg [simp]: "0 \<le> pow2 k"
  using pow2_pos [of k] by linarith

lemma div_pow2_mono: "x \<le> y \<Longrightarrow> x / pow2 k \<le> y / pow2 k"
  by (rule divide_right_mono) simp_all

lemma round_real_nonneg:
  assumes "0 \<le> x"
  shows "0 \<le> round_real p emin x"
proof -
  have "0 \<le> rne (x / pow2 k)" for k
    using assms by (intro rne_nonneg) simp
  then show ?thesis
    by (simp add: round_real_def Let_def)
qed

lemma round_real_mono_pos:
  assumes "0 < x" and "x \<le> y" and "0 < p"
  shows "round_real p emin x \<le> round_real p emin y"
proof -
  define ex where "ex = max (binade x) emin"
  define ey where "ey = max (binade y) emin"
  have x0: "x \<noteq> 0" and y0: "y \<noteq> 0" and ypos: "0 < y"
    using assms by auto
  have rx: "round_real p emin x = of_int (rne (x / pow2 (ex - (int p - 1)))) * pow2 (ex - (int p - 1))"
    using x0 by (simp add: round_real_def Let_def ex_def)
  have ry: "round_real p emin y = of_int (rne (y / pow2 (ey - (int p - 1)))) * pow2 (ey - (int p - 1))"
    using y0 by (simp add: round_real_def Let_def ey_def)
  have "binade x \<le> binade y"
    using assms by (intro binade_mono) auto
  then have le: "ex \<le> ey"
    by (simp add: ex_def ey_def)
  show ?thesis
  proof (cases "ex = ey")
    case True
    have "x / pow2 (ey - (int p - 1)) \<le> y / pow2 (ey - (int p - 1))"
      using assms(2) by (rule div_pow2_mono)
    then have "rne (x / pow2 (ey - (int p - 1))) \<le> rne (y / pow2 (ey - (int p - 1)))"
      by (rule rne_mono)
    then show ?thesis
      by (simp add: rx ry True)
  next
    case False
    with le have lt: "ex < ey" by simp
    have "x < pow2 (binade x + 1)"
      using binade_bounds(2) [OF x0] assms(1) by simp
    also have "\<dots> \<le> pow2 (ex + 1)"
      by (rule pow2_mono) (simp add: ex_def)
    finally have "x / pow2 (ex - (int p - 1)) \<le> pow2 (ex + 1) / pow2 (ex - (int p - 1))"
      by (intro div_pow2_mono) simp
    also have "\<dots> = pow2 (int p)"
      by (simp flip: pow2_diff)
    also have "\<dots> = of_int (2 ^ p)"
      by (simp add: pow2_int)
    finally have "rne (x / pow2 (ex - (int p - 1))) \<le> rne (of_int (2 ^ p))"
      by (rule rne_mono)
    then have "real_of_int (rne (x / pow2 (ex - (int p - 1)))) \<le> 2 ^ p"
      by (simp only: rne_of_int) (metis of_int_le_iff of_int_numeral of_int_power)
    then have "round_real p emin x \<le> 2 ^ p * pow2 (ex - (int p - 1))"
      by (simp add: rx)
    also have "\<dots> = pow2 (int p + (ex - (int p - 1)))"
      by (simp only: pow2_add pow2_int)
    also have "\<dots> = pow2 (ex + 1)"
      by (simp add: algebra_simps)
    also have "\<dots> \<le> pow2 ey"
      using lt by (intro pow2_mono) simp
    finally have a: "round_real p emin x \<le> pow2 ey" .
    have "emin < ey" using lt by (simp add: ex_def)
    then have "ey = binade y" by (simp add: ey_def max_def split: if_splits)
    then have "pow2 ey \<le> y"
      using binade_bounds(1) [OF y0] ypos by simp
    then have "pow2 ey / pow2 (ey - (int p - 1)) \<le> y / pow2 (ey - (int p - 1))"
      by (rule div_pow2_mono)
    moreover have "pow2 ey / pow2 (ey - (int p - 1)) = pow2 (int (p - 1))"
      using assms(3) by (simp flip: pow2_diff)
    moreover have "pow2 (int (p - 1)) = of_int (2 ^ (p - 1))"
      by (simp add: pow2_int)
    ultimately have "rne (of_int (2 ^ (p - 1))) \<le> rne (y / pow2 (ey - (int p - 1)))"
      by (intro rne_mono) simp
    then have "2 ^ (p - 1) \<le> real_of_int (rne (y / pow2 (ey - (int p - 1))))"
      by (simp only: rne_of_int) (metis of_int_le_iff of_int_numeral of_int_power)
    then have "2 ^ (p - 1) * pow2 (ey - (int p - 1)) \<le> round_real p emin y"
      by (simp add: ry)
    moreover have "2 ^ (p - 1) * pow2 (ey - (int p - 1)) = pow2 (int (p - 1) + (ey - (int p - 1)))"
      by (simp only: pow2_add pow2_int)
    moreover have "int (p - 1) + (ey - (int p - 1)) = ey"
      using assms(3) by simp
    ultimately have b: "pow2 ey \<le> round_real p emin y"
      by simp
    from a b show ?thesis by linarith
  qed
qed

lemma round_real_mono:
  assumes "x \<le> y" and "0 < p"
  shows "round_real p emin x \<le> round_real p emin y"
proof -
  consider "0 < x" | "x \<le> 0" "0 \<le> y" | "y < 0"
    using assms(1) by linarith
  then show ?thesis
  proof cases
    case 1
    then show ?thesis by (rule round_real_mono_pos [OF _ assms])
  next
    case 2
    have "0 \<le> round_real p emin (- x)"
      using 2(1) by (intro round_real_nonneg) simp
    then have "round_real p emin x \<le> 0"
      by (simp add: round_real_minus)
    moreover have "0 \<le> round_real p emin y"
      using 2(2) by (rule round_real_nonneg)
    ultimately show ?thesis by linarith
  next
    case 3
    have "round_real p emin (- y) \<le> round_real p emin (- x)"
      using 3 assms by (intro round_real_mono_pos) simp_all
    then show ?thesis
      by (simp add: round_real_minus)
  qed
qed

lemma round_fp_Fin:
  "\<bar>round_real p emin x\<bar> < pow2 (emax + 1) \<Longrightarrow>
   round_fp p emin emax (Fin x) = Fin (round_real p emin x)"
  by (simp add: Let_def)

lemma round_real_abs_le:
  assumes "\<bar>x\<bar> \<le> b" and "round_real p emin b = b" and "0 < p"
  shows "\<bar>round_real p emin x\<bar> \<le> b"
proof -
  have "round_real p emin x \<le> round_real p emin b"
    using assms(1,3) by (intro round_real_mono) simp_all
  moreover have "round_real p emin (- b) \<le> round_real p emin x"
    using assms(1,3) by (intro round_real_mono) simp_all
  ultimately show ?thesis
    using assms(2) by (simp add: round_real_minus abs_le_iff)
qed

lemma to_double_bounded:
  assumes "\<bar>x\<bar> \<le> b" and "round_real 53 (- 1022) b = b" and "b < 2 ^ 1024"
  shows "\<exists>r. to_double (Fin x) = Fin r \<and> \<bar>r\<bar> \<le> b"
proof -
  have r: "\<bar>round_real 53 (- 1022) x\<bar> \<le> b"
    using assms(1,2) by (rule round_real_abs_le) simp
  have "pow2 (1023 + 1) = 2 ^ 1024" by (simp add: pow2_def)
  with r assms(3) have "\<bar>round_real 53 (- 1022) x\<bar> < pow2 (1023 + 1)" by linarith
  then have "to_double (Fin x) = Fin (round_real 53 (- 1022) x)"
    unfolding to_double_def by (rule round_fp_Fin)
  with r show ?thesis by blast
qed

lemma to_float_bounded:
  assumes "\<bar>x\<bar> \<le> b" and "round_real 24 (- 126) b = b" and "b < 2 ^ 128"
  shows "\<exists>r. to_float (Fin x) = Fin r \<and> \<bar>r\<bar> \<le> b"
proof -
  have r: "\<bar>round_real 24 (- 126) x\<bar> \<le> b"
    using assms(1,2) by (rule round_real_abs_le) simp
  have "pow2 (127 + 1) = 2 ^ 128" by (simp add: pow2_def)
  with r assms(3) have "\<bar>round_real 24 (- 126) x\<bar> < pow2 (127 + 1)" by linarith
  then have "to_float (Fin x) = Fin (round_real 24 (- 126) x)"
    unfolding to_float_def by (rule round_fp_Fin)
  with r show ?thesis by blast
qed

lemma to_double_exact:
  assumes "x = of_int m * pow2 j" and "\<bar>m\<bar> < 2 ^ 53" and "- 1074 \<le> j" and "\<bar>x\<bar> < 2 ^ 1024"
  shows "to_double (Fin x) = Fin x"
proof -
  have r: "round_real 53 (- 1022) x = x"
    using assms(1,2) by (rule round_real_exact) (use assms(3) in simp)
  have "pow2 (1023 + 1) = 2 ^ 1024" by (simp add: pow2_def)
  with assms(4) have "\<bar>round_real 53 (- 1022) x\<bar> < pow2 (1023 + 1)" by (simp add: r)
  then show ?thesis
    unfolding to_double_def by (simp only: round_fp_Fin r)
qed

lemma to_float_exact:
  assumes "x = of_int m * pow2 j" and "\<bar>m\<bar> < 2 ^ 24" and "- 149 \<le> j" and "\<bar>x\<bar> < 2 ^ 128"
  shows "to_float (Fin x) = Fin x"
proof -
  have r: "round_real 24 (- 126) x = x"
    using assms(1,2) by (rule round_real_exact) (use assms(3) in simp)
  have "pow2 (127 + 1) = 2 ^ 128" by (simp add: pow2_def)
  with assms(4) have "\<bar>round_real 24 (- 126) x\<bar> < pow2 (127 + 1)" by (simp add: r)
  then show ?thesis
    unfolding to_float_def by (simp only: round_fp_Fin r)
qed

lemma to_float_int:
  assumes "\<bar>m\<bar> < 2 ^ 24"
  shows "to_float (Fin (of_int m)) = Fin (of_int m)"
proof (rule to_float_exact [where m = m and j = 0])
  show "real_of_int m = real_of_int m * pow2 0" by (simp add: pow2_def)
  show "\<bar>m\<bar> < 2 ^ 24" by (rule assms)
  show "- 149 \<le> (0::int)" by simp
  have "real_of_int \<bar>m\<bar> < real_of_int (2 ^ 24)"
    using assms by (simp only: of_int_less_iff)
  then show "\<bar>real_of_int m\<bar> < 2 ^ 128" by simp
qed

lemma to_float_0 [simp]: "to_float (Fin 0) = Fin 0"
  by (simp add: to_float_def Let_def not_le)

lemma to_double_0 [simp]: "to_double (Fin 0) = Fin 0"
  by (simp add: to_double_def Let_def not_le)

lemma to_float_1 [simp]: "to_float (Fin 1) = Fin 1"
  using to_float_int [of 1] by simp

lemma to_float_special [simp]:
  "to_float NaN = NaN" "to_float PInf = PInf" "to_float NInf = NInf"
  by (simp_all add: to_float_def)

lemma to_double_special [simp]:
  "to_double NaN = NaN" "to_double PInf = PInf" "to_double NInf = NInf"
  by (simp_all add: to_double_def)

lemma pow2_le_1: "j \<le> 0 \<Longrightarrow> pow2 j \<le> 1"
  using pow2_mono [of j 0] by (simp add: pow2_def)

lemma grid_bound:
  assumes "\<bar>m\<bar> < 2 ^ 53" and "j \<le> 0"
  shows "\<bar>real_of_int m * pow2 j\<bar> < 2 ^ 1024"
proof -
  have "real_of_int \<bar>m\<bar> < real_of_int (2 ^ 53)"
    using assms(1) by (simp only: of_int_less_iff)
  then have m: "\<bar>real_of_int m\<bar> < 2 ^ 53" by simp
  have "\<bar>real_of_int m * pow2 j\<bar> = \<bar>real_of_int m\<bar> * pow2 j"
    by (simp add: abs_mult abs_of_pos)
  also have "\<dots> \<le> \<bar>real_of_int m\<bar> * 1"
    by (intro mult_left_mono pow2_le_1 assms(2)) simp
  also have "\<dots> < 2 ^ 53" using m by simp
  also have "(2::real) ^ 53 \<le> 2 ^ 1024" by (intro power_increasing) simp_all
  finally show ?thesis .
qed

lemma pow2_shift: "pow2 (int e - int d) = 2 ^ e / 2 ^ d"
  by (simp add: pow2_diff pow2_int)

lemma to_float_Fin_iff:
  "to_float (Fin x) = Fin c \<longleftrightarrow> round_real 24 (- 126) x = c \<and> \<bar>c\<bar> < pow2 128"
  by (auto simp add: to_float_def Let_def not_le)

lemma to_double_Fin_iff:
  "to_double (Fin x) = Fin c \<longleftrightarrow> round_real 53 (- 1022) x = c \<and> \<bar>c\<bar> < pow2 1024"
  by (auto simp add: to_double_def Let_def not_le)

lemma to_float_squeeze:
  assumes "a \<le> x" and "x \<le> b" and "to_float (Fin a) = Fin c" and "to_float (Fin b) = Fin c"
  shows "to_float (Fin x) = Fin c"
proof -
  have "round_real 24 (- 126) a \<le> round_real 24 (- 126) x"
    using assms(1) by (rule round_real_mono) simp
  moreover have "round_real 24 (- 126) x \<le> round_real 24 (- 126) b"
    using assms(2) by (rule round_real_mono) simp
  ultimately show ?thesis
    using assms(3,4) by (simp add: to_float_Fin_iff)
qed

lemma to_double_between:
  assumes "a \<le> x" and "x \<le> b" and "to_double (Fin a) = Fin a" and "to_double (Fin b) = Fin b"
  shows "\<exists>r. to_double (Fin x) = Fin r \<and> a \<le> r \<and> r \<le> b"
proof -
  have a: "round_real 53 (- 1022) a = a" "\<bar>a\<bar> < pow2 1024"
    using assms(3) by (simp_all add: to_double_Fin_iff)
  have b: "round_real 53 (- 1022) b = b" "\<bar>b\<bar> < pow2 1024"
    using assms(4) by (simp_all add: to_double_Fin_iff)
  have "round_real 53 (- 1022) a \<le> round_real 53 (- 1022) x"
    using assms(1) by (rule round_real_mono) simp
  moreover have "round_real 53 (- 1022) x \<le> round_real 53 (- 1022) b"
    using assms(2) by (rule round_real_mono) simp
  ultimately have r: "a \<le> round_real 53 (- 1022) x" "round_real 53 (- 1022) x \<le> b"
    by (simp_all add: a(1) b(1))
  then have "\<bar>round_real 53 (- 1022) x\<bar> < pow2 1024"
    using a(2) b(2) by linarith
  then have "to_double (Fin x) = Fin (round_real 53 (- 1022) x)"
    by (simp add: to_double_Fin_iff)
  with r show ?thesis by blast
qed

lemma to_double_1 [simp]: "to_double (Fin 1) = Fin 1"
  by (rule to_double_exact [where m = 1 and j = 0]) (simp_all add: pow2_def)

lemma to_float_eval:
  assumes "x \<noteq> 0" and "pow2 k \<le> \<bar>x\<bar>" and "\<bar>x\<bar> < pow2 (k + 1)" and "- 126 \<le> k"
    and "of_int (rne (x / pow2 (k - 23))) * pow2 (k - 23) = r" and "\<bar>r\<bar> < pow2 128"
  shows "to_float (Fin x) = Fin r"
proof -
  have "round_real 24 (- 126) x = r"
    using round_real_eval [OF assms(1,2,3), of 24 "- 126"] assms(4,5) by (simp add: max_def)
  then show ?thesis
    using assms(6) by (simp add: to_float_Fin_iff)
qed

lemma round_real_error:
  "\<bar>round_real p emin x - x\<bar> \<le> pow2 (max (binade x) emin - (int p - 1)) / 2"
proof (cases "x = 0")
  case True
  then show ?thesis by simp
next
  case False
  define u where "u = pow2 (max (binade x) emin - (int p - 1))"
  have u: "0 < u" by (simp add: u_def)
  have r: "round_real p emin x = of_int (rne (x / u)) * u"
    using False by (simp add: round_real_def Let_def u_def)
  have "\<bar>of_int (rne (x / u)) - x / u\<bar> \<le> 1 / 2"
    using rne_bounds [of "x / u"] by linarith
  then have e1: "\<bar>of_int (rne (x / u)) - x / u\<bar> * u \<le> 1 / 2 * u"
    using u by (intro mult_right_mono) simp_all
  have e2: "\<bar>of_int (rne (x / u)) - x / u\<bar> * u = \<bar>of_int (rne (x / u)) * u - x\<bar>"
  proof -
    have "(of_int (rne (x / u)) - x / u) * u = of_int (rne (x / u)) * u - x"
      using u by (simp add: algebra_simps)
    then have "\<bar>of_int (rne (x / u)) * u - x\<bar> = \<bar>of_int (rne (x / u)) - x / u\<bar> * \<bar>u\<bar>"
      by (simp only: abs_mult [symmetric])
    then show ?thesis using u by simp
  qed
  show ?thesis
    unfolding r u_def [symmetric] using e1 e2 by linarith
qed

lemma round_real_error_below:
  assumes "\<bar>x\<bar> < pow2 (e + 1)" and "emin \<le> e"
  shows "\<bar>round_real p emin x - x\<bar> \<le> pow2 (e - int p)"
proof (cases "x = 0")
  case True
  then show ?thesis by simp
next
  case False
  have "binade x < e + 1"
    using False assms(1) by (rule binade_less)
  then have "max (binade x) emin - (int p - 1) \<le> e - (int p - 1)"
    using assms(2) by simp
  then have "pow2 (max (binade x) emin - (int p - 1)) \<le> pow2 (e - (int p - 1))"
    by (rule pow2_mono)
  moreover have "pow2 (e - (int p - 1)) = 2 * pow2 (e - int p)"
    using pow2_add [of 1 "e - int p"] by (simp add: pow2_def algebra_simps)
  ultimately show ?thesis
    using round_real_error [of p emin x] by simp
qed

lemma to_double_close:
  assumes "\<bar>x\<bar> \<le> b" and "round_real 53 (- 1022) b = b" and "b < pow2 (e + 1)"
    and "- 1022 \<le> e" and "e \<le> 1023"
  shows "\<exists>r. to_double (Fin x) = Fin r \<and> \<bar>r\<bar> \<le> b \<and> \<bar>r - x\<bar> \<le> pow2 (e - 53)"
proof -
  have "pow2 (e + 1) \<le> pow2 1024"
    using assms(5) by (intro pow2_mono) simp
  then have "b < 2 ^ 1024"
    using assms(3) by (simp add: pow2_def)
  with assms(1,2) obtain r where r: "to_double (Fin x) = Fin r" "\<bar>r\<bar> \<le> b"
    using to_double_bounded by blast
  have "r = round_real 53 (- 1022) x"
    using r(1) by (simp add: to_double_Fin_iff)
  moreover have "\<bar>round_real 53 (- 1022) x - x\<bar> \<le> pow2 (e - int 53)"
    using assms(1,3,4) by (intro round_real_error_below) simp_all
  ultimately show ?thesis
    using r by auto
qed

lemma to_float_close:
  assumes "\<bar>x\<bar> \<le> b" and "round_real 24 (- 126) b = b" and "b < pow2 (e + 1)"
    and "- 126 \<le> e" and "e \<le> 127"
  shows "\<exists>r. to_float (Fin x) = Fin r \<and> \<bar>r\<bar> \<le> b \<and> \<bar>r - x\<bar> \<le> pow2 (e - 24)"
proof -
  have "pow2 (e + 1) \<le> pow2 128"
    using assms(5) by (intro pow2_mono) simp
  then have "b < 2 ^ 128"
    using assms(3) by (simp add: pow2_def)
  with assms(1,2) obtain r where r: "to_float (Fin x) = Fin r" "\<bar>r\<bar> \<le> b"
    using to_float_bounded by blast
  have "r = round_real 24 (- 126) x"
    using r(1) by (simp add: to_float_Fin_iff)
  moreover have "\<bar>round_real 24 (- 126) x - x\<bar> \<le> pow2 (e - int 24)"
    using assms(1,3,4) by (intro round_real_error_below) simp_all
  ultimately show ?thesis
    using r by auto
qed

lemma to_float_close_to:
  assumes "\<bar>x\<bar> \<le> 2 ^ e" and "e \<le> 100"
  shows "close_to (to_float (Fin x)) x (2 ^ e / 2 ^ 24)"
proof -
  define b :: real where "b = 2 ^ e"
  have bf: "round_real 24 (- 126) b = b"
    using round_real_exact [of b 1 "int e" 24 "- 126"] by (simp add: b_def pow2_int)
  have blt: "b < pow2 (int e + 1)"
    by (simp add: b_def pow2_add pow2_int) (simp add: pow2_def)
  have x: "\<bar>x\<bar> \<le> b" using assms(1) by (simp add: b_def)
  obtain r where r: "to_float (Fin x) = Fin r" "\<bar>r - x\<bar> \<le> pow2 (int e - 24)"
    using to_float_close [OF x bf blt] assms(2) by auto
  have "pow2 (int e - 24) = 2 ^ e / 2 ^ 24"
    using pow2_shift [of e 24] by simp
  with r show ?thesis
    by (simp add: close_to_def)
qed

lemma fsub_Fin: "fsub (Fin x) (Fin b) = to_float (Fin (x - b))"
  by (simp add: fsub_def xsub_def)

lemma fsub_same [simp]: "fsub (Fin 0) (Fin 0) = Fin 0" "fsub (Fin 1) (Fin 1) = Fin 0"
  by (simp_all add: fsub_def xsub_def)

lemma is_float_round: "is_float x \<Longrightarrow> round_real 24 (- 126) x = x"
  by (simp add: is_float_def to_float_def Let_def split: if_splits)

lemma is_float_below_half:
  assumes "is_float x" and "\<bar>x\<bar> < 1 / 2"
  shows "\<bar>x\<bar> \<le> 16777215 / 33554432"
proof (cases "\<bar>x\<bar> < 1 / 4")
  case True
  then show ?thesis by simp
next
  case False
  then have x0: "x \<noteq> 0" and lo: "pow2 (- 2) \<le> \<bar>x\<bar>" and hi: "\<bar>x\<bar> < pow2 (- 2 + 1)"
    using assms(2) by (auto simp add: pow2_def)
  define k where "k = rne (x / pow2 (- 25))"
  have "round_real 24 (- 126) x = of_int k * pow2 (- 25)"
    using round_real_eval [OF x0 lo hi, of 24 "- 126"] by (simp add: k_def)
  then have xk: "x = of_int k * pow2 (- 25)"
    using is_float_round [OF assms(1)] by simp
  then have "\<bar>real_of_int k\<bar> < 16777216"
    using assms(2) by (simp add: pow2_def abs_mult)
  then have "\<bar>k\<bar> < 16777216" by linarith
  then have "\<bar>k\<bar> \<le> 16777215" by simp
  then have "\<bar>real_of_int k\<bar> \<le> 16777215" by linarith
  then show ?thesis
    by (simp add: xk pow2_def abs_mult)
qed

lemma is_float_0: "is_float 0"
  by (simp add: is_float_def)

lemma is_float_1: "is_float 1"
  by (simp add: is_float_def)

lemma is_float_one_ulp: "is_float (1 + 1 / 8388608)"
  unfolding is_float_def
  by (rule to_float_exact [where m = 8388609 and j = "- 23"]) (simp_all add: pow2_def)

lemma is_float_half: "is_float (1 / 2)"
  unfolding is_float_def
  by (rule to_float_exact [where m = 1 and j = "- 1"]) (simp_all add: pow2_def)

lemma is_float_near_half: "is_float (16777215 / 33554432)"
  unfolding is_float_def
  by (rule to_float_exact [where m = 16777215 and j = "- 25"]) (simp_all add: pow2_def)

subsection \<open>The angle function\<close>

text \<open>
  \<open>atan2 y x\<close> is the polar angle of the point \<open>(x, y)\<close>: it lies in \<open>(-pi, pi]\<close> and,
  away from the origin, its cosine and sine give back the direction of the point.
\<close>

lemma atan2_range: "- pi < atan2 y x \<and> atan2 y x \<le> pi"
proof -
  have a: "- (pi / 2) < arctan (y / x)" "arctan (y / x) < pi / 2"
    using arctan_lbound [of "y / x"] arctan_ubound [of "y / x"] by simp_all
  have p: "0 < pi" by simp
  have neg: "x < 0 \<Longrightarrow> 0 \<le> y \<Longrightarrow> arctan (y / x) \<le> 0"
    by (simp add: divide_le_0_iff)
  have pos: "x < 0 \<Longrightarrow> y < 0 \<Longrightarrow> 0 < arctan (y / x)"
    by (simp add: zero_less_divide_iff)
  show ?thesis
    unfolding atan2_def using a p neg pos by (auto simp: field_simps)
qed

lemma atan2_polar:
  assumes "x \<noteq> 0 \<or> y \<noteq> 0"
  shows "sqrt (x\<^sup>2 + y\<^sup>2) * cos (atan2 y x) = x"
    and "sqrt (x\<^sup>2 + y\<^sup>2) * sin (atan2 y x) = y"
proof -
  have r: "sqrt (x\<^sup>2 + y\<^sup>2) = \<bar>x\<bar> * sqrt (1 + (y / x)\<^sup>2)" if "x \<noteq> 0"
  proof -
    have "x\<^sup>2 + y\<^sup>2 = x\<^sup>2 * (1 + (y / x)\<^sup>2)"
      using that by (simp add: field_simps power2_eq_square)
    then show ?thesis by (simp add: real_sqrt_mult)
  qed
  have pos: "0 < sqrt (1 + (y / x)\<^sup>2)"
    by (simp add: add_pos_nonneg)
  have c: "sqrt (1 + (y / x)\<^sup>2) * cos (arctan (y / x)) = 1"
    using pos by (simp add: cos_arctan)
  have s: "sqrt (1 + (y / x)\<^sup>2) * sin (arctan (y / x)) = y / x"
    using pos by (simp add: sin_arctan)
  show "sqrt (x\<^sup>2 + y\<^sup>2) * cos (atan2 y x) = x"
  proof (cases "x = 0")
    case True
    with assms show ?thesis by (simp add: atan2_def)
  next
    case False
    then show ?thesis
      using c by (auto simp add: atan2_def r mult.assoc)
  qed
  show "sqrt (x\<^sup>2 + y\<^sup>2) * sin (atan2 y x) = y"
  proof (cases "x = 0")
    case True
    with assms show ?thesis by (auto simp add: atan2_def)
  next
    case False
    then show ?thesis
      using s by (auto simp add: atan2_def r mult.assoc)
  qed
qed

subsection \<open>The store\<close>

lemma put_open:
  "prefs_open s = Some (ns, False) \<Longrightarrow>
   prefs_put key v s = s\<lparr>nvs := (nvs s)((ns, key) \<mapsto> v), nvs_log := nvs_log s @ [NvsPut ns key v]\<rparr>"
  by (simp add: prefs_put_def)

lemma get_open:
  "prefs_open s = Some (ns, ro) \<Longrightarrow>
   prefs_get key s = (nvs s (ns, key), s\<lparr>nvs_log := nvs_log s @ [NvsGet ns key]\<rparr>)"
  by (simp add: prefs_get_def)

lemma getBool_open:
  "prefs_open s = Some (ns, ro) \<Longrightarrow>
   prefs_getBool key d s =
     ((case nvs s (ns, key) of Some (NvsBool b) \<Rightarrow> b | _ \<Rightarrow> d),
      s\<lparr>nvs_log := nvs_log s @ [NvsGet ns key]\<rparr>)"
  by (simp add: prefs_getBool_def get_open split: option.splits nvs_value.splits)

lemma getFloat_open:
  "prefs_open s = Some (ns, ro) \<Longrightarrow>
   prefs_getFloat key d s =
     ((case nvs s (ns, key) of Some (NvsFloat x) \<Rightarrow> x | _ \<Rightarrow> d),
      s\<lparr>nvs_log := nvs_log s @ [NvsGet ns key]\<rparr>)"
  by (simp add: prefs_getFloat_def get_open split: option.splits nvs_value.splits)

lemma marker_not_true:
  "m \<noteq> Some (NvsBool True) \<Longrightarrow> (case m of Some (NvsBool b) \<Rightarrow> b | _ \<Rightarrow> False) = False"
  by (auto split: option.splits nvs_value.splits)

lemma saveOffsetsToPrefs_eq:
  "saveOffsetsToPrefs s =
     s\<lparr>prefs_open := None,
       nvs := (nvs s)((''mpu'', ''ax'') \<mapsto> NvsFloat (accOffX s),
                      (''mpu'', ''ay'') \<mapsto> NvsFloat (accOffY s),
                      (''mpu'', ''az'') \<mapsto> NvsFloat (accOffZ s),
                      (''mpu'', ''gx'') \<mapsto> NvsFloat (gyrOffX s),
                      (''mpu'', ''gy'') \<mapsto> NvsFloat (gyrOffY s),
                      (''mpu'', ''gz'') \<mapsto> NvsFloat (gyrOffZ s),
                      (''mpu'', ''ok'') \<mapsto> NvsBool True),
       nvs_log := nvs_log s @
         [NvsPut ''mpu'' ''ax'' (NvsFloat (accOffX s)),
          NvsPut ''mpu'' ''ay'' (NvsFloat (accOffY s)),
          NvsPut ''mpu'' ''az'' (NvsFloat (accOffZ s)),
          NvsPut ''mpu'' ''gx'' (NvsFloat (gyrOffX s)),
          NvsPut ''mpu'' ''gy'' (NvsFloat (gyrOffY s)),
          NvsPut ''mpu'' ''gz'' (NvsFloat (gyrOffZ s)),
          NvsPut ''mpu'' ''ok'' (NvsBool True)]\<rparr>"
  by (simp add: saveOffsetsToPrefs_def prefs_begin_def prefs_end_def prefs_putFloat_def
      prefs_putBool_def put_open Let_def)

lemma load_absent:
  assumes "nvs s (''mpu'', ''ok'') \<noteq> Some (NvsBool True)"
  shows "loadOffsetsFromPrefs s =
           s\<lparr>prefs_open := None, nvs_log := nvs_log s @ [NvsGet ''mpu'' ''ok'']\<rparr>"
  using marker_not_true [OF assms]
  by (simp add: loadOffsetsFromPrefs_def prefs_begin_def prefs_end_def getBool_open Let_def)

lemma load_present:
  assumes "nvs s (''mpu'', ''ok'') = Some (NvsBool True)"
  shows "loadOffsetsFromPrefs s =
     s\<lparr>accOffX := (case nvs s (''mpu'', ''ax'') of Some (NvsFloat x) \<Rightarrow> x | _ \<Rightarrow> accOffX s),
       accOffY := (case nvs s (''mpu'', ''ay'') of Some (NvsFloat x) \<Rightarrow> x | _ \<Rightarrow> accOffY s),
       accOffZ := (case nvs s (''mpu'', ''az'') of Some (NvsFloat x) \<Rightarrow> x | _ \<Rightarrow> accOffZ s),
       gyrOffX := (case nvs s (''mpu'', ''gx'') of Some (NvsFloat x) \<Rightarrow> x | _ \<Rightarrow> gyrOffX s),
       gyrOffY := (case nvs s (''mpu'', ''gy'') of Some (NvsFloat x) \<Rightarrow> x | _ \<Rightarrow> gyrOffY s),
       gyrOffZ := (case nvs s (''mpu'', ''gz'') of Some (NvsFloat x) \<Rightarrow> x | _ \<Rightarrow> gyrOffZ s),
       offsetsLoaded := True,
       prefs_open := None,
       nvs_log := nvs_log s @
         [NvsGet ''mpu'' ''ok'', NvsGet ''mpu'' ''ax'', NvsGet ''mpu'' ''ay'',
          NvsGet ''mpu'' ''az'', NvsGet ''mpu'' ''gx'', NvsGet ''mpu'' ''gy'',
          NvsGet ''mpu'' ''gz'']\<rparr>"
  using assms
  by (simp add: loadOffsetsFromPrefs_def prefs_begin_def prefs_end_def getBool_open
      getFloat_open Let_def)

text \<open>
  C5. Every save sends to the store, under the namespace \<open>mpu\<close>, the six offsets in the
  order \<open>ax\<close>, \<open>ay\<close>, \<open>az\<close>, \<open>gx\<close>, \<open>gy\<close>, \<open>gz\<close> and then the marker \<open>ok\<close> as its last
  write: the accesses a save adds to the log are exactly these seven puts, in this order.
\<close>

theorem save_writes_fields_then_marker:
  "nvs_log (saveOffsetsToPrefs s) =
     nvs_log s @
       [NvsPut ''mpu'' ''ax'' (NvsFloat (accOffX s)),
        NvsPut ''mpu'' ''ay'' (NvsFloat (accOffY s)),
        NvsPut ''mpu'' ''az'' (NvsFloat (accOffZ s)),
        NvsPut ''mpu'' ''gx'' (NvsFloat (gyrOffX s)),
        NvsPut ''mpu'' ''gy'' (NvsFloat (gyrOffY s)),
        NvsPut ''mpu'' ''gz'' (NvsFloat (gyrOffZ s)),
        NvsPut ''mpu'' ''ok'' (NvsBool True)]"
  by (simp add: saveOffsetsToPrefs_eq)

text \<open>
  C6. When the marker \<open>ok\<close> is absent from the store or not true (an empty store
  included), a load changes nothing but the log, where it adds the read of the marker
  alone: the six offsets and \<open>offsetsLoaded\<close> keep their values, and after power-on
  these are the built-in defaults and \<open>False\<close>. In every case the marker is the first
  key read, and the six offsets are read only when it was found true.
\<close>

theorem load_without_marker_keeps_defaults:
  "(nvs s (''mpu'', ''ok'') \<noteq> Some (NvsBool True) \<longrightarrow>
      loadOffsetsFromPrefs s =
        s\<lparr>prefs_open := None, nvs_log := nvs_log s @ [NvsGet ''mpu'' ''ok'']\<rparr>
      \<and> active_offsets (loadOffsetsFromPrefs s) = active_offsets s
      \<and> offsetsLoaded (loadOffsetsFromPrefs s) = offsetsLoaded s
      \<and> active_offsets (loadOffsetsFromPrefs (power_on s)) =
          (Fin (130075 / 1000000), Fin (- (1063 / 1000000)), Fin (- (53148 / 1000000)),
           Fin (34171 / 10000), Fin (36740 / 10000), Fin (36400 / 10000))
      \<and> \<not> offsetsLoaded (loadOffsetsFromPrefs (power_on s)))
   \<and> nvs_log (loadOffsetsFromPrefs s) =
       nvs_log s @
         (if nvs s (''mpu'', ''ok'') = Some (NvsBool True)
          then [NvsGet ''mpu'' ''ok'', NvsGet ''mpu'' ''ax'', NvsGet ''mpu'' ''ay'',
                NvsGet ''mpu'' ''az'', NvsGet ''mpu'' ''gx'', NvsGet ''mpu'' ''gy'',
                NvsGet ''mpu'' ''gz'']
          else [NvsGet ''mpu'' ''ok''])"
proof -
  have absent: "loadOffsetsFromPrefs t =
      t\<lparr>prefs_open := None, nvs_log := nvs_log t @ [NvsGet ''mpu'' ''ok'']\<rparr>"
    if "nvs t (''mpu'', ''ok'') \<noteq> Some (NvsBool True)" for t
    using that by (rule load_absent)
  have po: "nvs (power_on s) = nvs s"
    by (simp add: power_on_def)
  show ?thesis
  proof (cases "nvs s (''mpu'', ''ok'') = Some (NvsBool True)")
    case True
    then show ?thesis by (simp add: load_present)
  next
    case False
    then have "nvs (power_on s) (''mpu'', ''ok'') \<noteq> Some (NvsBool True)"
      by (simp add: po)
    with False show ?thesis
      by (simp add: absent active_offsets_def) (simp add: power_on_def)
  qed
qed

theorem load_without_marker_keeps_defaults_witness:
  "nvs bench_flat (''mpu'', ''ok'') \<noteq> Some (NvsBool True)
   \<and> loadOffsetsFromPrefs bench_flat = bench_flat\<lparr>nvs_log := [NvsGet ''mpu'' ''ok'']\<rparr>
   \<and> \<not> offsetsLoaded (loadOffsetsFromPrefs (power_on bench_flat))
   \<and> nvs (saveOffsetsToPrefs bench_flat) (''mpu'', ''ok'') = Some (NvsBool True)
   \<and> nvs_log (loadOffsetsFromPrefs (saveOffsetsToPrefs bench_flat)) =
       nvs_log (saveOffsetsToPrefs bench_flat) @
         [NvsGet ''mpu'' ''ok'', NvsGet ''mpu'' ''ax'', NvsGet ''mpu'' ''ay'',
          NvsGet ''mpu'' ''az'', NvsGet ''mpu'' ''gx'', NvsGet ''mpu'' ''gy'',
          NvsGet ''mpu'' ''gz'']"
proof -
  have m: "nvs (saveOffsetsToPrefs bench_flat) (''mpu'', ''ok'') = Some (NvsBool True)"
    by (simp add: saveOffsetsToPrefs_eq)
  show ?thesis
    using load_without_marker_keeps_defaults [of bench_flat]
      load_without_marker_keeps_defaults [of "saveOffsetsToPrefs bench_flat"] m
    by (simp add: bench_flat_def)
qed

text \<open>
  C7. Round trip: in every state that holds the store a save of the offsets of \<open>s\<close>
  left, a load yields the six offsets of \<open>s\<close>, each exactly, sets \<open>offsetsLoaded\<close>, and
  the marker \<open>ok\<close> reads true.
\<close>

theorem save_then_load_roundtrip:
  assumes "nvs s' = nvs (saveOffsetsToPrefs s)"
  shows "active_offsets (loadOffsetsFromPrefs s') = active_offsets s
         \<and> offsetsLoaded (loadOffsetsFromPrefs s')
         \<and> fst (prefs_getBool ''ok'' False (prefs_begin ''mpu'' True s'))"
proof -
  have ok: "nvs s' (''mpu'', ''ok'') = Some (NvsBool True)"
    by (simp add: assms saveOffsetsToPrefs_eq)
  have "nvs s' (''mpu'', ''ax'') = Some (NvsFloat (accOffX s))"
       "nvs s' (''mpu'', ''ay'') = Some (NvsFloat (accOffY s))"
       "nvs s' (''mpu'', ''az'') = Some (NvsFloat (accOffZ s))"
       "nvs s' (''mpu'', ''gx'') = Some (NvsFloat (gyrOffX s))"
       "nvs s' (''mpu'', ''gy'') = Some (NvsFloat (gyrOffY s))"
       "nvs s' (''mpu'', ''gz'') = Some (NvsFloat (gyrOffZ s))"
    by (simp_all add: assms saveOffsetsToPrefs_eq)
  then have "active_offsets (loadOffsetsFromPrefs s') = active_offsets s"
    by (simp add: load_present [OF ok] active_offsets_def)
  moreover have "offsetsLoaded (loadOffsetsFromPrefs s')"
    by (simp add: load_present [OF ok])
  moreover have "fst (prefs_getBool ''ok'' False (prefs_begin ''mpu'' True s'))"
    using ok by (simp add: getBool_open [where ns = "''mpu''" and ro = True] prefs_begin_def)
  ultimately show ?thesis by simp
qed

theorem save_then_load_roundtrip_witness:
  "nvs (power_on (saveOffsetsToPrefs (bench_flat\<lparr>accOffX := Fin (1 / 4)\<rparr>))) =
     nvs (saveOffsetsToPrefs (bench_flat\<lparr>accOffX := Fin (1 / 4)\<rparr>))
   \<and> accOffX (loadOffsetsFromPrefs
         (power_on (saveOffsetsToPrefs (bench_flat\<lparr>accOffX := Fin (1 / 4)\<rparr>)))) = Fin (1 / 4)
   \<and> offsetsLoaded (loadOffsetsFromPrefs
         (power_on (saveOffsetsToPrefs (bench_flat\<lparr>accOffX := Fin (1 / 4)\<rparr>))))"
proof -
  have h: "nvs (power_on (saveOffsetsToPrefs (bench_flat\<lparr>accOffX := Fin (1 / 4)\<rparr>))) =
             nvs (saveOffsetsToPrefs (bench_flat\<lparr>accOffX := Fin (1 / 4)\<rparr>))"
    by (simp add: power_on_def)
  show ?thesis
    using h save_then_load_roundtrip [OF h] by (simp add: active_offsets_def)
qed

subsection \<open>The calibration loop\<close>

lemma calibration_window_Suc:
  "calibration_window (Suc n) s =
     mpu_feed s (mpu_updates s) # calibration_window n (delay d (mpu_update s))"
  by (simp add: calibration_window_def delay_def mpu_update_def upt_conv_Cons del: upt_Suc)

lemma calibration_window_0: "calibration_window 0 s = []"
  by (simp add: calibration_window_def)

lemma length_calibration_window: "length (calibration_window n s) = n"
  by (simp add: calibration_window_def)

lemma calibration_window_cong:
  "mpu_feed s' = mpu_feed s \<Longrightarrow> mpu_updates s' = mpu_updates s \<Longrightarrow>
   calibration_window n s' = calibration_window n s"
  by (simp add: calibration_window_def)

lemma calibration_window_const:
  "mpu_feed s = (\<lambda>k. f) \<Longrightarrow> calibration_window n s = replicate n f"
  by (simp add: calibration_window_def map_replicate_const)

lemma window_first_rest:
  assumes "mpu_updates s = 0" and "mpu_feed s = (\<lambda>k. if k = 0 then a else b)"
  shows "calibration_window (Suc n) s = a # replicate n b"
proof -
  have "map (\<lambda>k. if k = 0 then a else b) [Suc 0..<Suc n] = map (\<lambda>k. b) [Suc 0..<Suc n]"
    by (rule map_cong) auto
  then show ?thesis
    by (simp add: calibration_window_def assms upt_conv_Cons map_replicate_const del: upt_Suc)
qed

lemma calibration_loop_sums:
  "fst (calibration_loop n d acc s) =
     \<lparr>sAx = foldl (\<lambda>a x. dadd a (Fin x)) (sAx acc) (map getAccX (calibration_window n s)),
      sAy = foldl (\<lambda>a x. dadd a (Fin x)) (sAy acc) (map getAccY (calibration_window n s)),
      sAz = foldl (\<lambda>a x. dadd a (Fin x)) (sAz acc) (map getAccZ (calibration_window n s)),
      sGx = foldl (\<lambda>a x. dadd a (Fin x)) (sGx acc) (map getGyroX (calibration_window n s)),
      sGy = foldl (\<lambda>a x. dadd a (Fin x)) (sGy acc) (map getGyroY (calibration_window n s)),
      sGz = foldl (\<lambda>a x. dadd a (Fin x)) (sGz acc) (map getGyroZ (calibration_window n s))\<rparr>"
proof (induction n arbitrary: acc s)
  case 0
  show ?case by (simp add: calibration_window_0)
next
  case (Suc n)
  have cur: "mpu_cur (mpu_update s) = mpu_feed s (mpu_updates s)"
    by (simp add: mpu_update_def)
  show ?case
    by (simp add: Let_def Suc.IH calibration_window_Suc [of n s d] cur)
qed

lemma calibration_loop_state:
  "snd (calibration_loop n d acc s) =
     s\<lparr>mpu_cur := last (mpu_cur s # calibration_window n s),
       mpu_updates := mpu_updates s + n,
       clock := clock s + of_nat n * d\<rparr>"
proof (induction n arbitrary: acc s)
  case 0
  show ?case by (simp add: calibration_window_0)
next
  case (Suc n)
  have step: "delay d (mpu_update s) =
      s\<lparr>mpu_cur := mpu_feed s (mpu_updates s), mpu_updates := Suc (mpu_updates s),
        clock := clock s + d\<rparr>"
    by (simp add: delay_def mpu_update_def)
  have win: "calibration_window n (delay d (mpu_update s)) =
      map (mpu_feed s) [Suc (mpu_updates s)..<Suc (mpu_updates s) + n]"
    by (simp add: calibration_window_def step)
  have winS: "calibration_window (Suc n) s =
      mpu_feed s (mpu_updates s) # map (mpu_feed s) [Suc (mpu_updates s)..<Suc (mpu_updates s) + n]"
    using calibration_window_Suc [of n s d] by (simp add: win)
  show ?case
    apply (simp only: calibration_loop.simps Let_def Suc.IH win winS)
    apply (simp add: step algebra_simps)
    done
qed

lemma doAveragingCalibration_ok:
  "fst (doAveragingCalibration samples d s) =
     (\<not> flt (xabs (float_mean (map getAccZ (calibration_window (unat samples) s)))) (Fin (1 / 2)))"
proof -
  have w: "calibration_window n (delay 200 s) = calibration_window n s" for n
    by (rule calibration_window_cong) (simp_all add: delay_def)
  show ?thesis
    by (simp add: doAveragingCalibration_def Let_def split_beta calibration_loop_sums w
        float_mean_def double_sum_def length_calibration_window)
qed

lemma doAveragingCalibration_out:
  "fst (snd (doAveragingCalibration samples d s)) =
     \<lparr>out_accOffX = fsub (float_mean (map getAccX (calibration_window (unat samples) s))) (Fin 0),
      out_accOffY = fsub (float_mean (map getAccY (calibration_window (unat samples) s))) (Fin 0),
      out_accOffZ = fsub (float_mean (map getAccZ (calibration_window (unat samples) s))) (Fin 1),
      out_gyrOffX = float_mean (map getGyroX (calibration_window (unat samples) s)),
      out_gyrOffY = float_mean (map getGyroY (calibration_window (unat samples) s)),
      out_gyrOffZ = float_mean (map getGyroZ (calibration_window (unat samples) s))\<rparr>"
proof -
  have w: "calibration_window n (delay 200 s) = calibration_window n s" for n
    by (rule calibration_window_cong) (simp_all add: delay_def)
  show ?thesis
    by (simp add: doAveragingCalibration_def Let_def split_beta calibration_loop_sums w
        float_mean_def double_sum_def length_calibration_window)
qed

lemma doAveragingCalibration_state:
  "snd (snd (doAveragingCalibration samples d s)) =
     s\<lparr>mpu_cur := last (mpu_cur s # calibration_window (unat samples) s),
       mpu_updates := mpu_updates s + unat samples,
       clock := clock s + 200 + samples * d\<rparr>"
proof -
  have w: "calibration_window n (delay 200 s) = calibration_window n s" for n
    by (rule calibration_window_cong) (simp_all add: delay_def)
  show ?thesis
    by (simp add: doAveragingCalibration_def Let_def split_beta calibration_loop_state w)
       (simp add: delay_def)
qed

subsection \<open>Sums and means in floating point\<close>

text \<open>
  The running sum in \<^verbatim>\<open>double\<close> is exact while the samples lie on a common binary grid
  and the sum has at most 53 bits; it stays within any representable bound that the
  exact partial sums respect, and each addition is off by at most half a unit in the
  last place. The mean of the sketch inherits this.
\<close>

lemma foldl_dadd_exact:
  assumes "\<forall>x\<in>set xs. \<exists>m. x = of_int m * pow2 j \<and> \<bar>m\<bar> \<le> B"
    and "a = of_int m0 * pow2 j"
    and "\<bar>m0\<bar> + int (length xs) * B < 2 ^ 53"
    and "- 1074 \<le> j" and "j \<le> 0" and "0 \<le> B"
  shows "foldl (\<lambda>a x. dadd a (Fin x)) (Fin a) xs = Fin (a + sum_list xs)"
  using assms(1,2,3)
proof (induction xs arbitrary: a m0)
  case Nil
  then show ?case by simp
next
  case (Cons x xs)
  from Cons.prems(1) obtain m where m: "x = of_int m * pow2 j" "\<bar>m\<bar> \<le> B"
    by auto
  have sum: "a + x = of_int (m0 + m) * pow2 j"
    by (simp add: Cons.prems(2) m(1) algebra_simps)
  have L: "int (length xs) * B \<ge> 0"
    using assms(6) by simp
  have e: "int (length (x # xs)) * B = B + int (length xs) * B"
    by (simp add: algebra_simps)
  have small: "\<bar>m0 + m\<bar> < 2 ^ 53"
    using Cons.prems(3) m(2) L unfolding e by linarith
  have step: "dadd (Fin a) (Fin x) = Fin (a + x)"
    unfolding dadd_def xadd.simps
    by (rule to_double_exact [OF sum small assms(4)]) (simp only: sum grid_bound [OF small assms(5)])
  have rest: "\<bar>m0 + m\<bar> + int (length xs) * B < 2 ^ 53"
    using Cons.prems(3) m(2) unfolding e by linarith
  have "foldl (\<lambda>a x. dadd a (Fin x)) (Fin (a + x)) xs = Fin (a + x + sum_list xs)"
    using Cons.prems(1) by (intro Cons.IH [OF _ sum rest]) simp
  then show ?case
    by (simp add: step add.assoc)
qed

lemma double_sum_exact:
  assumes "\<forall>x\<in>set xs. \<exists>m. x = of_int m * pow2 j \<and> \<bar>m\<bar> \<le> B"
    and "int (length xs) * B < 2 ^ 53"
    and "- 1074 \<le> j" and "j \<le> 0" and "0 \<le> B"
  shows "double_sum xs = Fin (sum_list xs)"
  unfolding double_sum_def
  using foldl_dadd_exact [OF assms(1) _ _ assms(3,4,5), of 0 0] assms(2) by simp

lemma foldl_dadd_bounded:
  assumes "\<forall>x\<in>set xs. \<bar>x\<bar> \<le> c"
    and "c = of_int mc * pow2 j" and "0 \<le> mc"
    and "(k + int (length xs)) * mc < 2 ^ 53"
    and "- 1074 \<le> j" and "j \<le> 0"
    and "\<bar>a\<bar> \<le> of_int k * c" and "0 \<le> k"
  shows "\<exists>S. foldl (\<lambda>a x. dadd a (Fin x)) (Fin a) xs = Fin S
             \<and> \<bar>S\<bar> \<le> of_int (k + int (length xs)) * c"
  using assms(1,4,7,8)
proof (induction xs arbitrary: a k)
  case Nil
  then show ?case by simp
next
  case (Cons x xs)
  define b where "b = of_int (k + 1) * c"
  have x: "\<bar>x\<bar> \<le> c" using Cons.prems(1) by simp
  have b: "b = of_int k * c + c"
    by (simp add: b_def algebra_simps)
  have ab: "\<bar>a + x\<bar> \<le> b"
    using x Cons.prems(3) unfolding b by linarith
  have bgrid: "b = of_int ((k + 1) * mc) * pow2 j"
    by (simp add: b_def assms(2))
  have "(k + 1) * mc \<le> (k + int (length (x # xs))) * mc"
    using assms(3) by (intro mult_right_mono) simp_all
  then have bsmall: "\<bar>(k + 1) * mc\<bar> < 2 ^ 53"
    using Cons.prems(2,4) assms(3) by (simp add: abs_mult) 
  have bfix: "round_real 53 (- 1022) b = b"
    using bgrid bsmall by (rule round_real_exact) (use assms(5) in simp)
  have "\<bar>b\<bar> < 2 ^ 1024"
    unfolding bgrid by (rule grid_bound [OF bsmall assms(6)])
  then have "b < 2 ^ 1024" by simp
  with ab bfix obtain r where r: "to_double (Fin (a + x)) = Fin r" "\<bar>r\<bar> \<le> b"
    using to_double_bounded by blast
  have step: "dadd (Fin a) (Fin x) = Fin r"
    by (simp add: dadd_def r(1))
  have "\<exists>S. foldl (\<lambda>a x. dadd a (Fin x)) (Fin r) xs = Fin S
             \<and> \<bar>S\<bar> \<le> of_int ((k + 1) + int (length xs)) * c"
  proof (rule Cons.IH)
    show "\<forall>x\<in>set xs. \<bar>x\<bar> \<le> c" using Cons.prems(1) by simp
    show "(k + 1 + int (length xs)) * mc < 2 ^ 53"
      using Cons.prems(2) by (simp add: algebra_simps)
    show "\<bar>r\<bar> \<le> real_of_int (k + 1) * c" using r(2) by (simp add: b_def)
    show "0 \<le> k + 1" using Cons.prems(4) by simp
  qed
  then show ?case
    by (simp add: step algebra_simps)
qed

lemma foldl_dadd_close:
  assumes "\<forall>x\<in>set xs. \<bar>x\<bar> \<le> c"
    and "c = of_int mc * pow2 j" and "0 \<le> mc"
    and "(k + int (length xs)) * mc < 2 ^ 53"
    and "- 1074 \<le> j" and "j \<le> 0"
    and "\<bar>a\<bar> \<le> of_int k * c" and "0 \<le> k"
    and "of_int (k + int (length xs)) * c < pow2 (E + 1)" and "- 1022 \<le> E" and "E \<le> 1023"
  shows "\<exists>S. foldl (\<lambda>a x. dadd a (Fin x)) (Fin a) xs = Fin S
             \<and> \<bar>S\<bar> \<le> of_int (k + int (length xs)) * c
             \<and> \<bar>S - (a + sum_list xs)\<bar> \<le> real (length xs) * pow2 (E - 53)"
  using assms(1,4,7,8,9)
proof (induction xs arbitrary: a k)
  case Nil
  then show ?case by simp
next
  case (Cons x xs)
  define b where "b = of_int (k + 1) * c"
  have c0: "0 \<le> c"
    using assms(3) by (simp add: assms(2))
  have x: "\<bar>x\<bar> \<le> c" using Cons.prems(1) by simp
  have b: "b = of_int k * c + c"
    by (simp add: b_def algebra_simps)
  have ab: "\<bar>a + x\<bar> \<le> b"
    using x Cons.prems(3) unfolding b by linarith
  have bgrid: "b = of_int ((k + 1) * mc) * pow2 j"
    by (simp add: b_def assms(2))
  have "(k + 1) * mc \<le> (k + int (length (x # xs))) * mc"
    using assms(3) by (intro mult_right_mono) simp_all
  then have bsmall: "\<bar>(k + 1) * mc\<bar> < 2 ^ 53"
    using Cons.prems(2,4) assms(3) by (simp add: abs_mult)
  have bfix: "round_real 53 (- 1022) b = b"
    using bgrid bsmall by (rule round_real_exact) (use assms(5) in simp)
  have "real_of_int (k + 1) \<le> real_of_int (k + int (length (x # xs)))"
    by simp
  then have "b \<le> of_int (k + int (length (x # xs))) * c"
    unfolding b_def using c0 by (rule mult_right_mono)
  then have blt: "b < pow2 (E + 1)"
    using Cons.prems(5) by linarith
  obtain r where r: "to_double (Fin (a + x)) = Fin r" "\<bar>r\<bar> \<le> b" "\<bar>r - (a + x)\<bar> \<le> pow2 (E - 53)"
    using to_double_close [OF ab bfix blt assms(10,11)] by blast
  have step: "dadd (Fin a) (Fin x) = Fin r"
    by (simp add: dadd_def r(1))
  have "\<exists>S. foldl (\<lambda>a x. dadd a (Fin x)) (Fin r) xs = Fin S
             \<and> \<bar>S\<bar> \<le> of_int ((k + 1) + int (length xs)) * c
             \<and> \<bar>S - (r + sum_list xs)\<bar> \<le> real (length xs) * pow2 (E - 53)"
  proof (rule Cons.IH)
    show "\<forall>x\<in>set xs. \<bar>x\<bar> \<le> c" using Cons.prems(1) by simp
    show "(k + 1 + int (length xs)) * mc < 2 ^ 53"
      using Cons.prems(2) by (simp add: algebra_simps)
    show "\<bar>r\<bar> \<le> real_of_int (k + 1) * c" using r(2) by (simp add: b_def)
    show "0 \<le> k + 1" using Cons.prems(4) by simp
    show "real_of_int (k + 1 + int (length xs)) * c < pow2 (E + 1)"
      using Cons.prems(5) by (simp add: algebra_simps)
  qed
  then obtain S where S: "foldl (\<lambda>a x. dadd a (Fin x)) (Fin r) xs = Fin S"
      "\<bar>S\<bar> \<le> of_int ((k + 1) + int (length xs)) * c"
      "\<bar>S - (r + sum_list xs)\<bar> \<le> real (length xs) * pow2 (E - 53)"
    by blast
  have "\<bar>S - (a + sum_list (x # xs))\<bar> \<le> \<bar>S - (r + sum_list xs)\<bar> + \<bar>r - (a + x)\<bar>"
    by simp
  also have "\<dots> \<le> real (length xs) * pow2 (E - 53) + pow2 (E - 53)"
    using S(3) r(3) by linarith
  also have "\<dots> = real (length (x # xs)) * pow2 (E - 53)"
    by (simp add: algebra_simps)
  finally have "\<bar>S - (a + sum_list (x # xs))\<bar> \<le> real (length (x # xs)) * pow2 (E - 53)" .
  moreover have "\<bar>S\<bar> \<le> of_int (k + int (length (x # xs))) * c"
    using S(2) by (simp add: algebra_simps)
  ultimately show ?case
    using S(1) by (simp only: foldl_Cons step) blast
qed

lemma sum_list_const:
  fixes c :: real
  shows "\<forall>x\<in>set xs. x = c \<Longrightarrow> sum_list xs = c * real (length xs)"
  by (induction xs) (simp_all add: algebra_simps)

lemma float_mean_zeros:
  assumes "xs \<noteq> []" and "\<forall>x\<in>set xs. x = 0"
  shows "float_mean xs = Fin 0"
proof -
  have "\<forall>x\<in>set xs. \<exists>m. x = of_int m * pow2 0 \<and> \<bar>m\<bar> \<le> 0"
    using assms(2) by simp
  then have "double_sum xs = Fin (sum_list xs)"
    by (rule double_sum_exact) simp_all
  moreover have "sum_list xs = 0"
    using sum_list_const [OF assms(2)] by simp
  ultimately show ?thesis
    using assms(1) by (simp add: float_mean_def ddiv_def)
qed

lemma float_mean_ones:
  assumes "xs \<noteq> []" and "length xs < 2 ^ 53" and "\<forall>x\<in>set xs. x = 1"
  shows "float_mean xs = Fin 1"
proof -
  have "\<forall>x\<in>set xs. \<exists>m. x = of_int m * pow2 0 \<and> \<bar>m\<bar> \<le> 1"
  proof
    fix x assume "x \<in> set xs"
    then have "x = of_int 1 * pow2 0 \<and> \<bar>1::int\<bar> \<le> 1"
      using assms(3) by (simp add: pow2_def)
    then show "\<exists>m. x = of_int m * pow2 0 \<and> \<bar>m\<bar> \<le> 1" by blast
  qed
  moreover have "int (length xs) * 1 < 2 ^ 53"
  proof -
    have "int (length xs) < int (2 ^ 53)"
      using assms(2) by (simp only: of_nat_less_iff)
    then show ?thesis by simp
  qed
  ultimately have "double_sum xs = Fin (sum_list xs)"
    by (rule double_sum_exact) simp_all
  moreover have "sum_list xs = real (length xs)"
    using sum_list_const [OF assms(3)] by simp
  ultimately show ?thesis
    using assms(1) by (simp add: float_mean_def ddiv_def)
qed

lemma float_mean_replicate_0: "0 < n \<Longrightarrow> float_mean (replicate n 0) = Fin 0"
  by (rule float_mean_zeros) simp_all

lemma float_mean_replicate_1: "0 < n \<Longrightarrow> n < 2 ^ 53 \<Longrightarrow> float_mean (replicate n 1) = Fin 1"
  by (rule float_mean_ones) simp_all

lemma float_mean_below_half:
  assumes "xs \<noteq> []" and "length xs \<le> 2 ^ 29"
    and "\<forall>x\<in>set xs. is_float x \<and> \<bar>x\<bar> < 1 / 2"
  shows "flt (xabs (float_mean xs)) (Fin (1 / 2))"
proof -
  define c :: real where "c = 16777215 / 33554432"
  define n where "n = int (length xs)"
  have "int (length xs) \<le> int (2 ^ 29)"
    using assms(2) by (simp only: of_nat_le_iff)
  then have n: "0 < n" "n \<le> 2 ^ 29"
    using assms(1) by (simp_all add: n_def)
  have grid: "c = of_int 16777215 * pow2 (- 25)"
    by (simp add: c_def pow2_def)
  have small: "\<forall>x\<in>set xs. \<bar>x\<bar> \<le> c"
    using assms(3) is_float_below_half by (simp add: c_def)
  have "(0 + int (length xs)) * 16777215 < 2 ^ 53"
    using n(2) by (simp add: n_def)
  with small grid obtain S where S: "double_sum xs = Fin S" "\<bar>S\<bar> \<le> of_int n * c"
    unfolding double_sum_def n_def
    using foldl_dadd_bounded [of xs c 16777215 "- 25" 0 0] by auto
  have q: "\<bar>S / real_of_int n\<bar> \<le> c"
    using S(2) n(1) by (simp add: pos_divide_le_eq mult.commute)
  have cd: "round_real 53 (- 1022) c = c"
    using grid by (rule round_real_exact) simp_all
  have cf: "round_real 24 (- 126) c = c"
    using grid by (rule round_real_exact) simp_all
  have "c < 2 ^ 1024"
  proof -
    have "c < 1" by (simp add: c_def)
    also have "(1::real) \<le> 2 ^ 1024" by (rule one_le_power) simp
    finally show ?thesis .
  qed
  with q cd obtain r where r: "to_double (Fin (S / real_of_int n)) = Fin r" "\<bar>r\<bar> \<le> c"
    using to_double_bounded by blast
  have "c < 2 ^ 128"
  proof -
    have "c < 1" by (simp add: c_def)
    also have "(1::real) \<le> 2 ^ 128" by (rule one_le_power) simp
    finally show ?thesis .
  qed
  with r(2) cf obtain m where m: "to_float (Fin r) = Fin m" "\<bar>m\<bar> \<le> c"
    using to_float_bounded by blast
  have "xdiv (Fin S) (Fin (real (length xs))) = Fin (S / real_of_int n)"
    using assms(1) by (simp add: n_def)
  then have "float_mean xs = Fin m"
    by (simp only: float_mean_def S(1) ddiv_def r(1) m(1))
  moreover have "\<bar>m\<bar> < 1 / 2"
    using m(2) by (simp add: c_def)
  ultimately show ?thesis by simp
qed

lemma float_mean_squeeze:
  assumes "xs \<noteq> []" and "double_sum xs = Fin S"
    and "a \<le> S / real (length xs)" and "S / real (length xs) \<le> b"
    and "to_double (Fin a) = Fin a" and "to_double (Fin b) = Fin b"
    and "to_float (Fin a) = Fin c" and "to_float (Fin b) = Fin c"
  shows "float_mean xs = Fin c"
proof -
  have "xdiv (Fin S) (Fin (real (length xs))) = Fin (S / real (length xs))"
    using assms(1) by simp
  moreover obtain r where r: "to_double (Fin (S / real (length xs))) = Fin r" "a \<le> r" "r \<le> b"
    using to_double_between [OF assms(3,4,5,6)] by blast
  moreover have "to_float (Fin r) = Fin c"
    using r(2,3) assms(7,8) by (rule to_float_squeeze)
  ultimately show ?thesis
    by (simp only: float_mean_def assms(2) ddiv_def)
qed

lemma float_mean_close:
  assumes "xs \<noteq> []" and "length xs \<le> 1024" and "e \<le> 40" and "\<forall>x\<in>set xs. \<bar>x\<bar> \<le> 2 ^ e"
  shows "\<exists>m. float_mean xs = Fin m \<and> \<bar>m\<bar> \<le> 2 ^ e
             \<and> \<bar>m - arithmetic_mean xs\<bar> \<le> 2 ^ e / 2 ^ 23"
proof -
  define c :: real where "c = 2 ^ e"
  define n where "n = int (length xs)"
  have "int (length xs) \<le> int 1024"
    using assms(2) by (simp only: of_nat_le_iff)
  then have n: "0 < n" "n \<le> 1024"
    using assms(1) by (simp_all add: n_def)
  have nr: "0 < real_of_int n" "real_of_int n \<le> 1024"
    using n by simp_all
  have c0: "0 < c" by (simp add: c_def)
  have grid: "c = of_int (2 ^ e) * pow2 0"
    by (simp add: c_def pow2_def)
  have "(2::int) ^ e \<le> 2 ^ 40"
    using assms(3) by (intro power_increasing) simp_all
  then have "n * 2 ^ e \<le> 1024 * 2 ^ 40"
    using n by (intro mult_mono) simp_all
  then have len: "(0 + int (length xs)) * 2 ^ e < 2 ^ 53"
    by (simp add: n_def)
  have "real_of_int n * c \<le> 1024 * c"
    using nr(2) c0 by (intro mult_right_mono) simp_all
  also have "\<dots> < pow2 (int e + 10 + 1)"
    by (simp add: c_def pow2_add pow2_int) (simp add: pow2_def)
  finally have tot: "real_of_int (0 + int (length xs)) * c < pow2 (int e + 10 + 1)"
    by (simp add: n_def)
  have small: "\<forall>x\<in>set xs. \<bar>x\<bar> \<le> c"
    using assms(4) by (simp add: c_def)
  obtain S where S: "double_sum xs = Fin S" "\<bar>S\<bar> \<le> of_int n * c"
      "\<bar>S - sum_list xs\<bar> \<le> real (length xs) * pow2 (int e + 10 - 53)"
    unfolding double_sum_def n_def
    using foldl_dadd_close [OF small grid _ len _ _ _ _ tot, of 0] assms(3) by auto
  define q where "q = S / real_of_int n"
  have rn: "real (length xs) = real_of_int n"
    by (simp add: n_def)
  have q: "\<bar>q\<bar> \<le> c"
    using S(2) nr(1) by (simp add: q_def pos_divide_le_eq mult.commute)
  have "q - arithmetic_mean xs = (S - sum_list xs) / real_of_int n"
    by (simp add: q_def arithmetic_mean_def rn diff_divide_distrib)
  then have "\<bar>q - arithmetic_mean xs\<bar> = \<bar>S - sum_list xs\<bar> / real_of_int n"
    using nr(1) by simp
  also have "\<dots> \<le> pow2 (int e + 10 - 53)"
    using S(3) nr(1) by (simp add: rn pos_divide_le_eq mult.commute)
  finally have qm: "\<bar>q - arithmetic_mean xs\<bar> \<le> pow2 (int e + 10 - 53)" .
  have cd: "round_real 53 (- 1022) c = c"
    using grid
  proof (rule round_real_exact)
    have "(2::int) ^ e < 2 ^ 53"
      using assms(3) by (intro power_strict_increasing) simp_all
    then show "\<bar>(2::int) ^ e\<bar> < 2 ^ 53" by simp
  qed simp
  have cf: "round_real 24 (- 126) c = c"
    using round_real_exact [of c 1 "int e" 24 "- 126"] by (simp add: c_def pow2_int)
  have clt: "c < pow2 (int e + 1)"
    by (simp add: c_def pow2_add pow2_int) (simp add: pow2_def)
  obtain d where d: "to_double (Fin q) = Fin d" "\<bar>d\<bar> \<le> c" "\<bar>d - q\<bar> \<le> pow2 (int e - 53)"
    using to_double_close [OF q cd clt] assms(3) by auto
  obtain m where m: "to_float (Fin d) = Fin m" "\<bar>m\<bar> \<le> c" "\<bar>m - d\<bar> \<le> pow2 (int e - 24)"
    using to_float_close [OF d(2) cf clt] assms(3) by auto
  have "xdiv (Fin S) (Fin (real (length xs))) = Fin q"
    using assms(1) by (simp add: q_def n_def)
  then have fm: "float_mean xs = Fin m"
    by (simp only: float_mean_def S(1) ddiv_def d(1) m(1))
  have p1: "pow2 (int e + 10 - 53) = c / 2 ^ 43"
    using pow2_shift [of e 43] by (simp add: c_def)
  have p2: "pow2 (int e - 53) = c / 2 ^ 53"
    using pow2_shift [of e 53] by (simp add: c_def)
  have p3: "pow2 (int e - 24) = c / 2 ^ 24"
    using pow2_shift [of e 24] by (simp add: c_def)
  have "\<bar>m - arithmetic_mean xs\<bar> \<le> \<bar>m - d\<bar> + \<bar>d - q\<bar> + \<bar>q - arithmetic_mean xs\<bar>"
    by simp
  also have "\<dots> \<le> c / 2 ^ 24 + c / 2 ^ 53 + c / 2 ^ 43"
    using m(3) d(3) qm unfolding p1 p2 p3 by linarith
  also have "\<dots> \<le> c / 2 ^ 23"
    using c0 by simp
  finally have "\<bar>m - arithmetic_mean xs\<bar> \<le> 2 ^ e / 2 ^ 23"
    by (simp add: c_def)
  with fm m(2) show ?thesis
    by (auto simp add: c_def)
qed

lemma float_mean_close_to:
  assumes "xs \<noteq> []" and "length xs \<le> 1024" and "e \<le> 40" and "\<forall>x\<in>set xs. \<bar>x\<bar> \<le> 2 ^ e"
  shows "close_to (float_mean xs) (arithmetic_mean xs) (2 ^ e / 2 ^ 23)"
  using float_mean_close [OF assms] by (auto simp add: close_to_def)

lemma mean_offset_close_to:
  assumes "xs \<noteq> []" and "length xs \<le> 1024" and "e \<le> 40" and "\<forall>x\<in>set xs. \<bar>x\<bar> \<le> 2 ^ e"
    and "t = 0 \<or> t = 1"
  shows "close_to (fsub (float_mean xs) (Fin t)) (arithmetic_mean xs - t) (2 ^ e / 2 ^ 22)"
proof -
  obtain m where m: "float_mean xs = Fin m" "\<bar>m\<bar> \<le> 2 ^ e"
      "\<bar>m - arithmetic_mean xs\<bar> \<le> 2 ^ e / 2 ^ 23"
    using float_mean_close [OF assms(1-4)] by blast
  define b :: real where "b = 2 * 2 ^ e"
  have one: "(1::real) \<le> 2 ^ e" by (rule one_le_power) simp
  have "\<bar>t\<bar> \<le> 1" using assms(5) by auto
  then have mt: "\<bar>m - t\<bar> \<le> b"
    using m(2) one unfolding b_def by linarith
  have bf: "round_real 24 (- 126) b = b"
    using round_real_exact [of b 1 "int e + 1" 24 "- 126"]
    by (simp add: b_def pow2_add pow2_int) (simp add: pow2_def)
  have blt: "b < pow2 (int e + 1 + 1)"
    by (simp add: b_def pow2_add pow2_int) (simp add: pow2_def)
  obtain r where r: "to_float (Fin (m - t)) = Fin r" "\<bar>r - (m - t)\<bar> \<le> pow2 (int e + 1 - 24)"
    using to_float_close [OF mt bf blt] assms(3) by auto
  have "pow2 (int e + 1 - 24) = 2 ^ e / 2 ^ 23"
    using pow2_shift [of e 23] by simp
  then have "\<bar>r - (m - t)\<bar> \<le> 2 ^ e / 2 ^ 23"
    using r(2) by simp
  then have "\<bar>r - (arithmetic_mean xs - t)\<bar> \<le> 2 ^ e / 2 ^ 23 + 2 ^ e / 2 ^ 23"
    using m(3) by linarith
  also have "\<dots> = 2 ^ e / 2 ^ 22"
    by simp
  finally have "\<bar>r - (arithmetic_mean xs - t)\<bar> \<le> 2 ^ e / 2 ^ 22" .
  moreover have "fsub (float_mean xs) (Fin t) = Fin r"
    by (simp add: fsub_def xsub_def m(1) r(1))
  ultimately show ?thesis
    by (simp add: close_to_def)
qed

lemma grid_first_rest:
  assumes "a = of_int ma * pow2 j" and "\<bar>ma\<bar> \<le> B" and "b = of_int mb * pow2 j" and "\<bar>mb\<bar> \<le> B"
  shows "\<forall>x\<in>set (a # replicate n b). \<exists>m. x = of_int m * pow2 j \<and> \<bar>m\<bar> \<le> B"
  using assms by auto

lemma flat_window_means:
  assumes "0 < n" and "n < 2 ^ 53"
    and "\<forall>f\<in>set (calibration_window n s). getAccX f = 0 \<and> getAccY f = 0 \<and> getAccZ f = 1"
  shows "float_mean (map getAccX (calibration_window n s)) = Fin 0"
    and "float_mean (map getAccY (calibration_window n s)) = Fin 0"
    and "float_mean (map getAccZ (calibration_window n s)) = Fin 1"
proof -
  have ne: "map g (calibration_window n s) \<noteq> []" for g :: "mpu_frame \<Rightarrow> real"
    using assms(1) length_calibration_window [of n s] by auto
  show "float_mean (map getAccX (calibration_window n s)) = Fin 0"
    using assms(3) by (intro float_mean_zeros ne) simp
  show "float_mean (map getAccY (calibration_window n s)) = Fin 0"
    using assms(3) by (intro float_mean_zeros ne) simp
  show "float_mean (map getAccZ (calibration_window n s)) = Fin 1"
    using assms(2,3) by (intro float_mean_ones ne) (simp_all add: length_calibration_window)
qed

lemma flat_window_ok:
  assumes "samples \<noteq> 0"
    and "\<forall>f\<in>set (calibration_window (unat samples) s).
           getAccX f = 0 \<and> getAccY f = 0 \<and> getAccZ f = 1"
  shows "fst (doAveragingCalibration samples d s)"
    and "out_accOffX (fst (snd (doAveragingCalibration samples d s))) = Fin 0"
    and "out_accOffY (fst (snd (doAveragingCalibration samples d s))) = Fin 0"
    and "out_accOffZ (fst (snd (doAveragingCalibration samples d s))) = Fin 0"
proof -
  have pos: "0 < unat samples"
    using assms(1) by (simp add: unat_gt_0)
  have "unat samples < 2 ^ 32"
    using unsigned_less [of samples] by simp
  also have "(2::nat) ^ 32 < 2 ^ 53" by simp
  finally have small: "unat samples < 2 ^ 53" .
  note m = flat_window_means [OF pos small assms(2)]
  show "fst (doAveragingCalibration samples d s)"
    by (simp add: doAveragingCalibration_ok m)
  show "out_accOffX (fst (snd (doAveragingCalibration samples d s))) = Fin 0"
    by (simp add: doAveragingCalibration_out m)
  show "out_accOffY (fst (snd (doAveragingCalibration samples d s))) = Fin 0"
    by (simp add: doAveragingCalibration_out m)
  show "out_accOffZ (fst (snd (doAveragingCalibration samples d s))) = Fin 0"
    by (simp add: doAveragingCalibration_out m)
qed

lemma doAveragingCalibration_no_samples:
  "fst (doAveragingCalibration 0 d s)"
  "fst (snd (doAveragingCalibration 0 d s)) =
     \<lparr>out_accOffX = NaN, out_accOffY = NaN, out_accOffZ = NaN,
      out_gyrOffX = NaN, out_gyrOffY = NaN, out_gyrOffZ = NaN\<rparr>"
  by (simp_all add: doAveragingCalibration_ok doAveragingCalibration_out calibration_window_0
      float_mean_def double_sum_def ddiv_def fsub_def xsub_def)

lemma one_ulp_window:
  "calibration_window (Suc n) bench_one_ulp =
     flat_frame # replicate n (flat_frame\<lparr>getAccZ := 1 + 1 / 8388608\<rparr>)"
  by (rule window_first_rest) (simp_all add: bench_one_ulp_def bench_flat_def)

lemma near_half_window:
  "calibration_window (Suc n) bench_near_half =
     flat_frame\<lparr>getAccZ := 16777215 / 33554432\<rparr> # replicate n (flat_frame\<lparr>getAccZ := 1 / 2\<rparr>)"
  by (rule window_first_rest) (simp_all add: bench_near_half_def bench_flat_def)

lemma one_ulp_sum:
  assumes "n < 2 ^ 28"
  shows "double_sum (1 # replicate n (1 + 1 / 8388608)) =
           Fin (1 + real n * (1 + 1 / 8388608))"
proof -
  have "int (Suc n) \<le> int (2 ^ 28)"
    using assms by (simp only: of_nat_le_iff)
  then have len: "int (length ((1::real) # replicate n (1 + 1 / 8388608))) * 2 ^ 24 < 2 ^ 53"
    by simp
  have grid: "\<forall>x\<in>set (1 # replicate n (1 + 1 / 8388608)).
      \<exists>m. x = of_int m * pow2 (- 23) \<and> \<bar>m\<bar> \<le> 2 ^ 24"
    by (rule grid_first_rest [where ma = 8388608 and mb = 8388609]) (simp_all add: pow2_def)
  have "double_sum (1 # replicate n (1 + 1 / 8388608)) =
      Fin (sum_list (1 # replicate n (1 + 1 / 8388608)))"
    by (rule double_sum_exact [OF grid len]) simp_all
  then show ?thesis
    by (simp add: sum_list_replicate)
qed

lemma near_half_sum:
  assumes "n < 2 ^ 28"
  shows "double_sum (16777215 / 33554432 # replicate n (1 / 2)) =
           Fin (16777215 / 33554432 + real n / 2)"
proof -
  have "int (Suc n) \<le> int (2 ^ 28)"
    using assms by (simp only: of_nat_le_iff)
  then have len: "int (length ((16777215 / 33554432 :: real) # replicate n (1 / 2))) * 2 ^ 24 < 2 ^ 53"
    by simp
  have grid: "\<forall>x\<in>set (16777215 / 33554432 # replicate n (1 / 2)).
      \<exists>m. x = of_int m * pow2 (- 25) \<and> \<bar>m\<bar> \<le> 2 ^ 24"
    by (rule grid_first_rest [where ma = 16777215 and mb = 16777216]) (simp_all add: pow2_def)
  have "double_sum (16777215 / 33554432 # replicate n (1 / 2)) =
      Fin (sum_list (16777215 / 33554432 # replicate n (1 / 2)))"
    by (rule double_sum_exact [OF grid len]) simp_all
  then show ?thesis
    by (simp add: sum_list_replicate)
qed

lemma one_ulp_mean_2: "float_mean [1, 1 + 1 / 8388608] = Fin 1"
proof (rule float_mean_squeeze [where a = "1 + 1 / 16777216" and b = "1 + 1 / 16777216"])
  show "[1, 1 + 1 / 8388608] \<noteq> ([]::real list)" by simp
  show "double_sum [1, 1 + 1 / 8388608] = Fin (1 + real 1 * (1 + 1 / 8388608))"
    using one_ulp_sum [of 1] by simp
  show "1 + 1 / 16777216 \<le> (1 + real 1 * (1 + 1 / 8388608)) / real (length [1::real, 1 + 1 / 8388608])"
    by simp
  show "(1 + real 1 * (1 + 1 / 8388608)) / real (length [1::real, 1 + 1 / 8388608]) \<le> 1 + 1 / 16777216"
    by simp
  show "to_double (Fin (1 + 1 / 16777216)) = Fin (1 + 1 / 16777216)"
    by (rule to_double_exact [where m = 16777217 and j = "- 24"]) (simp_all add: pow2_def)
  then show "to_double (Fin (1 + 1 / 16777216)) = Fin (1 + 1 / 16777216)" .
  show "to_float (Fin (1 + 1 / 16777216)) = Fin 1"
    by (rule to_float_eval [where k = 0]) (simp_all add: pow2_def rne_def)
  then show "to_float (Fin (1 + 1 / 16777216)) = Fin 1" .
qed

lemma one_ulp_mean_800: "float_mean (1 # replicate 799 (1 + 1 / 8388608)) = Fin (1 + 1 / 8388608)"
proof (rule float_mean_squeeze [where a = "1 + 3 / 33554432" and b = "1 + 1 / 8388608"])
  show "1 # replicate 799 (1 + 1 / 8388608) \<noteq> ([]::real list)" by simp
  show "double_sum (1 # replicate 799 (1 + 1 / 8388608)) = Fin (1 + real 799 * (1 + 1 / 8388608))"
    by (rule one_ulp_sum) simp
  show "1 + 3 / 33554432 \<le>
      (1 + real 799 * (1 + 1 / 8388608)) / real (length ((1::real) # replicate 799 (1 + 1 / 8388608)))"
    by simp
  show "(1 + real 799 * (1 + 1 / 8388608)) / real (length ((1::real) # replicate 799 (1 + 1 / 8388608)))
      \<le> 1 + 1 / 8388608"
    by simp
  show "to_double (Fin (1 + 3 / 33554432)) = Fin (1 + 3 / 33554432)"
    by (rule to_double_exact [where m = 33554435 and j = "- 25"]) (simp_all add: pow2_def)
  show "to_double (Fin (1 + 1 / 8388608)) = Fin (1 + 1 / 8388608)"
    by (rule to_double_exact [where m = 8388609 and j = "- 23"]) (simp_all add: pow2_def)
  show "to_float (Fin (1 + 3 / 33554432)) = Fin (1 + 1 / 8388608)"
    by (rule to_float_eval [where k = 0]) (simp_all add: pow2_def rne_def)
  show "to_float (Fin (1 + 1 / 8388608)) = Fin (1 + 1 / 8388608)"
    by (rule to_float_exact [where m = 8388609 and j = "- 23"]) (simp_all add: pow2_def)
qed

lemma near_half_mean_800: "float_mean (16777215 / 33554432 # replicate 799 (1 / 2)) = Fin (1 / 2)"
proof (rule float_mean_squeeze [where a = "67108863 / 134217728" and b = "1 / 2"])
  show "16777215 / 33554432 # replicate 799 (1 / 2) \<noteq> ([]::real list)" by simp
  show "double_sum (16777215 / 33554432 # replicate 799 (1 / 2)) =
      Fin (16777215 / 33554432 + real 799 / 2)"
    by (rule near_half_sum) simp
  show "67108863 / 134217728 \<le> (16777215 / 33554432 + real 799 / 2) /
      real (length ((16777215 / 33554432 :: real) # replicate 799 (1 / 2)))"
    by simp
  show "(16777215 / 33554432 + real 799 / 2) /
      real (length ((16777215 / 33554432 :: real) # replicate 799 (1 / 2))) \<le> 1 / 2"
    by simp
  show "to_double (Fin (67108863 / 134217728)) = Fin (67108863 / 134217728)"
    by (rule to_double_exact [where m = 67108863 and j = "- 27"]) (simp_all add: pow2_def)
  show "to_double (Fin (1 / 2)) = Fin (1 / 2)"
    by (rule to_double_exact [where m = 1 and j = "- 1"]) (simp_all add: pow2_def)
  show "to_float (Fin (67108863 / 134217728)) = Fin (1 / 2)"
    by (rule to_float_eval [where k = "- 2"]) (simp_all add: pow2_def rne_def)
  show "to_float (Fin (1 / 2)) = Fin (1 / 2)"
    by (rule to_float_exact [where m = 1 and j = "- 1"]) (simp_all add: pow2_def)
qed

subsection \<open>The calibrate handler\<close>

lemma handleCalibrate_eq:
  "handleCalibrate rq s =
     (if \<not> checkAuth rq then server_send RequestAuthentication s
      else if \<not> fst (doAveragingCalibration 800 3 s) then
        s\<lparr>mpu_cur := last (mpu_cur s # calibration_window 800 s),
          mpu_updates := mpu_updates s + 800,
          clock := clock s + 200 + 800 * 3,
          serial := serial s @ [''Calibration: keep MPU perfectly still and flat.'',
                    ''Calibration failed (sensor not stable or orientation unexpected).''],
          http_out := http_out s @ [Send 200 ''application/json'' (JsonObject [(''ok'', JBool False)])]\<rparr>
      else
        (let out = fst (snd (doAveragingCalibration 800 3 s)) in
         saveOffsetsToPrefs
           (s\<lparr>accOffX := out_accOffX out, accOffY := out_accOffY out, accOffZ := out_accOffZ out,
              gyrOffX := out_gyrOffX out, gyrOffY := out_gyrOffY out, gyrOffZ := out_gyrOffZ out,
              mpu_cur := last (mpu_cur s # calibration_window 800 s),
              mpu_updates := mpu_updates s + 800,
              clock := clock s + 200 + 800 * 3,
              serial := serial s @ [''Calibration: keep MPU perfectly still and flat.'']\<rparr>)
           \<lparr>http_out := http_out s @
              [Send 200 ''application/json''
                 (JsonObject [(''ok'', JBool True),
                              (''accOffX'', JFloat (out_accOffX out) 6),
                              (''accOffY'', JFloat (out_accOffY out) 6),
                              (''accOffZ'', JFloat (out_accOffZ out) 6),
                              (''gyrOffX'', JFloat (out_gyrOffX out) 4),
                              (''gyrOffY'', JFloat (out_gyrOffY out) 4),
                              (''gyrOffZ'', JFloat (out_gyrOffZ out) 4)])]\<rparr>))"
proof -
  define s1 where "s1 = Serial_println ''Calibration: keep MPU perfectly still and flat.'' s"
  have w: "calibration_window n s1 = calibration_window n s" for n
    by (rule calibration_window_cong) (simp_all add: s1_def Serial_println_def)
  have ok: "fst (doAveragingCalibration 800 3 s1) = fst (doAveragingCalibration 800 3 s)"
    by (simp only: doAveragingCalibration_ok w)
  have out: "fst (snd (doAveragingCalibration 800 3 s1)) = fst (snd (doAveragingCalibration 800 3 s))"
    by (simp only: doAveragingCalibration_out w)
  have st: "snd (snd (doAveragingCalibration 800 3 s1)) =
      s\<lparr>mpu_cur := last (mpu_cur s # calibration_window 800 s),
        mpu_updates := mpu_updates s + 800,
        clock := clock s + 200 + 800 * 3,
        serial := serial s @ [''Calibration: keep MPU perfectly still and flat.'']\<rparr>"
    by (simp add: doAveragingCalibration_state w) (simp add: s1_def Serial_println_def)
  show ?thesis
    unfolding handleCalibrate_def s1_def [symmetric]
    by (simp add: Let_def split_beta ok out st saveOffsetsToPrefs_eq server_send_def
        Serial_println_def)
qed

lemma handleCalibrate_offsets:
  "active_offsets (handleCalibrate rq s) =
     (if checkAuth rq \<and> fst (doAveragingCalibration 800 3 s)
      then returned_offsets (fst (snd (doAveragingCalibration 800 3 s)))
      else active_offsets s)"
  by (simp add: handleCalibrate_eq active_offsets_def returned_offsets_def server_send_def
      saveOffsetsToPrefs_eq Let_def)

lemma handleCalibrate_nvs_fail:
  "\<not> fst (doAveragingCalibration 800 3 s) \<Longrightarrow> nvs (handleCalibrate rq s) = nvs s"
  by (simp add: handleCalibrate_eq server_send_def)

lemma unat_800: "unat (800 :: 32 word) = 800"
  by simp

lemma checkAuth_authorized_calibrate: "checkAuth authorized_calibrate"
  by (simp add: checkAuth_def USE_BASIC_AUTH_def authorized_calibrate_def)

text \<open>
  C1, as stated, does not hold: the offsets are computed in floating point. On
  \<open>bench_one_ulp\<close> a run over two samples gets \<open>accZ = 1\<close> and \<open>accZ = 1 + 2\<^sup>-\<^sup>2\<^sup>3\<close>, both
  \<^verbatim>\<open>float\<close> values; their mean minus 1 is \<open>2\<^sup>-\<^sup>2\<^sup>4\<close>, the offset returned is 0. The run of the
  \<^verbatim>\<open>/calibrate\<close> handler over 800 samples there sets \<open>accOffZ\<close> to \<open>2\<^sup>-\<^sup>2\<^sup>3\<close>, the mean minus 1
  is \<open>799 / 800\<close> of that.
\<close>

theorem calibration_bias_differs_from_exact_mean:
  "map getAccZ (calibration_window 2 bench_one_ulp) = [1, 1 + 1 / 8388608]
   \<and> is_float 1 \<and> is_float (1 + 1 / 8388608)
   \<and> arithmetic_mean (map getAccZ (calibration_window 2 bench_one_ulp)) - 1 = 1 / 16777216
   \<and> out_accOffZ (fst (snd (doAveragingCalibration 2 3 bench_one_ulp))) = Fin 0
   \<and> checkAuth authorized_calibrate
   \<and> arithmetic_mean (map getAccZ (calibration_window 800 bench_one_ulp)) - 1 = 799 / 6710886400
   \<and> accOffZ (handleCalibrate authorized_calibrate bench_one_ulp) = Fin (1 / 8388608)"
proof -
  have w2: "calibration_window 2 bench_one_ulp =
      [flat_frame, flat_frame\<lparr>getAccZ := 1 + 1 / 8388608\<rparr>]"
    using one_ulp_window [of "Suc 0"] by (simp add: numeral_2_eq_2)
  have w800: "calibration_window 800 bench_one_ulp =
      flat_frame # replicate 799 (flat_frame\<lparr>getAccZ := 1 + 1 / 8388608\<rparr>)"
    using one_ulp_window [of 799] by simp
  have z2: "map getAccZ (calibration_window 2 bench_one_ulp) = [1, 1 + 1 / 8388608]"
    by (simp add: w2 flat_frame_def)
  have z800: "map getAccZ (calibration_window 800 bench_one_ulp) =
      1 # replicate 799 (1 + 1 / 8388608)"
    by (simp add: w800 flat_frame_def)
  have m2: "arithmetic_mean (map getAccZ (calibration_window 2 bench_one_ulp)) - 1 = 1 / 16777216"
    by (simp add: z2 arithmetic_mean_def)
  have m800: "arithmetic_mean (map getAccZ (calibration_window 800 bench_one_ulp)) - 1 =
      799 / 6710886400"
    by (simp add: z800 arithmetic_mean_def sum_list_replicate)
  have "out_accOffZ (fst (snd (doAveragingCalibration 2 3 bench_one_ulp))) =
      fsub (float_mean (map getAccZ (calibration_window 2 bench_one_ulp))) (Fin 1)"
    by (simp add: doAveragingCalibration_out)
  also have "\<dots> = Fin 0"
    by (simp only: z2 one_ulp_mean_2 fsub_same)
  finally have o2: "out_accOffZ (fst (snd (doAveragingCalibration 2 3 bench_one_ulp))) = Fin 0" .
  have "to_float (Fin (1 / 8388608)) = Fin (1 / 8388608)"
    by (rule to_float_exact [where m = 1 and j = "- 23"]) (simp_all add: pow2_def)
  then have sub: "fsub (Fin (1 + 1 / 8388608)) (Fin 1) = Fin (1 / 8388608)"
    by (simp add: fsub_def xsub_def)
  have "\<not> flt (xabs (float_mean (map getAccZ (calibration_window 800 bench_one_ulp)))) (Fin (1 / 2))"
    unfolding z800 one_ulp_mean_800 by simp
  then have ok: "fst (doAveragingCalibration 800 3 bench_one_ulp)"
    by (simp add: doAveragingCalibration_ok)
  have "active_offsets (handleCalibrate authorized_calibrate bench_one_ulp) =
      returned_offsets (fst (snd (doAveragingCalibration 800 3 bench_one_ulp)))"
    using ok checkAuth_authorized_calibrate by (simp add: handleCalibrate_offsets)
  then have "accOffZ (handleCalibrate authorized_calibrate bench_one_ulp) =
      out_accOffZ (fst (snd (doAveragingCalibration 800 3 bench_one_ulp)))"
    by (simp add: active_offsets_def returned_offsets_def)
  also have "\<dots> = fsub (float_mean (map getAccZ (calibration_window 800 bench_one_ulp))) (Fin 1)"
    by (simp add: doAveragingCalibration_out)
  also have "\<dots> = Fin (1 / 8388608)"
    by (simp only: z800 one_ulp_mean_800 sub)
  finally have o800: "accOffZ (handleCalibrate authorized_calibrate bench_one_ulp) =
      Fin (1 / 8388608)" .
  show ?thesis
    using z2 is_float_1 is_float_one_ulp m2 o2 checkAuth_authorized_calibrate m800 o800
    by blast
qed

text \<open>
  C1, amended. For every calibration run, the accelerometer offsets returned are the
  per-channel means of the raw accelerometer samples as the sketch computes them (the
  samples added in order in \<^verbatim>\<open>double\<close>, the sum divided by the sample count in
  \<^verbatim>\<open>double\<close>, the quotient rounded to \<^verbatim>\<open>float\<close>) minus \<open>(0, 0, 1)\<close> in \<^verbatim>\<open>float\<close>
  arithmetic, and the gyroscope offsets are the per-channel means of the raw gyroscope
  samples computed in the same way. In a run of at least one and at most 1024 samples
  (the \<^verbatim>\<open>/calibrate\<close> handler takes 800) whose accelerations are at most \<open>2\<^sup>a\<close> and whose
  angular rates are at most \<open>2\<^sup>g\<close> in absolute value, every offset returned is a finite
  number, an accelerometer offset at most \<open>2\<^sup>a\<^sup>-\<^sup>2\<^sup>2\<close> away from the arithmetic mean minus
  the expected value and a gyroscope offset at most \<open>2\<^sup>g\<^sup>-\<^sup>2\<^sup>3\<close> away from the arithmetic
  mean. When the run has at least one sample and every sample has acceleration
  \<open>(0, 0, 1)\<close>, the three accelerometer offsets returned are zero, and so are \<open>accOffX\<close>,
  \<open>accOffY\<close>, \<open>accOffZ\<close> after an authorised \<^verbatim>\<open>/calibrate\<close> request.
\<close>

theorem calibration_bias_is_float_mean_minus_expected:
  "fst (snd (doAveragingCalibration samples sampleDelayMs s)) =
      \<lparr>out_accOffX = fsub (float_mean (map getAccX (calibration_window (unat samples) s))) (Fin 0),
       out_accOffY = fsub (float_mean (map getAccY (calibration_window (unat samples) s))) (Fin 0),
       out_accOffZ = fsub (float_mean (map getAccZ (calibration_window (unat samples) s))) (Fin 1),
       out_gyrOffX = float_mean (map getGyroX (calibration_window (unat samples) s)),
       out_gyrOffY = float_mean (map getGyroY (calibration_window (unat samples) s)),
       out_gyrOffZ = float_mean (map getGyroZ (calibration_window (unat samples) s))\<rparr>
    \<and> (samples \<noteq> 0 \<and> unat samples \<le> 1024 \<and> a \<le> 40 \<and> g \<le> 40
        \<and> (\<forall>f\<in>set (calibration_window (unat samples) s).
              \<bar>getAccX f\<bar> \<le> 2 ^ a \<and> \<bar>getAccY f\<bar> \<le> 2 ^ a \<and> \<bar>getAccZ f\<bar> \<le> 2 ^ a
              \<and> \<bar>getGyroX f\<bar> \<le> 2 ^ g \<and> \<bar>getGyroY f\<bar> \<le> 2 ^ g \<and> \<bar>getGyroZ f\<bar> \<le> 2 ^ g) \<longrightarrow>
         close_to (out_accOffX (fst (snd (doAveragingCalibration samples sampleDelayMs s))))
           (arithmetic_mean (map getAccX (calibration_window (unat samples) s)) - 0) (2 ^ a / 2 ^ 22)
         \<and> close_to (out_accOffY (fst (snd (doAveragingCalibration samples sampleDelayMs s))))
           (arithmetic_mean (map getAccY (calibration_window (unat samples) s)) - 0) (2 ^ a / 2 ^ 22)
         \<and> close_to (out_accOffZ (fst (snd (doAveragingCalibration samples sampleDelayMs s))))
           (arithmetic_mean (map getAccZ (calibration_window (unat samples) s)) - 1) (2 ^ a / 2 ^ 22)
         \<and> close_to (out_gyrOffX (fst (snd (doAveragingCalibration samples sampleDelayMs s))))
           (arithmetic_mean (map getGyroX (calibration_window (unat samples) s))) (2 ^ g / 2 ^ 23)
         \<and> close_to (out_gyrOffY (fst (snd (doAveragingCalibration samples sampleDelayMs s))))
           (arithmetic_mean (map getGyroY (calibration_window (unat samples) s))) (2 ^ g / 2 ^ 23)
         \<and> close_to (out_gyrOffZ (fst (snd (doAveragingCalibration samples sampleDelayMs s))))
           (arithmetic_mean (map getGyroZ (calibration_window (unat samples) s))) (2 ^ g / 2 ^ 23))
    \<and> (samples \<noteq> 0 \<and> (\<forall>f\<in>set (calibration_window (unat samples) s).
            getAccX f = 0 \<and> getAccY f = 0 \<and> getAccZ f = 1) \<longrightarrow>
         out_accOffX (fst (snd (doAveragingCalibration samples sampleDelayMs s))) = Fin 0
         \<and> out_accOffY (fst (snd (doAveragingCalibration samples sampleDelayMs s))) = Fin 0
         \<and> out_accOffZ (fst (snd (doAveragingCalibration samples sampleDelayMs s))) = Fin 0)
    \<and> (checkAuth rq \<and> (\<forall>f\<in>set (calibration_window 800 s).
            getAccX f = 0 \<and> getAccY f = 0 \<and> getAccZ f = 1) \<longrightarrow>
         accOffX (handleCalibrate rq s) = Fin 0
         \<and> accOffY (handleCalibrate rq s) = Fin 0
         \<and> accOffZ (handleCalibrate rq s) = Fin 0)"
proof (intro conjI impI)
  show "fst (snd (doAveragingCalibration samples sampleDelayMs s)) =
      \<lparr>out_accOffX = fsub (float_mean (map getAccX (calibration_window (unat samples) s))) (Fin 0),
       out_accOffY = fsub (float_mean (map getAccY (calibration_window (unat samples) s))) (Fin 0),
       out_accOffZ = fsub (float_mean (map getAccZ (calibration_window (unat samples) s))) (Fin 1),
       out_gyrOffX = float_mean (map getGyroX (calibration_window (unat samples) s)),
       out_gyrOffY = float_mean (map getGyroY (calibration_window (unat samples) s)),
       out_gyrOffZ = float_mean (map getGyroZ (calibration_window (unat samples) s))\<rparr>"
    by (rule doAveragingCalibration_out)
next
  assume h: "samples \<noteq> 0 \<and> unat samples \<le> 1024 \<and> a \<le> 40 \<and> g \<le> 40
      \<and> (\<forall>f\<in>set (calibration_window (unat samples) s).
            \<bar>getAccX f\<bar> \<le> 2 ^ a \<and> \<bar>getAccY f\<bar> \<le> 2 ^ a \<and> \<bar>getAccZ f\<bar> \<le> 2 ^ a
            \<and> \<bar>getGyroX f\<bar> \<le> 2 ^ g \<and> \<bar>getGyroY f\<bar> \<le> 2 ^ g \<and> \<bar>getGyroZ f\<bar> \<le> 2 ^ g)"
  define w where "w = calibration_window (unat samples) s"
  have pos: "0 < unat samples"
    using h by (simp add: unat_gt_0)
  have ne: "map c w \<noteq> []" for c :: "mpu_frame \<Rightarrow> real"
    using pos length_calibration_window [of "unat samples" s] by (auto simp add: w_def)
  have len: "length (map c w) \<le> 1024" for c :: "mpu_frame \<Rightarrow> real"
    using h by (simp add: w_def length_calibration_window)
  have ea: "a \<le> 40" and eg: "g \<le> 40"
    using h by simp_all
  have hax: "\<forall>x\<in>set (map getAccX w). \<bar>x\<bar> \<le> 2 ^ a"
    and hay: "\<forall>x\<in>set (map getAccY w). \<bar>x\<bar> \<le> 2 ^ a"
    and haz: "\<forall>x\<in>set (map getAccZ w). \<bar>x\<bar> \<le> 2 ^ a"
    and hgx: "\<forall>x\<in>set (map getGyroX w). \<bar>x\<bar> \<le> 2 ^ g"
    and hgy: "\<forall>x\<in>set (map getGyroY w). \<bar>x\<bar> \<le> 2 ^ g"
    and hgz: "\<forall>x\<in>set (map getGyroZ w). \<bar>x\<bar> \<le> 2 ^ g"
    using h by (simp_all add: w_def)
  show "close_to (out_accOffX (fst (snd (doAveragingCalibration samples sampleDelayMs s))))
      (arithmetic_mean (map getAccX (calibration_window (unat samples) s)) - 0) (2 ^ a / 2 ^ 22)"
    unfolding doAveragingCalibration_out w_def [symmetric] calib_out.simps
    by (rule mean_offset_close_to [OF ne len ea hax]) simp
  show "close_to (out_accOffY (fst (snd (doAveragingCalibration samples sampleDelayMs s))))
      (arithmetic_mean (map getAccY (calibration_window (unat samples) s)) - 0) (2 ^ a / 2 ^ 22)"
    unfolding doAveragingCalibration_out w_def [symmetric] calib_out.simps
    by (rule mean_offset_close_to [OF ne len ea hay]) simp
  show "close_to (out_accOffZ (fst (snd (doAveragingCalibration samples sampleDelayMs s))))
      (arithmetic_mean (map getAccZ (calibration_window (unat samples) s)) - 1) (2 ^ a / 2 ^ 22)"
    unfolding doAveragingCalibration_out w_def [symmetric] calib_out.simps
    by (rule mean_offset_close_to [OF ne len ea haz]) simp
  show "close_to (out_gyrOffX (fst (snd (doAveragingCalibration samples sampleDelayMs s))))
      (arithmetic_mean (map getGyroX (calibration_window (unat samples) s))) (2 ^ g / 2 ^ 23)"
    unfolding doAveragingCalibration_out w_def [symmetric] calib_out.simps
    by (rule float_mean_close_to [OF ne len eg hgx])
  show "close_to (out_gyrOffY (fst (snd (doAveragingCalibration samples sampleDelayMs s))))
      (arithmetic_mean (map getGyroY (calibration_window (unat samples) s))) (2 ^ g / 2 ^ 23)"
    unfolding doAveragingCalibration_out w_def [symmetric] calib_out.simps
    by (rule float_mean_close_to [OF ne len eg hgy])
  show "close_to (out_gyrOffZ (fst (snd (doAveragingCalibration samples sampleDelayMs s))))
      (arithmetic_mean (map getGyroZ (calibration_window (unat samples) s))) (2 ^ g / 2 ^ 23)"
    unfolding doAveragingCalibration_out w_def [symmetric] calib_out.simps
    by (rule float_mean_close_to [OF ne len eg hgz])
next
  assume h: "samples \<noteq> 0 \<and> (\<forall>f\<in>set (calibration_window (unat samples) s).
      getAccX f = 0 \<and> getAccY f = 0 \<and> getAccZ f = 1)"
  then have ne: "samples \<noteq> 0"
    and flat: "\<forall>f\<in>set (calibration_window (unat samples) s).
      getAccX f = 0 \<and> getAccY f = 0 \<and> getAccZ f = 1"
    by simp_all
  show "out_accOffX (fst (snd (doAveragingCalibration samples sampleDelayMs s))) = Fin 0"
    and "out_accOffY (fst (snd (doAveragingCalibration samples sampleDelayMs s))) = Fin 0"
    and "out_accOffZ (fst (snd (doAveragingCalibration samples sampleDelayMs s))) = Fin 0"
    by (rule flat_window_ok [OF ne flat])+
next
  assume h: "checkAuth rq \<and> (\<forall>f\<in>set (calibration_window 800 s).
      getAccX f = 0 \<and> getAccY f = 0 \<and> getAccZ f = 1)"
  then have flat: "\<forall>f\<in>set (calibration_window (unat (800 :: 32 word)) s).
      getAccX f = 0 \<and> getAccY f = 0 \<and> getAccZ f = 1"
    by (simp only: unat_800) simp
  have ne: "(800 :: 32 word) \<noteq> 0" by simp
  have "active_offsets (handleCalibrate rq s) =
      returned_offsets (fst (snd (doAveragingCalibration 800 3 s)))"
    using h flat_window_ok(1) [OF ne flat] by (simp add: handleCalibrate_offsets)
  then have eq: "accOffX (handleCalibrate rq s) = out_accOffX (fst (snd (doAveragingCalibration 800 3 s)))"
      "accOffY (handleCalibrate rq s) = out_accOffY (fst (snd (doAveragingCalibration 800 3 s)))"
      "accOffZ (handleCalibrate rq s) = out_accOffZ (fst (snd (doAveragingCalibration 800 3 s)))"
    by (simp_all add: active_offsets_def returned_offsets_def)
  show "accOffX (handleCalibrate rq s) = Fin 0"
    and "accOffY (handleCalibrate rq s) = Fin 0"
    and "accOffZ (handleCalibrate rq s) = Fin 0"
    by (simp_all only: eq flat_window_ok(2-4) [OF ne flat])
qed

theorem calibration_bias_is_float_mean_minus_expected_witness:
  "(2 :: 32 word) \<noteq> 0 \<and> unat (2 :: 32 word) \<le> 1024 \<and> (1::nat) \<le> 40
   \<and> checkAuth authorized_calibrate
   \<and> set (calibration_window 2 bench_flat) = {flat_frame}
   \<and> set (calibration_window 800 bench_flat) = {flat_frame}
   \<and> getAccX flat_frame = 0 \<and> getAccY flat_frame = 0 \<and> getAccZ flat_frame = 1
   \<and> \<bar>getAccX flat_frame\<bar> \<le> 2 ^ 1 \<and> \<bar>getAccY flat_frame\<bar> \<le> 2 ^ 1 \<and> \<bar>getAccZ flat_frame\<bar> \<le> 2 ^ 1
   \<and> \<bar>getGyroX flat_frame\<bar> \<le> 2 ^ 1 \<and> \<bar>getGyroY flat_frame\<bar> \<le> 2 ^ 1 \<and> \<bar>getGyroZ flat_frame\<bar> \<le> 2 ^ 1
   \<and> fst (snd (doAveragingCalibration 2 3 bench_flat)) =
       \<lparr>out_accOffX = Fin 0, out_accOffY = Fin 0, out_accOffZ = Fin 0,
        out_gyrOffX = Fin 0, out_gyrOffY = Fin 0, out_gyrOffZ = Fin 0\<rparr>
   \<and> close_to (Fin 0) (arithmetic_mean [1, 1] - 1) (2 ^ 1 / 2 ^ 22)
   \<and> accOffX (handleCalibrate authorized_calibrate bench_flat) = Fin 0
   \<and> accOffY (handleCalibrate authorized_calibrate bench_flat) = Fin 0
   \<and> accOffZ (handleCalibrate authorized_calibrate bench_flat) = Fin 0"
proof -
  have f: "mpu_feed bench_flat = (\<lambda>k. flat_frame)"
    by (simp add: bench_flat_def)
  have w: "calibration_window n bench_flat = replicate n flat_frame" for n
    by (rule calibration_window_const [OF f])
  have u: "unat (2 :: 32 word) = 2" by simp
  have c: "close_to (Fin 0) (arithmetic_mean [1, 1] - 1) (2 ^ 1 / 2 ^ 22)"
    by (simp add: close_to_def arithmetic_mean_def)
  show ?thesis
    using calibration_bias_is_float_mean_minus_expected
            [of 2 3 bench_flat 1 1 authorized_calibrate]
      checkAuth_authorized_calibrate c
    by (simp add: w u flat_frame_def float_mean_replicate_0 float_mean_replicate_1)
qed

text \<open>
  C2, as stated, does not hold: the check is made on the mean computed in floating
  point. On \<open>bench_near_half\<close> the first of the 800 samples of the \<^verbatim>\<open>/calibrate\<close> handler
  has \<open>accZ = 0.49999997f\<close> and the others \<open>accZ = 0.5\<close>. The mean is less than 0.5, the
  mean computed is 0.5: the calibration succeeds, \<open>accOffZ\<close> becomes \<open>-0.5\<close> and the
  offsets are stored.
\<close>

theorem mean_below_half_calibration_succeeds:
  "checkAuth authorized_calibrate
   \<and> \<bar>arithmetic_mean (map getAccZ (calibration_window 800 bench_near_half))\<bar> < 1 / 2
   \<and> fst (doAveragingCalibration 800 3 bench_near_half)
   \<and> accOffZ bench_near_half = Fin (- (53148 / 1000000))
   \<and> accOffZ (handleCalibrate authorized_calibrate bench_near_half) = Fin (- (1 / 2))
   \<and> nvs bench_near_half (''mpu'', ''ok'') = None
   \<and> nvs (handleCalibrate authorized_calibrate bench_near_half) (''mpu'', ''ok'') =
       Some (NvsBool True)"
proof -
  have w800: "calibration_window 800 bench_near_half =
      flat_frame\<lparr>getAccZ := 16777215 / 33554432\<rparr> # replicate 799 (flat_frame\<lparr>getAccZ := 1 / 2\<rparr>)"
    using near_half_window [of 799] by simp
  have z800: "map getAccZ (calibration_window 800 bench_near_half) =
      16777215 / 33554432 # replicate 799 (1 / 2)"
    by (simp add: w800)
  have m: "\<bar>arithmetic_mean (map getAccZ (calibration_window 800 bench_near_half))\<bar> < 1 / 2"
    by (simp add: z800 arithmetic_mean_def sum_list_replicate)
  have "\<not> flt (xabs (float_mean (map getAccZ (calibration_window 800 bench_near_half)))) (Fin (1 / 2))"
    unfolding z800 near_half_mean_800 by simp
  then have ok: "fst (doAveragingCalibration 800 3 bench_near_half)"
    by (simp add: doAveragingCalibration_ok)
  have "to_float (Fin (- (1 / 2))) = Fin (- (1 / 2))"
    by (rule to_float_exact [where m = "- 1" and j = "- 1"]) (simp_all add: pow2_def)
  then have sub: "fsub (Fin (1 / 2)) (Fin 1) = Fin (- (1 / 2))"
    by (simp add: fsub_def xsub_def)
  have "active_offsets (handleCalibrate authorized_calibrate bench_near_half) =
      returned_offsets (fst (snd (doAveragingCalibration 800 3 bench_near_half)))"
    using ok checkAuth_authorized_calibrate by (simp add: handleCalibrate_offsets)
  then have "accOffZ (handleCalibrate authorized_calibrate bench_near_half) =
      out_accOffZ (fst (snd (doAveragingCalibration 800 3 bench_near_half)))"
    by (simp add: active_offsets_def returned_offsets_def)
  also have "\<dots> = fsub (float_mean (map getAccZ (calibration_window 800 bench_near_half))) (Fin 1)"
    by (simp add: doAveragingCalibration_out)
  also have "\<dots> = Fin (- (1 / 2))"
    by (simp only: z800 near_half_mean_800 sub)
  finally have o: "accOffZ (handleCalibrate authorized_calibrate bench_near_half) =
      Fin (- (1 / 2))" .
  have before: "accOffZ bench_near_half = Fin (- (53148 / 1000000))"
      "nvs bench_near_half (''mpu'', ''ok'') = None"
    by (simp_all add: bench_near_half_def bench_flat_def)
  have after: "nvs (handleCalibrate authorized_calibrate bench_near_half) (''mpu'', ''ok'') =
      Some (NvsBool True)"
    using ok checkAuth_authorized_calibrate
    by (simp add: handleCalibrate_eq Let_def saveOffsetsToPrefs_eq)
  show ?thesis
    using checkAuth_authorized_calibrate m ok before o after by blast
qed

text \<open>
  C2, amended. A calibration run returns \<open>false\<close> exactly when the mean of the Z
  acceleration as the sketch computes it (the samples added in order in \<^verbatim>\<open>double\<close>, the
  sum divided by the sample count in \<^verbatim>\<open>double\<close>, the quotient rounded to \<^verbatim>\<open>float\<close>) is
  less than 0.5 in absolute value. When the run of the \<^verbatim>\<open>/calibrate\<close> handler (800
  samples) has such a mean, the six offset globals and the store are as before, and an
  authorised request is answered \<open>{"ok":false}\<close>. A run of at least one and at most
  \<open>2\<^sup>2\<^sup>9\<close> samples in which every Z acceleration is a \<^verbatim>\<open>float\<close> less than 0.5 in absolute
  value has such a mean.
\<close>

theorem calibration_fails_on_small_float_mean:
  "fst (doAveragingCalibration samples sampleDelayMs s) =
     (\<not> flt (xabs (float_mean (map getAccZ (calibration_window (unat samples) s)))) (Fin (1 / 2)))
   \<and> (flt (xabs (float_mean (map getAccZ (calibration_window 800 s)))) (Fin (1 / 2)) \<longrightarrow>
        \<not> fst (doAveragingCalibration 800 3 s)
        \<and> active_offsets (handleCalibrate rq s) = active_offsets s
        \<and> nvs (handleCalibrate rq s) = nvs s
        \<and> (checkAuth rq \<longrightarrow>
             http_out (handleCalibrate rq s) =
               http_out s @ [Send 200 ''application/json'' (JsonObject [(''ok'', JBool False)])]))
   \<and> (0 < n \<and> n \<le> 2 ^ 29
        \<and> (\<forall>f\<in>set (calibration_window n s). is_float (getAccZ f) \<and> \<bar>getAccZ f\<bar> < 1 / 2) \<longrightarrow>
        flt (xabs (float_mean (map getAccZ (calibration_window n s)))) (Fin (1 / 2)))"
proof (intro conjI impI)
  show "fst (doAveragingCalibration samples sampleDelayMs s) =
     (\<not> flt (xabs (float_mean (map getAccZ (calibration_window (unat samples) s)))) (Fin (1 / 2)))"
    by (rule doAveragingCalibration_ok)
next
  assume m: "flt (xabs (float_mean (map getAccZ (calibration_window 800 s)))) (Fin (1 / 2))"
  show fail: "\<not> fst (doAveragingCalibration 800 3 s)"
    using m by (simp add: doAveragingCalibration_ok)
  show "active_offsets (handleCalibrate rq s) = active_offsets s"
    using fail by (simp add: handleCalibrate_offsets)
  show "nvs (handleCalibrate rq s) = nvs s"
    using fail by (rule handleCalibrate_nvs_fail)
  show "http_out (handleCalibrate rq s) =
      http_out s @ [Send 200 ''application/json'' (JsonObject [(''ok'', JBool False)])]"
    if "checkAuth rq"
    using fail that by (simp add: handleCalibrate_eq)
next
  assume a: "0 < n \<and> n \<le> 2 ^ 29
      \<and> (\<forall>f\<in>set (calibration_window n s). is_float (getAccZ f) \<and> \<bar>getAccZ f\<bar> < 1 / 2)"
  have ne: "map getAccZ (calibration_window n s) \<noteq> []"
    using a length_calibration_window [of n s] by auto
  show "flt (xabs (float_mean (map getAccZ (calibration_window n s)))) (Fin (1 / 2))"
    using a by (intro float_mean_below_half ne) (simp_all add: length_calibration_window)
qed

theorem calibration_fails_on_small_float_mean_witness:
  "checkAuth authorized_calibrate
   \<and> (0::nat) < 800 \<and> (800::nat) \<le> 2 ^ 29
   \<and> set (calibration_window 800 bench_on_side) = {side_frame}
   \<and> is_float (getAccZ side_frame) \<and> \<bar>getAccZ side_frame\<bar> < 1 / 2
   \<and> flt (xabs (float_mean (map getAccZ (calibration_window 800 bench_on_side)))) (Fin (1 / 2))
   \<and> \<not> fst (doAveragingCalibration 800 3 bench_on_side)
   \<and> active_offsets (handleCalibrate authorized_calibrate bench_on_side) =
       active_offsets bench_on_side
   \<and> nvs (handleCalibrate authorized_calibrate bench_on_side) = Map.empty
   \<and> http_out (handleCalibrate authorized_calibrate bench_on_side) =
       [Send 200 ''application/json'' (JsonObject [(''ok'', JBool False)])]"
proof -
  have f: "mpu_feed bench_on_side = (\<lambda>k. side_frame)"
    by (simp add: bench_on_side_def)
  have w: "calibration_window 800 bench_on_side = replicate 800 side_frame"
    by (rule calibration_window_const [OF f])
  have st: "nvs bench_on_side = Map.empty" "http_out bench_on_side = []"
    by (simp_all add: bench_on_side_def bench_flat_def)
  have z: "is_float (getAccZ side_frame)" "\<bar>getAccZ side_frame\<bar> < 1 / 2"
    by (simp_all add: side_frame_def is_float_0)
  have u: "unat (800 :: 32 word) = 800" by simp
  show ?thesis
    using calibration_fails_on_small_float_mean
            [of 800 3 bench_on_side authorized_calibrate 800]
      checkAuth_authorized_calibrate z
    by (simp add: st w u)
qed

text \<open>
  C8. The calibration engine leaves the six offset globals as they were, for every
  sample count, delay and state; the \<^verbatim>\<open>/calibrate\<close> handler replaces them by the
  returned offsets exactly when the request is authorised and the engine returned
  \<open>true\<close>, and leaves them as they were otherwise.
\<close>

theorem calibration_engine_keeps_active_offsets:
  "active_offsets (snd (snd (doAveragingCalibration samples sampleDelayMs s))) = active_offsets s
   \<and> active_offsets (handleCalibrate rq s) =
       (if checkAuth rq \<and> fst (doAveragingCalibration 800 3 s)
        then returned_offsets (fst (snd (doAveragingCalibration 800 3 s)))
        else active_offsets s)"
  by (simp add: doAveragingCalibration_state active_offsets_def handleCalibrate_offsets [unfolded active_offsets_def])

theorem calibration_engine_keeps_active_offsets_witness:
  "active_offsets (snd (snd (doAveragingCalibration 800 3 bench_flat))) = active_offsets bench_flat
   \<and> active_offsets (handleCalibrate authorized_calibrate bench_flat) =
       (Fin 0, Fin 0, Fin 0, Fin 0, Fin 0, Fin 0)
   \<and> active_offsets (handleCalibrate authorized_calibrate bench_on_side) =
       active_offsets bench_on_side"
proof -
  have wf: "calibration_window 800 bench_flat = replicate 800 flat_frame"
    by (rule calibration_window_const) (simp add: bench_flat_def)
  have ws: "calibration_window 800 bench_on_side = replicate 800 side_frame"
    by (rule calibration_window_const) (simp add: bench_on_side_def)
  have okf: "fst (doAveragingCalibration 800 3 bench_flat)"
    by (simp add: doAveragingCalibration_ok wf flat_frame_def float_mean_replicate_1)
  have oks: "\<not> fst (doAveragingCalibration 800 3 bench_on_side)"
    by (simp add: doAveragingCalibration_ok ws side_frame_def float_mean_replicate_0)
  have outf: "returned_offsets (fst (snd (doAveragingCalibration 800 3 bench_flat))) =
      (Fin 0, Fin 0, Fin 0, Fin 0, Fin 0, Fin 0)"
    by (simp add: doAveragingCalibration_out wf flat_frame_def returned_offsets_def
        float_mean_replicate_0 float_mean_replicate_1)
  show ?thesis
    using calibration_engine_keeps_active_offsets [of 800 3 bench_flat authorized_calibrate]
      calibration_engine_keeps_active_offsets [of 800 3 bench_on_side authorized_calibrate]
      checkAuth_authorized_calibrate okf oks outf
    by simp
qed

subsection \<open>Reading the sensors\<close>

lemma readSensors_state: "snd (readSensors s) = mpu_update s"
  by (simp add: readSensors_def Let_def split_beta)

lemma readSensors_reading:
  "fst (readSensors s) =
     \<lparr>esp_ms = clock s,
      temperature = (if bmp_ok s then bmp_temperature s else Fin 0),
      pressure = (if bmp_ok s then fdiv (bmp_pressure s) (Fin 100) else Fin 0),
      altitude = (if bmp_ok s then bmp_altitude s else Fin 0),
      angleX = to_degrees (libm_atan2f s
                 (fsub (Fin (getAccY (mpu_feed s (mpu_updates s)))) (accOffY s))
                 (fsub (Fin (getAccZ (mpu_feed s (mpu_updates s)))) (accOffZ s))),
      angleY = to_degrees (libm_atan2f s
                 (xneg (fsub (Fin (getAccX (mpu_feed s (mpu_updates s)))) (accOffX s)))
                 (fsqrt (fadd
                    (fmul (fsub (Fin (getAccY (mpu_feed s (mpu_updates s)))) (accOffY s))
                          (fsub (Fin (getAccY (mpu_feed s (mpu_updates s)))) (accOffY s)))
                    (fmul (fsub (Fin (getAccZ (mpu_feed s (mpu_updates s)))) (accOffZ s))
                          (fsub (Fin (getAccZ (mpu_feed s (mpu_updates s)))) (accOffZ s)))))),
      angleZ = Fin (getAngleZ (mpu_feed s (mpu_updates s))),
      accX = fsub (Fin (getAccX (mpu_feed s (mpu_updates s)))) (accOffX s),
      accY = fsub (Fin (getAccY (mpu_feed s (mpu_updates s)))) (accOffY s),
      accZ = fsub (Fin (getAccZ (mpu_feed s (mpu_updates s)))) (accOffZ s)\<rparr>"
  by (simp add: readSensors_def Let_def split_beta mpu_update_def millis_def to_degrees_def)

lemma to_degrees_0: "to_degrees (Fin 0) = Fin 0"
  by (simp add: to_degrees_def fmul_def ddiv_def PI_def)

lemma atan2f_rn_0_1: "atan2f_rn (Fin 0) (Fin 1) = Fin 0"
  by (simp add: atan2_def)

text \<open>
  C3, as stated, does not hold: the subtraction is a \<^verbatim>\<open>float\<close> subtraction. On
  \<open>bench_rounded_bias\<close> the Z offset is \<open>-0.053148f\<close> and the raw Z acceleration is 1, both
  \<^verbatim>\<open>float\<close> values; raw minus offset is \<open>35337783 / 2\<^sup>2\<^sup>5\<close>, the corrected value of the
  reading is \<open>35337784 / 2\<^sup>2\<^sup>5\<close>.
\<close>

theorem corrected_acceleration_is_rounded:
  "accOffZ bench_rounded_bias = Fin (- (1783351 / 33554432))
   \<and> is_float (- (1783351 / 33554432))
   \<and> getAccZ (mpu_feed bench_rounded_bias (mpu_updates bench_rounded_bias)) = 1
   \<and> is_float 1
   \<and> (1::real) - (- (1783351 / 33554432)) = 35337783 / 33554432
   \<and> accZ (fst (readSensors bench_rounded_bias)) = Fin (35337784 / 33554432)"
proof -
  have b: "accOffZ bench_rounded_bias = Fin (- (1783351 / 33554432))"
    by (simp add: bench_rounded_bias_def)
  have f: "getAccZ (mpu_feed bench_rounded_bias (mpu_updates bench_rounded_bias)) = 1"
    by (simp add: bench_rounded_bias_def bench_flat_def flat_frame_def)
  have fb: "is_float (- (1783351 / 33554432))"
    unfolding is_float_def
    by (rule to_float_exact [where m = "- 1783351" and j = "- 25"]) (simp_all add: pow2_def)
  have e: "(1::real) - (- (1783351 / 33554432)) = 35337783 / 33554432"
    by simp
  have "to_float (Fin (35337783 / 33554432)) = Fin (35337784 / 33554432)"
    by (rule to_float_eval [where k = 0]) (simp_all add: pow2_def rne_def)
  then have "to_float (Fin (1 - (- (1783351 / 33554432)))) = Fin (35337784 / 33554432)"
    by (simp only: e)
  then have z: "accZ (fst (readSensors bench_rounded_bias)) = Fin (35337784 / 33554432)"
    by (simp only: readSensors_reading SensorReading.simps f b fsub_Fin)
  show ?thesis
    using b fb f is_float_1 e z by blast
qed

text \<open>
  C3, amended. The reading \<open>r\<close> made from the raw sample \<open>f\<close> that the update inside
  \<^verbatim>\<open>readSensors\<close> fetches has, on each accelerometer axis, the raw value minus the
  offset in \<^verbatim>\<open>float\<close> arithmetic: with finite offsets \<open>(bx, by, bz)\<close> the difference
  rounded to \<^verbatim>\<open>float\<close>, a finite number at most \<open>2\<^sup>e\<^sup>-\<^sup>2\<^sup>4\<close> away from the difference when
  this is at most \<open>2\<^sup>e\<close> in absolute value. \<open>angleX\<close> is the C library's \<^verbatim>\<open>atan2\<close> of
  \<open>(accY, accZ)\<close> and \<open>angleY\<close> that of \<open>(-accX, sqrt(accY\<^sup>2 + accZ\<^sup>2))\<close>, on these corrected
  values and with the square root, the squares and their sum in \<^verbatim>\<open>float\<close> arithmetic,
  both converted to degrees by a \<^verbatim>\<open>float\<close> multiplication by 180 and a \<^verbatim>\<open>double\<close>
  division by \<^verbatim>\<open>PI\<close>, rounded to \<^verbatim>\<open>float\<close>; \<open>angleZ\<close> is the driver's fused angle as it is.
\<close>

theorem telemetry_correction_and_tilt_in_float:
  assumes "r = fst (readSensors s)" and "f = mpu_feed s (mpu_updates s)"
  shows "accX r = fsub (Fin (getAccX f)) (accOffX s)
       \<and> accY r = fsub (Fin (getAccY f)) (accOffY s)
       \<and> accZ r = fsub (Fin (getAccZ f)) (accOffZ s)
       \<and> angleX r = to_degrees (libm_atan2f s (accY r) (accZ r))
       \<and> angleY r = to_degrees (libm_atan2f s (xneg (accX r))
                        (fsqrt (fadd (fmul (accY r) (accY r)) (fmul (accZ r) (accZ r)))))
       \<and> angleZ r = Fin (getAngleZ f)
       \<and> (accOffX s = Fin bx \<and> accOffY s = Fin by \<and> accOffZ s = Fin bz \<longrightarrow>
            accX r = to_float (Fin (getAccX f - bx))
            \<and> accY r = to_float (Fin (getAccY f - by))
            \<and> accZ r = to_float (Fin (getAccZ f - bz)))
       \<and> (accOffX s = Fin bx \<and> accOffY s = Fin by \<and> accOffZ s = Fin bz \<and> e \<le> 100
            \<and> \<bar>getAccX f - bx\<bar> \<le> 2 ^ e \<and> \<bar>getAccY f - by\<bar> \<le> 2 ^ e
            \<and> \<bar>getAccZ f - bz\<bar> \<le> 2 ^ e \<longrightarrow>
            close_to (accX r) (getAccX f - bx) (2 ^ e / 2 ^ 24)
            \<and> close_to (accY r) (getAccY f - by) (2 ^ e / 2 ^ 24)
            \<and> close_to (accZ r) (getAccZ f - bz) (2 ^ e / 2 ^ 24))"
proof -
  have a: "accX r = fsub (Fin (getAccX f)) (accOffX s)"
      "accY r = fsub (Fin (getAccY f)) (accOffY s)"
      "accZ r = fsub (Fin (getAccZ f)) (accOffZ s)"
    by (simp_all add: assms readSensors_reading)
  have g: "angleX r = to_degrees (libm_atan2f s (accY r) (accZ r))"
      "angleY r = to_degrees (libm_atan2f s (xneg (accX r))
                        (fsqrt (fadd (fmul (accY r) (accY r)) (fmul (accZ r) (accZ r)))))"
      "angleZ r = Fin (getAngleZ f)"
    by (simp_all add: assms readSensors_reading)
  have fin: "accX r = to_float (Fin (getAccX f - bx))
      \<and> accY r = to_float (Fin (getAccY f - by))
      \<and> accZ r = to_float (Fin (getAccZ f - bz))"
    if "accOffX s = Fin bx \<and> accOffY s = Fin by \<and> accOffZ s = Fin bz"
    using that by (simp add: a fsub_Fin)
  have cl: "close_to (accX r) (getAccX f - bx) (2 ^ e / 2 ^ 24)
      \<and> close_to (accY r) (getAccY f - by) (2 ^ e / 2 ^ 24)
      \<and> close_to (accZ r) (getAccZ f - bz) (2 ^ e / 2 ^ 24)"
    if h: "accOffX s = Fin bx \<and> accOffY s = Fin by \<and> accOffZ s = Fin bz \<and> e \<le> 100
      \<and> \<bar>getAccX f - bx\<bar> \<le> 2 ^ e \<and> \<bar>getAccY f - by\<bar> \<le> 2 ^ e \<and> \<bar>getAccZ f - bz\<bar> \<le> 2 ^ e"
  proof -
    have e: "e \<le> 100" using h by simp
    have "close_to (to_float (Fin (getAccX f - bx))) (getAccX f - bx) (2 ^ e / 2 ^ 24)"
      using h by (intro to_float_close_to e) simp
    moreover have "close_to (to_float (Fin (getAccY f - by))) (getAccY f - by) (2 ^ e / 2 ^ 24)"
      using h by (intro to_float_close_to e) simp
    moreover have "close_to (to_float (Fin (getAccZ f - bz))) (getAccZ f - bz) (2 ^ e / 2 ^ 24)"
      using h by (intro to_float_close_to e) simp
    ultimately show ?thesis
      using fin h by simp
  qed
  show ?thesis
    using a g fin cl by blast
qed

theorem telemetry_correction_and_tilt_in_float_witness:
  "accOffX scenario_board = Fin (1090519 / 8388608)
   \<and> accOffY scenario_board = Fin (- (8589935 / 8589934592))
   \<and> accOffZ scenario_board = Fin (- (14227079 / 268435456))
   \<and> mpu_feed scenario_board (mpu_updates scenario_board) = scenario_frame
   \<and> (1::nat) \<le> 100
   \<and> \<bar>getAccX scenario_frame - 1090519 / 8388608\<bar> \<le> 2 ^ 1
   \<and> \<bar>getAccY scenario_frame - - (8589935 / 8589934592)\<bar> \<le> 2 ^ 1
   \<and> \<bar>getAccZ scenario_frame - - (14227079 / 268435456)\<bar> \<le> 2 ^ 1
   \<and> getAccZ scenario_frame - - (14227079 / 268435456) = 268435463 / 268435456
   \<and> accX (fst (readSensors scenario_board)) = Fin 0
   \<and> accY (fst (readSensors scenario_board)) = Fin 0
   \<and> accZ (fst (readSensors scenario_board)) = Fin 1
   \<and> close_to (Fin 1) (268435463 / 268435456) (2 ^ 1 / 2 ^ 24)
   \<and> angleX (fst (readSensors scenario_board)) = Fin 0
   \<and> angleY (fst (readSensors scenario_board)) = Fin 0
   \<and> angleZ (fst (readSensors scenario_board)) = Fin 30"
proof -
  have b: "accOffX scenario_board = Fin (1090519 / 8388608)"
      "accOffY scenario_board = Fin (- (8589935 / 8589934592))"
      "accOffZ scenario_board = Fin (- (14227079 / 268435456))"
    by (simp_all add: scenario_board_def)
  have f: "scenario_frame = mpu_feed scenario_board (mpu_updates scenario_board)"
    by (simp add: scenario_board_def)
  have l: "libm_atan2f scenario_board = atan2f_rn"
    by (simp add: scenario_board_def bench_flat_def)
  have v: "getAccX scenario_frame - 1090519 / 8388608 = 0"
      "getAccY scenario_frame - - (8589935 / 8589934592) = 0"
      "getAccZ scenario_frame - - (14227079 / 268435456) = 268435463 / 268435456"
    by (simp_all add: scenario_frame_def)
  have z: "to_float (Fin (268435463 / 268435456)) = Fin 1"
    by (rule to_float_eval [where k = 0]) (simp_all add: pow2_def rne_def)
  have c: "close_to (Fin 1) (268435463 / 268435456) (2 ^ 1 / 2 ^ 24)"
    by (simp add: close_to_def)
  have sq: "fsqrt (fadd (fmul (Fin 0) (Fin 0)) (fmul (Fin 1) (Fin 1))) = Fin 1"
    by (simp add: fsqrt_def fadd_def fmul_def)
  note t = telemetry_correction_and_tilt_in_float [OF refl f,
      of "1090519 / 8388608" "- (8589935 / 8589934592)" "- (14227079 / 268435456)" 1]
  from t b have "accX (fst (readSensors scenario_board)) =
        to_float (Fin (getAccX scenario_frame - 1090519 / 8388608))
      \<and> accY (fst (readSensors scenario_board)) =
        to_float (Fin (getAccY scenario_frame - - (8589935 / 8589934592)))
      \<and> accZ (fst (readSensors scenario_board)) =
        to_float (Fin (getAccZ scenario_frame - - (14227079 / 268435456)))"
    by blast
  then have acc: "accX (fst (readSensors scenario_board)) = Fin 0"
      "accY (fst (readSensors scenario_board)) = Fin 0"
      "accZ (fst (readSensors scenario_board)) = Fin 1"
    by (simp_all only: v z to_float_0)
  have negz: "xneg (Fin 0) = Fin 0"
    by simp
  from t have "angleX (fst (readSensors scenario_board)) =
      to_degrees (libm_atan2f scenario_board (accY (fst (readSensors scenario_board)))
        (accZ (fst (readSensors scenario_board))))"
    by blast
  then have ax: "angleX (fst (readSensors scenario_board)) = Fin 0"
    by (simp only: acc l atan2f_rn_0_1 to_degrees_0)
  from t have "angleY (fst (readSensors scenario_board)) =
      to_degrees (libm_atan2f scenario_board (xneg (accX (fst (readSensors scenario_board))))
        (fsqrt (fadd (fmul (accY (fst (readSensors scenario_board)))
                           (accY (fst (readSensors scenario_board))))
                     (fmul (accZ (fst (readSensors scenario_board)))
                           (accZ (fst (readSensors scenario_board)))))))"
    by blast
  then have ay: "angleY (fst (readSensors scenario_board)) = Fin 0"
    by (simp only: acc l negz sq atan2f_rn_0_1 to_degrees_0)
  from t have "angleZ (fst (readSensors scenario_board)) = Fin (getAngleZ scenario_frame)"
    by blast
  then have az: "angleZ (fst (readSensors scenario_board)) = Fin 30"
    by (simp add: scenario_frame_def)
  note ang = ax ay az
  show ?thesis
    using b f acc ang c v by simp
qed

text \<open>
  C4, as the code has it. Without the BMP280 the three environmental fields of the
  reading are zero, and nothing in the reading tells the absence: it is the reading of a
  board whose BMP280 is present and returns zero three times.
\<close>

theorem unavailable_bmp_reads_as_zero:
  assumes "\<not> bmp_ok s"
  shows "temperature (fst (readSensors s)) = Fin 0
       \<and> pressure (fst (readSensors s)) = Fin 0
       \<and> altitude (fst (readSensors s)) = Fin 0
       \<and> fst (readSensors s) =
           fst (readSensors (s\<lparr>bmp_ok := True, bmp_temperature := Fin 0,
                                bmp_pressure := Fin 0, bmp_altitude := Fin 0\<rparr>))"
  using assms by (simp add: readSensors_reading fdiv_def)

theorem unavailable_bmp_reads_as_zero_witness:
  "\<not> bmp_ok bench_no_bmp
   \<and> temperature (fst (readSensors bench_no_bmp)) = Fin 0
   \<and> pressure (fst (readSensors bench_no_bmp)) = Fin 0
   \<and> altitude (fst (readSensors bench_no_bmp)) = Fin 0"
proof -
  have h: "\<not> bmp_ok bench_no_bmp"
    by (simp add: bench_no_bmp_def)
  show ?thesis
    using h unavailable_bmp_reads_as_zero [OF h] by blast
qed

text \<open>
  The claim C4 as stated fails: the board without a BMP280 and the board whose BMP280
  reads zero give the same reading and the same \<^verbatim>\<open>/data\<close> response.
\<close>

theorem unavailable_bmp_not_indicated:
  "\<not> bmp_ok bench_no_bmp
   \<and> bmp_ok bench_bmp_zero
   \<and> fst (readSensors bench_no_bmp) = fst (readSensors bench_bmp_zero)
   \<and> http_out (handleData authorized_data bench_no_bmp) =
       http_out (handleData authorized_data bench_bmp_zero)"
proof -
  have r: "fst (readSensors bench_no_bmp) = fst (readSensors bench_bmp_zero)"
    by (simp add: readSensors_reading bench_no_bmp_def bench_bmp_zero_def bench_flat_def fdiv_def)
  have a: "checkAuth authorized_data"
    by (simp add: checkAuth_def USE_BASIC_AUTH_def authorized_data_def)
  have h: "http_out (handleData authorized_data bench_no_bmp) =
           http_out (handleData authorized_data bench_bmp_zero)"
    using a
    by (simp add: handleData_def Let_def split_beta server_send_def r readSensors_state mpu_update_def)
       (simp add: bench_no_bmp_def bench_bmp_zero_def bench_flat_def)
  show ?thesis
    using r h by (simp add: bench_no_bmp_def bench_bmp_zero_def bench_flat_def)
qed

text \<open>
  C10. The gyroscope offsets do not reach the sensor reading: in two states that differ
  only in \<open>gyrOffX\<close>, \<open>gyrOffY\<close>, \<open>gyrOffZ\<close>, \<^verbatim>\<open>readSensors\<close> returns the same reading,
  \<open>angleZ\<close> included, and \<^verbatim>\<open>handleData\<close> sends the same response; the states they leave
  differ again only in the three gyroscope offsets.
\<close>

theorem gyro_offsets_do_not_reach_reading:
  "fst (readSensors (s\<lparr>gyrOffX := gx, gyrOffY := gy, gyrOffZ := gz\<rparr>)) = fst (readSensors s)
   \<and> snd (readSensors (s\<lparr>gyrOffX := gx, gyrOffY := gy, gyrOffZ := gz\<rparr>)) =
       (snd (readSensors s))\<lparr>gyrOffX := gx, gyrOffY := gy, gyrOffZ := gz\<rparr>
   \<and> http_out (handleData rq (s\<lparr>gyrOffX := gx, gyrOffY := gy, gyrOffZ := gz\<rparr>)) =
       http_out (handleData rq s)
   \<and> handleData rq (s\<lparr>gyrOffX := gx, gyrOffY := gy, gyrOffZ := gz\<rparr>) =
       (handleData rq s)\<lparr>gyrOffX := gx, gyrOffY := gy, gyrOffZ := gz\<rparr>"
proof -
  have r: "fst (readSensors (s\<lparr>gyrOffX := gx, gyrOffY := gy, gyrOffZ := gz\<rparr>)) = fst (readSensors s)"
    by (simp add: readSensors_reading)
  have st: "snd (readSensors (s\<lparr>gyrOffX := gx, gyrOffY := gy, gyrOffZ := gz\<rparr>)) =
      (snd (readSensors s))\<lparr>gyrOffX := gx, gyrOffY := gy, gyrOffZ := gz\<rparr>"
    by (simp add: readSensors_state mpu_update_def)
  have h: "handleData rq (s\<lparr>gyrOffX := gx, gyrOffY := gy, gyrOffZ := gz\<rparr>) =
      (handleData rq s)\<lparr>gyrOffX := gx, gyrOffY := gy, gyrOffZ := gz\<rparr>"
    by (simp add: handleData_def Let_def split_beta server_send_def r st)
  show ?thesis
    by (simp add: r st h)
qed

subsection \<open>The display arbiter\<close>

lemma not_transition_report:
  "\<not> is_transition_report ''Calibration: keep MPU perfectly still and flat.''"
  "\<not> is_transition_report ''Calibration failed (sensor not stable or orientation unexpected).''"
  by (simp_all add: is_transition_report_def)

lemma handleCalibrate_display:
  "lcd (handleCalibrate rq s) = lcd s"
  "lastIrActive (handleCalibrate rq s) = lastIrActive s"
  "irActive (handleCalibrate rq s) = irActive s"
  "lcd_last (handleCalibrate rq s) = lcd_last s"
  by (simp_all add: handleCalibrate_eq server_send_def saveOffsetsToPrefs_eq Let_def)

lemma handleCalibrate_serial:
  "\<exists>ys. serial (handleCalibrate rq s) = serial s @ ys \<and> filter is_transition_report ys = []"
proof (cases "checkAuth rq")
  case False
  then show ?thesis by (simp add: handleCalibrate_eq server_send_def)
next
  case True
  show ?thesis
  proof (cases "fst (doAveragingCalibration 800 3 s)")
    case False
    have "serial (handleCalibrate rq s) =
        serial s @ [''Calibration: keep MPU perfectly still and flat.'',
                    ''Calibration failed (sensor not stable or orientation unexpected).'']"
      using True False by (simp add: handleCalibrate_eq)
    then show ?thesis
      using not_transition_report by (intro exI conjI) (assumption, simp)
  next
    case ok: True
    have "serial (handleCalibrate rq s) =
        serial s @ [''Calibration: keep MPU perfectly still and flat.'']"
      using True ok by (simp add: handleCalibrate_eq saveOffsetsToPrefs_eq Let_def)
    then show ?thesis
      using not_transition_report by (intro exI conjI) (assumption, simp)
  qed
qed

lemma handleData_display:
  "lcd (handleData rq s) = lcd s"
  "lastIrActive (handleData rq s) = lastIrActive s"
  "irActive (handleData rq s) = irActive s"
  "lcd_last (handleData rq s) = lcd_last s"
  "serial (handleData rq s) = serial s"
  by (simp_all add: handleData_def Let_def split_beta server_send_def readSensors_state mpu_update_def)

lemma handleRoot_display:
  "lcd (handleRoot rq s) = lcd s"
  "lastIrActive (handleRoot rq s) = lastIrActive s"
  "irActive (handleRoot rq s) = irActive s"
  "lcd_last (handleRoot rq s) = lcd_last s"
  "serial (handleRoot rq s) = serial s"
  by (simp_all add: handleRoot_def server_send_def)

lemma handleClient_display:
  "lcd (handleClient p s) = lcd s"
  "lastIrActive (handleClient p s) = lastIrActive s"
  "irActive (handleClient p s) = irActive s"
  "lcd_last (handleClient p s) = lcd_last s"
  by (simp_all add: handleClient_def handleRoot_display handleData_display
      handleCalibrate_display server_send_def split: option.splits)

lemma handleClient_serial:
  "\<exists>ys. serial (handleClient p s) = serial s @ ys \<and> filter is_transition_report ys = []"
proof (cases p)
  case None
  then show ?thesis by (simp add: handleClient_def)
next
  case (Some rq)
  consider "path rq = ''/calibrate''" | "path rq \<noteq> ''/calibrate''" by blast
  then show ?thesis
  proof cases
    case 1
    then have "handleClient p s = handleCalibrate rq s"
      by (simp add: handleClient_def Some)
    then show ?thesis by (simp add: handleCalibrate_serial)
  next
    case 2
    then have "serial (handleClient p s) = serial s"
      by (simp add: handleClient_def Some handleRoot_display handleData_display server_send_def)
    then show ?thesis by simp
  qed
qed

lemma mpu_update_display:
  "lcd (mpu_update s) = lcd s"
  "serial (mpu_update s) = serial s"
  "irActive (mpu_update s) = irActive s"
  "lastIrActive (mpu_update s) = lastIrActive s"
  by (simp_all add: mpu_update_def)

lemma readSensors_display:
  "lcd (snd (readSensors s)) = lcd s"
  "serial (snd (readSensors s)) = serial s"
  "irActive (snd (readSensors s)) = irActive s"
  "lastIrActive (snd (readSensors s)) = lastIrActive s"
  by (simp_all add: readSensors_state mpu_update_display)

lemma readSensors_reading_cong:
  "fst (readSensors (s\<lparr>irActive := a\<rparr>)) = fst (readSensors s)"
  "fst (readSensors (s\<lparr>lastIrActive := a\<rparr>)) = fst (readSensors s)"
  by (simp_all add: readSensors_reading)

lemma showIrAlert_eq: "showIrAlert s = s\<lparr>lcd := lcd s @ alert_render\<rparr>"
  by (simp add: showIrAlert_def lcd_write_def alert_render_def)

lemma restoreNormalDisplay_eq:
  "restoreNormalDisplay s =
     (mpu_update s)\<lparr>lcd := lcd s @ telemetry_render (fst (readSensors s))\<rparr>"
  by (simp add: restoreNormalDisplay_def split_beta readSensors_state lcd_write_def
      telemetry_render_def mpu_update_display)

lemma ir_transition_display:
  "irActive (ir_transition pin s) = (pin = LOW)"
  "lastIrActive (ir_transition pin s) = (pin = LOW)"
  "lcd (ir_transition pin s) =
     lcd s @ (if (pin = LOW) = lastIrActive s then []
              else if pin = LOW then alert_render
              else telemetry_render (fst (readSensors s)))"
  "serial (ir_transition pin s) =
     serial s @ (if (pin = LOW) = lastIrActive s then []
                 else if pin = LOW then [''IR Detected - LCD showing alert'']
                 else [''IR cleared - LCD restored''])"
  by (auto simp add: ir_transition_def Let_def showIrAlert_eq restoreNormalDisplay_eq
      Serial_println_def mpu_update_display readSensors_reading_cong)

lemma periodic_refresh_display:
  "lcd (periodic_refresh t) = lcd t @ refresh_render t"
  "serial (periodic_refresh t) = serial t"
  "lastIrActive (periodic_refresh t) = lastIrActive t"
  by (simp_all add: periodic_refresh_def refresh_render_def split_beta Let_def updateLCD_def
      lcd_write_def telemetry_render_def readSensors_display)

lemma refresh_render_alert: "irActive t \<Longrightarrow> refresh_render t = []"
  by (simp add: refresh_render_def)

lemma loop_display:
  "lastIrActive (loop pin p s) = (pin = LOW)"
  "lcd (loop pin p s) =
     lcd s @ (if (pin = LOW) = lastIrActive s then []
              else if pin = LOW then alert_render
              else telemetry_render (fst (readSensors (mpu_update s))))
           @ refresh_render (handleClient p (ir_transition pin (mpu_update s)))"
  by (simp_all add: loop_def Let_def delay_def periodic_refresh_display handleClient_display
      ir_transition_display mpu_update_display)

lemma loop_serial:
  "\<exists>ys. serial (loop pin p s) =
          serial s @ (if (pin = LOW) = lastIrActive s then []
                      else if pin = LOW then [''IR Detected - LCD showing alert'']
                      else [''IR cleared - LCD restored'']) @ ys
        \<and> filter is_transition_report ys = []"
proof -
  obtain ys where ys:
      "serial (handleClient p (ir_transition pin (mpu_update s))) =
         serial (ir_transition pin (mpu_update s)) @ ys"
      "filter is_transition_report ys = []"
    using handleClient_serial [of p "ir_transition pin (mpu_update s)"] by blast
  have "serial (loop pin p s) = serial (handleClient p (ir_transition pin (mpu_update s)))"
    by (simp add: loop_def Let_def delay_def periodic_refresh_display)
  then show ?thesis
    using ys by (simp add: ir_transition_display mpu_update_display)
qed

lemma loop_transitions:
  "transitions_reported s (loop pin p s) =
     (if (pin = LOW) = lastIrActive s then []
      else if pin = LOW then [''IR Detected - LCD showing alert'']
      else [''IR cleared - LCD restored''])"
proof -
  obtain ys where ys: "serial (loop pin p s) =
            serial s @ (if (pin = LOW) = lastIrActive s then []
                        else if pin = LOW then [''IR Detected - LCD showing alert'']
                        else [''IR cleared - LCD restored'']) @ ys"
          "filter is_transition_report ys = []"
    using loop_serial [of pin p s] by blast
  show ?thesis
    by (simp add: transitions_reported_def serial_added_def ys is_transition_report_def)
qed

lemma loop_lcd_added:
  "lcd_added s (loop pin p s) =
     (if (pin = LOW) = lastIrActive s then []
      else if pin = LOW then alert_render
      else telemetry_render (fst (readSensors (mpu_update s))))
     @ refresh_render (handleClient p (ir_transition pin (mpu_update s)))"
  by (simp add: lcd_added_def loop_display)

lemma loop_lcd_added_alert:
  "pin = LOW \<Longrightarrow>
   lcd_added s (loop pin p s) = (if lastIrActive s then [] else alert_render)"
  by (simp add: loop_lcd_added refresh_render_alert handleClient_display ir_transition_display)

lemma setup_display_effects:
  "lastIrActive (setup_display pin s) = (pin = LOW)"
  "lcd_added s (setup_display pin s) =
     (if pin = LOW then alert_render else telemetry_render (fst (readSensors s)))"
  "transitions_reported s (setup_display pin s) = []"
  by (simp_all add: setup_display_def Let_def showIrAlert_eq restoreNormalDisplay_eq
      mpu_update_display lcd_added_def transitions_reported_def serial_added_def
      readSensors_reading_cong)

lemma level_cases: "pin = HIGH \<longleftrightarrow> pin \<noteq> LOW"
  by (cases pin) simp_all

lemma alert_input_LOW: "(alert_input b = LOW) = b"
  by (simp add: alert_input_def)

text \<open>
  C9. The display arbiter is edge-triggered.
  \<^item> At start-up \<open>lastIrActive\<close> is taken from the alert input, the display is drawn for it
    (the alert message when asserted, the telemetry otherwise) and no transition is
    reported.
  \<^item> In every pass of \<^verbatim>\<open>loop\<close> a transition is reported exactly when the alert input
    differs from \<open>lastIrActive\<close>, which then takes the input's value. On a rising edge the
    display receives the alert message, once, and nothing else; on a falling edge it
    receives the telemetry of a fresh reading at once, before anything else; while the
    input stays asserted it receives nothing; while the input stays deasserted it
    receives nothing from the arbiter: what it receives is the periodic refresh of that
    pass, which is empty unless more than \<open>LCD_UPDATE_MS\<close> have passed since the last one.
  \<^item> For the inputs \<open>[0,0,1,1,0]\<close> after a start-up with input 0, whatever the requests
    served in between, transitions are reported in ticks 3 and 5 only, tick 3 renders the
    alert message and tick 4 renders nothing; the same holds when the first 0 is the
    start-up sample and the passes of the loop see \<open>[0,1,1,0]\<close>.
\<close>

theorem display_arbiter_edge_triggered:
  "lastIrActive (setup_display pin s) = (pin = LOW)
   \<and> lcd_added s (setup_display pin s) =
       (if pin = LOW then alert_render else telemetry_render (fst (readSensors s)))
   \<and> transitions_reported s (setup_display pin s) = []
   \<and> lastIrActive (loop pin p s) = (pin = LOW)
   \<and> transitions_reported s (loop pin p s) =
       (if (pin = LOW) = lastIrActive s then []
        else if pin = LOW then [''IR Detected - LCD showing alert'']
        else [''IR cleared - LCD restored''])
   \<and> (pin = LOW \<and> \<not> lastIrActive s \<longrightarrow> lcd_added s (loop pin p s) = alert_render)
   \<and> (pin = LOW \<and> lastIrActive s \<longrightarrow> lcd_added s (loop pin p s) = [])
   \<and> (pin = HIGH \<and> lastIrActive s \<longrightarrow>
        lcd_added s (loop pin p s) =
          telemetry_render (fst (readSensors (mpu_update s)))
          @ refresh_render (handleClient p (ir_transition pin (mpu_update s))))
   \<and> (pin = HIGH \<and> \<not> lastIrActive s \<longrightarrow>
        lcd_added s (loop pin p s) =
          refresh_render (handleClient p (ir_transition pin (mpu_update s))))
   \<and> tick_transitions
        (run_loop [(False, p1), (False, p2), (True, p3), (True, p4), (False, p5)]
           (setup_display (alert_input False) s)) =
       [[], [], [''IR Detected - LCD showing alert''], [], [''IR cleared - LCD restored'']]
   \<and> tick_renders
        (run_loop [(False, p1), (False, p2), (True, p3), (True, p4), (False, p5)]
           (setup_display (alert_input False) s)) ! 2 = alert_render
   \<and> tick_renders
        (run_loop [(False, p1), (False, p2), (True, p3), (True, p4), (False, p5)]
           (setup_display (alert_input False) s)) ! 3 = []
   \<and> tick_transitions
        (run_loop [(False, p2), (True, p3), (True, p4), (False, p5)]
           (setup_display (alert_input False) s)) =
       [[], [''IR Detected - LCD showing alert''], [], [''IR cleared - LCD restored'']]"
proof -
  have rising: "pin = LOW \<and> \<not> lastIrActive s \<longrightarrow> lcd_added s (loop pin p s) = alert_render"
    by (simp add: loop_lcd_added_alert)
  have steady: "pin = LOW \<and> lastIrActive s \<longrightarrow> lcd_added s (loop pin p s) = []"
    by (simp add: loop_lcd_added_alert)
  have falling: "pin = HIGH \<and> lastIrActive s \<longrightarrow>
        lcd_added s (loop pin p s) =
          telemetry_render (fst (readSensors (mpu_update s)))
          @ refresh_render (handleClient p (ir_transition pin (mpu_update s)))"
    by (simp add: loop_lcd_added)
  have normal: "pin = HIGH \<and> \<not> lastIrActive s \<longrightarrow>
        lcd_added s (loop pin p s) =
          refresh_render (handleClient p (ir_transition pin (mpu_update s)))"
    by (simp add: loop_lcd_added)
  define s0 where "s0 = setup_display (alert_input False) s"
  define s1 where "s1 = loop (alert_input False) p1 s0"
  define s2 where "s2 = loop (alert_input False) p2 s1"
  define s3 where "s3 = loop (alert_input True) p3 s2"
  define s4 where "s4 = loop (alert_input True) p4 s3"
  define s5 where "s5 = loop (alert_input False) p5 s4"
  have l: "\<not> lastIrActive s0" "\<not> lastIrActive s1" "\<not> lastIrActive s2"
      "lastIrActive s3" "lastIrActive s4"
    by (simp_all add: s0_def s1_def s2_def s3_def s4_def setup_display_effects(1)
        loop_display(1) alert_input_LOW)
  have t1: "transitions_reported s0 s1 = []"
    unfolding s1_def using l(1) by (simp add: loop_transitions alert_input_LOW)
  have t2: "transitions_reported s1 s2 = []"
    unfolding s2_def using l(2) by (simp add: loop_transitions alert_input_LOW)
  have t3: "transitions_reported s2 s3 = [''IR Detected - LCD showing alert'']"
    unfolding s3_def using l(3) by (simp add: loop_transitions alert_input_LOW)
  have t4: "transitions_reported s3 s4 = []"
    unfolding s4_def using l(4) by (simp add: loop_transitions alert_input_LOW)
  have t5: "transitions_reported s4 s5 = [''IR cleared - LCD restored'']"
    unfolding s5_def using l(5) by (simp add: loop_transitions alert_input_LOW)
  have r3: "lcd_added s2 s3 = alert_render"
    unfolding s3_def using l(3) by (simp add: loop_lcd_added_alert alert_input_LOW)
  have r4: "lcd_added s3 s4 = []"
    unfolding s4_def using l(4) by (simp add: loop_lcd_added_alert alert_input_LOW)
  have run5: "run_loop [(False, p1), (False, p2), (True, p3), (True, p4), (False, p5)] s0 =
      [s0, s1, s2, s3, s4, s5]"
    by (simp add: s1_def s2_def s3_def s4_def s5_def)
  define u2 where "u2 = loop (alert_input False) p2 s0"
  define u3 where "u3 = loop (alert_input True) p3 u2"
  define u4 where "u4 = loop (alert_input True) p4 u3"
  define u5 where "u5 = loop (alert_input False) p5 u4"
  have m: "\<not> lastIrActive u2" "lastIrActive u3" "lastIrActive u4"
    by (simp_all add: u2_def u3_def u4_def loop_display(1) alert_input_LOW)
  have v2: "transitions_reported s0 u2 = []"
    unfolding u2_def using l(1) by (simp add: loop_transitions alert_input_LOW)
  have v3: "transitions_reported u2 u3 = [''IR Detected - LCD showing alert'']"
    unfolding u3_def using m(1) by (simp add: loop_transitions alert_input_LOW)
  have v4: "transitions_reported u3 u4 = []"
    unfolding u4_def using m(2) by (simp add: loop_transitions alert_input_LOW)
  have v5: "transitions_reported u4 u5 = [''IR cleared - LCD restored'']"
    unfolding u5_def using m(3) by (simp add: loop_transitions alert_input_LOW)
  have run4: "run_loop [(False, p2), (True, p3), (True, p4), (False, p5)] s0 =
      [s0, u2, u3, u4, u5]"
    by (simp add: u2_def u3_def u4_def u5_def)
  have ex1: "tick_transitions
        (run_loop [(False, p1), (False, p2), (True, p3), (True, p4), (False, p5)] s0) =
       [[], [], [''IR Detected - LCD showing alert''], [], [''IR cleared - LCD restored'']]"
    unfolding run5 by (simp add: tick_transitions_def t1 t2 t3 t4 t5)
  have ex2: "tick_renders
        (run_loop [(False, p1), (False, p2), (True, p3), (True, p4), (False, p5)] s0) ! 2 =
       alert_render"
    unfolding run5 by (simp add: tick_renders_def r3)
  have ex3: "tick_renders
        (run_loop [(False, p1), (False, p2), (True, p3), (True, p4), (False, p5)] s0) ! 3 = []"
    unfolding run5 by (simp add: tick_renders_def r4)
  have ex4: "tick_transitions
        (run_loop [(False, p2), (True, p3), (True, p4), (False, p5)] s0) =
       [[], [''IR Detected - LCD showing alert''], [], [''IR cleared - LCD restored'']]"
    unfolding run4 by (simp add: tick_transitions_def v2 v3 v4 v5)
  show ?thesis
    using rising steady falling normal ex1 ex2 ex3 ex4
    unfolding s0_def
    by (simp only: setup_display_effects loop_display(1) loop_transitions simp_thms)
qed

theorem display_arbiter_edge_triggered_witness:
  "\<not> lastIrActive bench_flat
   \<and> lastIrActive (bench_flat\<lparr>lastIrActive := True\<rparr>)
   \<and> lcd_added bench_flat (loop LOW None bench_flat) = alert_render
   \<and> transitions_reported bench_flat (loop LOW None bench_flat) =
       [''IR Detected - LCD showing alert'']
   \<and> lcd_added (bench_flat\<lparr>lastIrActive := True\<rparr>)
        (loop LOW None (bench_flat\<lparr>lastIrActive := True\<rparr>)) = []
   \<and> transitions_reported (bench_flat\<lparr>lastIrActive := True\<rparr>)
        (loop LOW None (bench_flat\<lparr>lastIrActive := True\<rparr>)) = []
   \<and> lcd_added (bench_flat\<lparr>lastIrActive := True\<rparr>)
        (loop HIGH None (bench_flat\<lparr>lastIrActive := True\<rparr>)) =
       telemetry_render (fst (readSensors (mpu_update bench_flat)))
   \<and> transitions_reported (bench_flat\<lparr>lastIrActive := True\<rparr>)
        (loop HIGH None (bench_flat\<lparr>lastIrActive := True\<rparr>)) = [''IR cleared - LCD restored'']
   \<and> lcd_added bench_flat (loop HIGH None bench_flat) = []
   \<and> transitions_reported bench_flat (loop HIGH None bench_flat) = []
   \<and> lcd_added (bench_flat\<lparr>clock := 5000\<rparr>) (loop HIGH None (bench_flat\<lparr>clock := 5000\<rparr>)) =
       telemetry_render (fst (readSensors (mpu_update (bench_flat\<lparr>clock := 5000\<rparr>))))"
proof -
  have n: "\<not> lastIrActive bench_flat" "\<not> lastIrActive (bench_flat\<lparr>clock := 5000\<rparr>)"
    by (simp_all add: bench_flat_def)
  have y: "lastIrActive (bench_flat\<lparr>lastIrActive := True\<rparr>)"
    by simp
  have d: "HIGH \<noteq> LOW"
    by simp
  have c: "clock (ir_transition HIGH (mpu_update t)) = clock t"
      "lcd_last (ir_transition HIGH (mpu_update t)) = lcd_last t" for t
    by (simp_all add: ir_transition_def Let_def showIrAlert_eq restoreNormalDisplay_eq
        Serial_println_def mpu_update_def)
  have k: "clock bench_flat = 0" "lcd_last bench_flat = 0"
    by (simp_all add: bench_flat_def)
  have q: "refresh_render (handleClient None (ir_transition HIGH (mpu_update t))) =
      (if clock t - lcd_last t > 1000
       then telemetry_render (fst (readSensors (ir_transition HIGH (mpu_update t)))) else [])" for t
    by (simp add: refresh_render_def handleClient_def ir_transition_display millis_def
        LCD_UPDATE_MS_def c)
  have rd: "fst (readSensors (ir_transition HIGH (mpu_update t))) = fst (readSensors (mpu_update t))"
    if "\<not> lastIrActive t" for t
    using that by (simp add: ir_transition_def Let_def mpu_update_display readSensors_reading_cong)
  have r1: "fst (readSensors (mpu_update (bench_flat\<lparr>lastIrActive := True\<rparr>))) =
      fst (readSensors (mpu_update bench_flat))"
    by (simp add: readSensors_reading mpu_update_def)
  show ?thesis
    using display_arbiter_edge_triggered [of LOW bench_flat None]
      display_arbiter_edge_triggered [of LOW "bench_flat\<lparr>lastIrActive := True\<rparr>" None]
      display_arbiter_edge_triggered [of HIGH "bench_flat\<lparr>lastIrActive := True\<rparr>" None]
      display_arbiter_edge_triggered [of HIGH bench_flat None]
      display_arbiter_edge_triggered [of HIGH "bench_flat\<lparr>clock := 5000\<rparr>" None]
      n y d
    by (simp add: q k rd r1)
qed

end
